(* ===== verification/Prelude.thy ===== *)
theory Prelude
  imports Main
begin

text \<open>
  Shared vocabulary of the librarian model: the exceptions the Python sources raise,
  the names of the string-valued types, the positional update of association lists
  (used for directory listings, the object store and the credential dictionary), and
  the generic list lemmas the component theories share. The collection
  \<open>model_simps\<close> gathers the executable equations that evaluate a concrete scenario.
\<close>

named_theorems model_simps "equations that evaluate the librarian model on concrete inputs"

type_synonym path = string
type_synonym key = string
type_synonym url = string

text \<open>
  Every \<^verbatim>\<open>raise\<close> of the sources, and every exception a library call there can
  raise, is one constructor. The message strings of the sources are in the comments.
\<close>

datatype error =
    ConfigError string     \<comment> \<open>\<^verbatim>\<open>ConfigError(msg)\<close> with its \<^verbatim>\<open>msg\<close> (librarian.py:24-27)\<close>
  | KeyError string        \<comment> \<open>a dictionary lookup of a missing key\<close>
  | TypeError              \<comment> \<open>a constructor called with unexpected or too many arguments\<close>
  | ValueError             \<comment> \<open>\<^verbatim>\<open>int()\<close> of a non-numeral, \<^verbatim>\<open>rindex\<close> without match, strftime\<close>
  | InvalidDBCredentials   \<comment> \<open>'Invalid credentials for librarian database' (dbconn.py:43)\<close>
  | InvalidS3Credentials   \<comment> \<open>'Invalid S3 credentials' (storage_s3.py:23)\<close>
  | DatabaseNotAvailable   \<comment> \<open>'Database not available' (dbconn.py:52, 74, 139)\<close>
  | ProjectAlreadyExists   \<comment> \<open>'Project already exists!' (dbconn.py:89)\<close>
  | ProjectDoesNotExist    \<comment> \<open>'Project does not exist!' (dbconn.py:106)\<close>
  | InvalidLocalPath       \<comment> \<open>'Invalid local path specified' (librarian.py:92)\<close>
  | OSError                \<comment> \<open>\<^verbatim>\<open>os.listdir\<close> of a path that is not a directory\<close>
  | IOError                \<comment> \<open>opening a file, or a network failure of \<^verbatim>\<open>urlretrieve\<close>\<close>
  | S3ResponseError        \<comment> \<open>boto: bucket lookup refused, or a transfer failed\<close>
  | AttributeError         \<comment> \<open>a method called on a value of the wrong type\<close>
  | IndexError             \<comment> \<open>a list subscript out of range (\<^verbatim>\<open>projects[0]\<close>, dbconn.py:152)\<close>

subsection \<open>Association lists updated in place\<close>

text \<open>
  A Python dictionary assignment \<^verbatim>\<open>d[k] = v\<close> keeps the position of an existing key
  and adds a new key at the end; so does a directory entry rewritten by \<^verbatim>\<open>open(p, 'w')\<close>
  in the order \<^verbatim>\<open>os.listdir\<close> reports, as far as the model fixes that order.
\<close>

fun upd_alist :: "'k \<Rightarrow> 'v \<Rightarrow> ('k \<times> 'v) list \<Rightarrow> ('k \<times> 'v) list" where
  "upd_alist k v [] = [(k, v)]"
| "upd_alist k v ((a, b) # ps) = (if a = k then (k, v) # ps else (a, b) # upd_alist k v ps)"

lemma map_of_upd_alist [simp]: "map_of (upd_alist k v ps) = (map_of ps)(k \<mapsto> v)"
  by (induction k v ps rule: upd_alist.induct) (auto simp: fun_eq_iff)

lemma keys_upd_alist: "map fst (upd_alist k v ps) =
    (if k \<in> set (map fst ps) then map fst ps else map fst ps @ [k])"
  by (induction k v ps rule: upd_alist.induct) auto

lemma set_keys_upd_alist [simp]: "fst ` set (upd_alist k v ps) = insert k (fst ` set ps)"
  by (induction k v ps rule: upd_alist.induct) auto

lemma distinct_upd_alist [simp]: "distinct (map fst ps) \<Longrightarrow> distinct (map fst (upd_alist k v ps))"
  by (simp add: keys_upd_alist)

lemma upd_alist_fresh: "k \<notin> fst ` set ps \<Longrightarrow> upd_alist k v ps = ps @ [(k, v)]"
  by (induction ps) auto


lemma fold_upd_alist_fresh:
  "distinct (map fst xs) \<Longrightarrow> set (map fst xs) \<inter> fst ` set acc = {} \<Longrightarrow>
     fold (\<lambda>(k, v). upd_alist k v) xs acc = acc @ xs"
proof (induction xs arbitrary: acc)
  case (Cons x xs)
  obtain k v where x: "x = (k, v)" by fastforce
  with Cons.prems have "upd_alist k v acc = acc @ [(k, v)]"
    by (intro upd_alist_fresh) auto
  moreover have "set (map fst xs) \<inter> fst ` set (acc @ [(k, v)]) = {}"
    using Cons.prems x by auto
  ultimately show ?case using Cons.IH Cons.prems x by simp
qed simp


lemma set_upd_alist: "set (upd_alist k v ps) \<subseteq> insert (k, v) (set ps)"
  by (induction k v ps rule: upd_alist.induct) auto

subsection \<open>Exceptions that keep the effects done before them\<close>

text \<open>
  The sources talk to external services (the database, the object store, the local
  disk). An exception does not undo what was sent before it, so an operation on a
  state \<open>'s\<close> returns the state reached and either the exception or the result.
  \<open>bind_exc\<close> is the sequencing of two such operations.
\<close>

type_synonym ('s, 'a) exc = "'s \<Rightarrow> 's \<times> (error + 'a)"

definition bind_exc :: "('s, 'a) exc \<Rightarrow> ('a \<Rightarrow> ('s, 'b) exc) \<Rightarrow> ('s, 'b) exc" where
  "bind_exc m f s = (case m s of (s', Inl e) \<Rightarrow> (s', Inl e) | (s', Inr a) \<Rightarrow> f a s')"

lemma bind_exc_Inl [simp]: "m s = (s', Inl e) \<Longrightarrow> bind_exc m f s = (s', Inl e)"
  by (simp add: bind_exc_def)

lemma bind_exc_Inr [simp]: "m s = (s', Inr a) \<Longrightarrow> bind_exc m f s = f a s'"
  by (simp add: bind_exc_def)

text \<open>Sequencing of computations that may raise but change no state.\<close>

fun bind_sum :: "error + 'a \<Rightarrow> ('a \<Rightarrow> error + 'b) \<Rightarrow> error + 'b" where
  "bind_sum (Inl e) f = Inl e"
| "bind_sum (Inr a) f = f a"

text \<open>\<^verbatim>\<open>d[k]\<close> on a dictionary held as an association list.\<close>

definition dict_get :: "('k \<times> 'v) list \<Rightarrow> 'k \<Rightarrow> ('k \<Rightarrow> error) \<Rightarrow> error + 'v" where
  "dict_get d k err = (case map_of d k of None \<Rightarrow> Inl (err k) | Some v \<Rightarrow> Inr v)"

subsection \<open>Lists\<close>

lemma replicate_numeral_Cons [model_simps]:
  "replicate (numeral k) x = x # replicate (pred_numeral k) x"
  by (simp add: numeral_eq_Suc)

text \<open>A query's nested loop with a condition is a filter followed by a projection.\<close>

lemma concat_map_if_singleton [simp]:
  "concat (map (\<lambda>x. if P x then [f x] else []) xs) = map f (filter P xs)"
  by (induction xs) auto

lemma filter_unique_key:
  "distinct (map g xs) \<Longrightarrow> x \<in> set xs \<Longrightarrow> filter (\<lambda>y. g y = g x) xs = [x]"
  by (induction xs) (auto simp: filter_empty_conv image_iff)

lemma fold_max_ge: "x \<in> set xs \<or> x \<le> a \<Longrightarrow> x \<le> fold max xs (a::nat)"
proof (induction xs arbitrary: a)
  case (Cons y ys)
  then have "x \<in> set ys \<or> x \<le> max y a" by auto
  then show ?case using Cons.IH by simp
qed simp

lemma find_by_key:
  "p \<in> set (map g xs) \<Longrightarrow> \<exists>e. find (\<lambda>e. g e = p) xs = Some e \<and> e \<in> set xs \<and> g e = p"
  by (induction xs) auto

subsection \<open>Results of operations\<close>

text \<open>Reading the state and the outcome off an operation's result.\<close>

lemma exc_result_eq: "(a, b) = (s', r) \<Longrightarrow> s' = a \<and> r = b"
  by (simp only: prod.inject)

lemma find_Some_mem: "find P xs = Some x \<Longrightarrow> P x \<and> x \<in> set xs"
  by (induction xs) (auto split: if_splits)

end
