(* ===== verification/PyStr.thy ===== *)
theory PyStr
  imports Prelude
begin

text \<open>
  The Python 2 string built-ins the librarian relies on, with the behaviour of the
  language rather than of the repository: \<^verbatim>\<open>sep.join(xs)\<close>, \<^verbatim>\<open>s.split()\<close> (runs
  of whitespace), \<^verbatim>\<open>s.split(c)\<close>, \<^verbatim>\<open>s.rindex(c)\<close>, \<^verbatim>\<open>urllib.quote\<close> and the
  \<^verbatim>\<open>strftime('-%Y%m%d-%H%M%S%f')\<close> stamp of a \<^verbatim>\<open>datetime\<close>. Strings are byte
  strings (Python 2 \<^verbatim>\<open>str\<close>), so \<open>char\<close> is the right element type. The lemmas are
  the round trips the manifest encoding and the storage prefix depend on.
\<close>

subsection \<open>join and split\<close>

fun py_join :: "string \<Rightarrow> string list \<Rightarrow> string" where
  "py_join sep [] = []"
| "py_join sep [x] = x"
| "py_join sep (x # y # ys) = x @ sep @ py_join sep (y # ys)"

text \<open>
  \<open>split_on P s\<close> cuts \<open>s\<close> at every character satisfying \<open>P\<close>, keeping empty fields:
  it is \<^verbatim>\<open>s.split(c)\<close> for \<open>P = (\<lambda>x. x = c)\<close>. The result is never empty.
\<close>

fun split_on :: "(char \<Rightarrow> bool) \<Rightarrow> string \<Rightarrow> string list" where
  "split_on P [] = [[]]"
| "split_on P (c # cs) =
     (let r = split_on P cs in if P c then [] # r else (c # hd r) # tl r)"

text \<open>Python 2 \<^verbatim>\<open>string.whitespace\<close>: space, tab, LF, CR, VT, FF.\<close>

definition is_space :: "char \<Rightarrow> bool" where
  "is_space c \<longleftrightarrow> c \<in> set [CHR '' '', CHR 0x09, CHR 0x0A, CHR 0x0D, CHR 0x0B, CHR 0x0C]"

text \<open>\<^verbatim>\<open>s.split()\<close>: fields between runs of whitespace, empty fields dropped.\<close>

definition py_split :: "string \<Rightarrow> string list" where
  "py_split s = filter (\<lambda>w. w \<noteq> []) (split_on is_space s)"

lemma split_on_not_Nil [simp]: "split_on P s \<noteq> []"
  by (induction s) (auto simp: Let_def)

lemma split_on_no_sep: "\<forall>c \<in> set x. \<not> P c \<Longrightarrow> split_on P x = [x]"
  by (induction x) (auto simp: Let_def)

lemma split_on_append_sep:
  "\<forall>c \<in> set x. \<not> P c \<Longrightarrow> P s \<Longrightarrow> split_on P (x @ s # rest) = x # split_on P rest"
  by (induction x) (auto simp: Let_def)

text \<open>Splitting at the separator undoes joining with it (no field contains it).\<close>

lemma split_on_py_join:
  assumes "P s" and "\<forall>x \<in> set xs. \<forall>c \<in> set x. \<not> P c" and "xs \<noteq> []"
  shows "split_on P (py_join [s] xs) = xs"
  using assms(2,3)
proof (induction "[s]" xs rule: py_join.induct)
  case (2 x)
  then show ?case by (simp add: split_on_no_sep)
next
  case (3 x y ys)
  then show ?case using assms(1) by (simp add: split_on_append_sep)
qed simp

text \<open>
  \<^verbatim>\<open>s.split()\<close> undoes \<^verbatim>\<open>'\n'.join\<close> when every field is non-empty and free of
  whitespace; the empty list joins to the empty string, which splits to no field.
\<close>

lemma py_split_py_join_lines:
  assumes "\<forall>x \<in> set xs. x \<noteq> [] \<and> (\<forall>c \<in> set x. \<not> is_space c)"
  shows "py_split (py_join ''\<newline>'' xs) = xs"
proof (cases "xs = []")
  case True then show ?thesis by (simp add: py_split_def)
next
  case False
  have "is_space CHR ''\<newline>''" by (simp add: is_space_def)
  then have "split_on is_space (py_join [CHR ''\<newline>''] xs) = xs"
    using split_on_py_join [of is_space "CHR ''\<newline>''" xs] assms False by blast
  then have "split_on is_space (py_join ''\<newline>'' xs) = xs" by simp
  with assms show ?thesis by (simp add: py_split_def filter_id_conv)
qed

text \<open>No field of a split contains a separator.\<close>

lemma split_on_no_sep_in_fields: "w \<in> set (split_on P s) \<Longrightarrow> \<forall>c \<in> set w. \<not> P c"
proof (induction s arbitrary: w)
  case (Cons x s)
  obtain y ys where r: "split_on P s = y # ys" by (cases "split_on P s") auto
  show ?case
  proof (cases "P x")
    case True
    with Cons r show ?thesis by (auto simp: Let_def)
  next
    case False
    with Cons.prems r have "w = x # y \<or> w \<in> set ys" by (auto simp: Let_def)
    moreover have "\<forall>c \<in> set y. \<not> P c" using Cons.IH [of y] r by simp
    ultimately show ?thesis using Cons.IH r False by auto
  qed
qed simp

subsection \<open>rindex\<close>

text \<open>\<^verbatim>\<open>s.rindex(c)\<close>: the last position of \<open>c\<close>; \<open>None\<close> is the \<^verbatim>\<open>ValueError\<close>.\<close>

fun py_rindex :: "char \<Rightarrow> string \<Rightarrow> nat option" where
  "py_rindex c [] = None"
| "py_rindex c (x # xs) =
     (case py_rindex c xs of Some i \<Rightarrow> Some (Suc i) | None \<Rightarrow> if x = c then Some 0 else None)"

lemma py_rindex_None: "py_rindex c s = None \<longleftrightarrow> c \<notin> set s"
  by (induction s) (auto split: option.splits)

lemma py_rindex_last: "c \<notin> set b \<Longrightarrow> py_rindex c (a @ c # b) = Some (length a)"
proof (induction a)
  case Nil
  then have "py_rindex c b = None" by (simp add: py_rindex_None)
  then show ?case by simp
next
  case (Cons x a)
  then show ?case by simp
qed

text \<open>The last slash-separated component of a string, and where \<^verbatim>\<open>rindex('/')\<close> cuts it off.\<close>

definition url_base :: "url \<Rightarrow> string" where
  "url_base u = rev (takeWhile (\<lambda>c. c \<noteq> CHR ''/'') (rev u))"

lemma url_split:
  assumes "CHR ''/'' \<in> set u"
  shows "\<exists>a. u = a @ CHR ''/'' # url_base u \<and> CHR ''/'' \<notin> set (url_base u)"
proof -
  let ?P = "\<lambda>c. c \<noteq> CHR ''/''"
  have "rev u = takeWhile ?P (rev u) @ dropWhile ?P (rev u)" by simp
  moreover from assms have "dropWhile ?P (rev u) \<noteq> []" by (simp add: dropWhile_eq_Nil_conv)
  then obtain x r where xr: "dropWhile ?P (rev u) = x # r" by (cases "dropWhile ?P (rev u)") auto
  have "x = CHR ''/''" using hd_dropWhile [of ?P "rev u"] xr by simp
  with xr have "dropWhile ?P (rev u) = CHR ''/'' # r" by simp
  ultimately have "rev u = takeWhile ?P (rev u) @ CHR ''/'' # r" by simp
  then have "rev (rev u) = rev (takeWhile ?P (rev u) @ CHR ''/'' # r)" by (rule arg_cong)
  then have "u = rev r @ CHR ''/'' # url_base u" by (simp add: url_base_def)
  moreover have "CHR ''/'' \<notin> set (url_base u)"
    by (auto simp: url_base_def dest: set_takeWhileD)
  ultimately show ?thesis by blast
qed

lemma rindex_url_base:
  assumes "CHR ''/'' \<in> set u"
  shows "\<exists>i. py_rindex CHR ''/'' u = Some i \<and> drop i u = CHR ''/'' # url_base u"
proof -
  from url_split [OF assms] obtain a where u: "u = a @ CHR ''/'' # url_base u"
    and nb: "CHR ''/'' \<notin> set (url_base u)" by blast
  have "py_rindex CHR ''/'' u = Some (length a)" by (subst u) (rule py_rindex_last [OF nb])
  moreover have "drop (length a) u = CHR ''/'' # url_base u" by (subst u) simp
  ultimately show ?thesis by blast
qed

subsection \<open>URL quoting\<close>

text \<open>
  \<^verbatim>\<open>urllib.quote(s)\<close> of Python 2 with its default \<^verbatim>\<open>safe='/'\<close>: letters, digits,
  \<^verbatim>\<open>_.-\<close> and \<^verbatim>\<open>/\<close> stay, every other byte becomes \<^verbatim>\<open>%XX\<close> in upper-case hex.
  boto applies it to the key of every URL it generates.
\<close>

definition hex_digits :: string where
  "hex_digits = ''0123456789ABCDEF''"

definition hex_digit :: "nat \<Rightarrow> char" where
  "hex_digit d = hex_digits ! d"

text \<open>\<^verbatim>\<open>urllib.always_safe\<close> of Python 2, and the default \<^verbatim>\<open>safe\<close> argument.\<close>

definition always_safe :: string where
  "always_safe = ''ABCDEFGHIJKLMNOPQRSTUVWXYZabcdefghijklmnopqrstuvwxyz0123456789_.-''"

definition quote_safe :: "char \<Rightarrow> bool" where
  "quote_safe c \<longleftrightarrow> c \<in> set (always_safe @ ''/'')"

definition quote_char :: "char \<Rightarrow> string" where
  "quote_char c =
     (if quote_safe c then [c]
      else [CHR ''%'', hex_digit (of_char c div 16), hex_digit (of_char c mod 16)])"

definition url_quote :: "string \<Rightarrow> string" where
  "url_quote s = concat (map quote_char s)"

lemma url_quote_append [simp]: "url_quote (a @ b) = url_quote a @ url_quote b"
  by (simp add: url_quote_def)

lemma url_quote_slash [simp]: "url_quote (CHR ''/'' # s) = CHR ''/'' # url_quote s"
  by (simp add: url_quote_def quote_char_def quote_safe_def)

lemma hex_digit_mem: "d < 16 \<Longrightarrow> hex_digit d \<in> set hex_digits"
  unfolding hex_digit_def by (rule nth_mem) (simp add: hex_digits_def)

lemma of_char_div16: "of_char c div 16 < (16::nat)"
proof -
  have "of_char c < (256::nat)" by (rule nat_of_char_less_256)
  then show ?thesis by (simp add: less_mult_imp_div_less)
qed

lemma quoted_chars: "c' \<in> set (quote_char c) \<Longrightarrow>
    c' \<in> set (always_safe @ ''/'') \<or> c' = CHR ''%'' \<or> c' \<in> set hex_digits"
  by (auto simp: quote_char_def quote_safe_def hex_digit_mem of_char_div16 split: if_splits)

lemma quote_char_no_space: "c' \<in> set (quote_char c) \<Longrightarrow> \<not> is_space c'"
  by (drule quoted_chars) (auto simp: always_safe_def hex_digits_def is_space_def)

lemma quote_char_no_slash: "c \<noteq> CHR ''/'' \<Longrightarrow> CHR ''/'' \<notin> set (quote_char c)"
proof
  assume ne: "c \<noteq> CHR ''/''" and mem: "CHR ''/'' \<in> set (quote_char c)"
  have "CHR ''/'' \<notin> set hex_digits" by (simp add: hex_digits_def)
  then have "hex_digit d \<noteq> CHR ''/''" if "d < 16" for d
    using hex_digit_mem [OF that] by auto
  then have "hex_digit (of_char c div 16) \<noteq> CHR ''/''" "hex_digit (of_char c mod 16) \<noteq> CHR ''/''"
    by (simp_all add: of_char_div16)
  with ne mem show False
    by (auto simp: quote_char_def split: if_splits)
qed

lemma url_quote_no_space: "c \<in> set (url_quote s) \<Longrightarrow> \<not> is_space c"
  by (auto simp: url_quote_def dest: quote_char_no_space)

lemma url_quote_no_slash: "CHR ''/'' \<notin> set s \<Longrightarrow> CHR ''/'' \<notin> set (url_quote s)"
  by (auto simp: url_quote_def) (metis quote_char_no_slash)

subsection \<open>Quoting is injective\<close>

text \<open>
  A quoted character is either itself (a safe character, never \<^verbatim>\<open>%\<close>) or
  \<^verbatim>\<open>%\<close> and two hex digits, so a quoted string determines the string.
\<close>

lemma hex_digit_inj: "i < 16 \<Longrightarrow> j < 16 \<Longrightarrow> hex_digit i = hex_digit j \<Longrightarrow> i = j"
  unfolding hex_digit_def by (simp add: hex_digits_def nth_eq_iff_index_eq)

lemma percent_not_safe: "\<not> quote_safe CHR ''%''"
  by (simp add: quote_safe_def always_safe_def)

lemma of_char_mod16: "of_char c mod 16 < (16::nat)"
  by simp

lemma quote_char_prefix:
  assumes "quote_char a @ x = quote_char b @ y"
  shows "a = b \<and> x = y"
proof (cases "quote_safe a")
  case True
  show ?thesis
  proof (cases "quote_safe b")
    case False
    with True assms have "a = CHR ''%''" by (simp add: quote_char_def)
    with True percent_not_safe show ?thesis by simp
  qed (use True assms in \<open>simp add: quote_char_def\<close>)
next
  case False
  show ?thesis
  proof (cases "quote_safe b")
    case True
    with False assms have "b = CHR ''%''" by (simp add: quote_char_def)
    with True percent_not_safe show ?thesis by simp
  next
    case False': False
    with False assms have d: "hex_digit (of_char a div 16) = hex_digit (of_char b div 16)"
      and m: "hex_digit (of_char a mod 16) = hex_digit (of_char b mod 16)" and xy: "x = y"
      by (simp_all add: quote_char_def)
    from hex_digit_inj [OF of_char_div16 of_char_div16 d] hex_digit_inj [OF of_char_mod16 of_char_mod16 m]
    have "(of_char a :: nat) = of_char b" by (metis div_mult_mod_eq)
    with xy show ?thesis by simp
  qed
qed

lemma quote_char_not_Nil: "quote_char c \<noteq> []"
  by (simp add: quote_char_def)

lemma url_quote_inj: "url_quote k = url_quote k' \<Longrightarrow> k = k'"
proof (induction k arbitrary: k')
  case Nil
  then show ?case by (cases k') (simp_all add: url_quote_def quote_char_not_Nil)
next
  case (Cons a k)
  then obtain b k1 where k': "k' = b # k1"
    by (cases k') (simp_all add: url_quote_def quote_char_not_Nil)
  with Cons.prems have "quote_char a @ url_quote k = quote_char b @ url_quote k1"
    by (simp add: url_quote_def)
  from quote_char_prefix [OF this] Cons.IH k' show ?case by simp
qed

subsection \<open>datetime and its strftime stamp\<close>

text \<open>
  A \<^verbatim>\<open>datetime.datetime\<close>; \<open>dt_valid\<close> is the range its constructor enforces.
  \<^verbatim>\<open>%Y\<close> is zero-padded to four digits, \<^verbatim>\<open>%m %d %H %M %S\<close> to two, \<^verbatim>\<open>%f\<close>
  to six. Python 2 refuses \<^verbatim>\<open>strftime\<close> on a year before 1900 with a \<^verbatim>\<open>ValueError\<close>.
  \<open>decode_stamp\<close> reads the fields back from their fixed positions.
\<close>

record datetime =
  dt_year :: nat
  dt_month :: nat
  dt_day :: nat
  dt_hour :: nat
  dt_minute :: nat
  dt_second :: nat
  dt_microsecond :: nat

fun nat_digits :: "nat \<Rightarrow> string" where
  "nat_digits n =
     (if n < 10 then [hex_digit n] else nat_digits (n div 10) @ [hex_digit (n mod 10)])"

declare nat_digits.simps [simp del]

definition zero_pad :: "nat \<Rightarrow> nat \<Rightarrow> string" where
  "zero_pad w n = replicate (w - length (nat_digits n)) CHR ''0'' @ nat_digits n"

definition strftime_stamp :: "datetime \<Rightarrow> error + string" where
  "strftime_stamp t =
     (if dt_year t < 1900 then Inl ValueError
      else Inr (''-'' @ zero_pad 4 (dt_year t) @ zero_pad 2 (dt_month t) @ zero_pad 2 (dt_day t)
                @ ''-'' @ zero_pad 2 (dt_hour t) @ zero_pad 2 (dt_minute t)
                @ zero_pad 2 (dt_second t) @ zero_pad 6 (dt_microsecond t)))"

definition parse_nat :: "string \<Rightarrow> nat" where
  "parse_nat s = foldl (\<lambda>a c. 10 * a + (of_char c - 48)) 0 s"

definition decode_stamp :: "string \<Rightarrow> datetime" where
  "decode_stamp s =
     \<lparr>dt_year = parse_nat (take 4 (drop 1 s)), dt_month = parse_nat (take 2 (drop 5 s)),
      dt_day = parse_nat (take 2 (drop 7 s)), dt_hour = parse_nat (take 2 (drop 10 s)),
      dt_minute = parse_nat (take 2 (drop 12 s)), dt_second = parse_nat (take 2 (drop 14 s)),
      dt_microsecond = parse_nat (take 6 (drop 16 s))\<rparr>"

definition dt_valid :: "datetime \<Rightarrow> bool" where
  "dt_valid t \<longleftrightarrow> 1 \<le> dt_year t \<and> dt_year t \<le> 9999 \<and> 1 \<le> dt_month t \<and> dt_month t \<le> 12
     \<and> 1 \<le> dt_day t \<and> dt_day t \<le> 31 \<and> dt_hour t < 24 \<and> dt_minute t < 60
     \<and> dt_second t < 60 \<and> dt_microsecond t < 1000000"

text \<open>The two branches of \<open>nat_digits\<close>, for evaluating it on numerals.\<close>

lemma nat_digits_small [model_simps]: "n < 10 \<Longrightarrow> nat_digits n = [hex_digit n]"
  by (simp add: nat_digits.simps [of n])

lemma nat_digits_large [model_simps]:
  "\<not> n < 10 \<Longrightarrow> nat_digits n = nat_digits (n div 10) @ [hex_digit (n mod 10)]"
  by (simp add: nat_digits.simps [of n])

lemma of_char_hex_digit: "d < 10 \<Longrightarrow> of_char (hex_digit d) = (48 + d :: nat)"
  by (auto simp: hex_digit_def hex_digits_def numeral_eq_Suc less_Suc_eq)

lemma parse_nat_snoc: "parse_nat (s @ [c]) = 10 * parse_nat s + (of_char c - 48)"
  by (simp add: parse_nat_def)

lemma parse_nat_nat_digits: "parse_nat (nat_digits n) = n"
proof (induction n rule: nat_digits.induct)
  case (1 n)
  show ?case
  proof (cases "n < 10")
    case True
    then show ?thesis by (simp add: nat_digits.simps [of n] parse_nat_def of_char_hex_digit)
  next
    case False
    then have "parse_nat (nat_digits (n div 10)) = n div 10" using "1.IH" by simp
    with False show ?thesis by (simp add: nat_digits.simps [of n] parse_nat_snoc of_char_hex_digit)
  qed
qed

lemma parse_nat_zeros: "parse_nat (replicate k CHR ''0'' @ s) = parse_nat s"
proof -
  have "foldl (\<lambda>a c. 10 * a + (of_char c - 48)) 0 (replicate k CHR ''0'') = (0::nat)"
    by (induction k) simp_all
  then show ?thesis by (simp add: parse_nat_def)
qed

lemma length_nat_digits: "0 < w \<Longrightarrow> n < 10 ^ w \<Longrightarrow> length (nat_digits n) \<le> w"
proof (induction n arbitrary: w rule: nat_digits.induct)
  case (1 n)
  show ?case
  proof (cases "n < 10")
    case True
    with "1.prems" show ?thesis by (simp add: nat_digits.simps [of n])
  next
    case False
    with "1.prems" have "(10::nat) ^ 1 < 10 ^ w" by simp
    then have "1 < w" by (simp only: power_strict_increasing_iff)
    then obtain v where v: "w = Suc v" and "0 < v"
      by (cases w) auto
    with "1.prems" have "n div 10 < 10 ^ v" by (simp add: less_mult_imp_div_less mult.commute)
    with False "1.IH" \<open>0 < v\<close> have "length (nat_digits (n div 10)) \<le> v" by simp
    with False v show ?thesis by (simp add: nat_digits.simps [of n])
  qed
qed

lemma zero_pad_props:
  assumes "0 < w" and "n < 10 ^ w"
  shows "length (zero_pad w n) = w" and "parse_nat (zero_pad w n) = n"
  using length_nat_digits [OF assms]
  by (simp_all add: zero_pad_def parse_nat_zeros parse_nat_nat_digits)

text \<open>
  C10. The timestamp suffix that \<^verbatim>\<open>publish\<close> puts into every store key
  (\<^verbatim>\<open>strftime('-%Y%m%d-%H%M%S%f')\<close>) is 22 characters long and decodes back to the
  clock reading it was made from, for every valid \<^verbatim>\<open>datetime\<close>: two submissions
  of the same dataset at different instants get different key prefixes.
\<close>

theorem decode_strftime_stamp:
  assumes "dt_valid t" and "strftime_stamp t = Inr s"
  shows "decode_stamp s = t \<and> length s = 22"
proof -
  from assms(1) have b: "dt_year t < 10 ^ 4" "dt_month t < 10 ^ 2" "dt_day t < 10 ^ 2"
    "dt_hour t < 10 ^ 2" "dt_minute t < 10 ^ 2" "dt_second t < 10 ^ 2" "dt_microsecond t < 10 ^ 6"
    by (auto simp: dt_valid_def)
  note zp = zero_pad_props [OF _ b(1)] zero_pad_props [OF _ b(2)] zero_pad_props [OF _ b(3)]
    zero_pad_props [OF _ b(4)] zero_pad_props [OF _ b(5)] zero_pad_props [OF _ b(6)]
    zero_pad_props [OF _ b(7)]
  from assms(2) have s: "s = ''-'' @ zero_pad 4 (dt_year t) @ zero_pad 2 (dt_month t)
      @ zero_pad 2 (dt_day t) @ ''-'' @ zero_pad 2 (dt_hour t) @ zero_pad 2 (dt_minute t)
      @ zero_pad 2 (dt_second t) @ zero_pad 6 (dt_microsecond t)"
    by (simp add: strftime_stamp_def split: if_splits)
  show ?thesis unfolding s decode_stamp_def using zp by simp
qed

definition demo_clock :: datetime where
  "demo_clock = \<lparr>dt_year = 2024, dt_month = 5, dt_day = 17, dt_hour = 9, dt_minute = 3,
     dt_second = 7, dt_microsecond = 42\<rparr>"

lemma strftime_demo_clock: "strftime_stamp demo_clock = Inr ''-20240517-090307000042''"
  by (simp add: demo_clock_def strftime_stamp_def zero_pad_def model_simps hex_digit_def hex_digits_def)

theorem decode_strftime_stamp_witness:
  "strftime_stamp demo_clock = Inr ''-20240517-090307000042''
   \<and> decode_stamp ''-20240517-090307000042'' = demo_clock"
proof -
  have h1: "dt_valid demo_clock" by (simp add: dt_valid_def demo_clock_def)
  note h2 = strftime_demo_clock
  from decode_strftime_stamp [OF h1 h2] h2 show ?thesis by simp
qed

subsection \<open>int()\<close>

text \<open>
  \<^verbatim>\<open>int(s)\<close> on a string: surrounding whitespace is ignored, an optional sign, then
  one or more decimal digits; anything else is a \<^verbatim>\<open>ValueError\<close> (\<open>None\<close>).
\<close>

definition is_digit :: "char \<Rightarrow> bool" where
  "is_digit c \<longleftrightarrow> (48::nat) \<le> of_char c \<and> of_char c \<le> (57::nat)"

definition py_strip :: "string \<Rightarrow> string" where
  "py_strip s = rev (dropWhile is_space (rev (dropWhile is_space s)))"

definition py_int :: "string \<Rightarrow> int option" where
  "py_int s =
     (let t = py_strip s;
          digits = (\<lambda>ds. ds \<noteq> [] \<and> list_all is_digit ds)
      in case t of
           [] \<Rightarrow> None
         | c # ds \<Rightarrow>
             if c = CHR ''-'' then (if digits ds then Some (- int (parse_nat ds)) else None)
             else if c = CHR ''+'' then (if digits ds then Some (int (parse_nat ds)) else None)
             else if digits t then Some (int (parse_nat t)) else None)"

subsection \<open>Formatting with a tuple\<close>

text \<open>
  \<^verbatim>\<open>query % args\<close> with a tuple, as \<^verbatim>\<open>MySQLdb\<close>'s \<^verbatim>\<open>cursor.execute(query, args)\<close>
  applies it: \<^verbatim>\<open>%%\<close> is a literal percent sign and each \<^verbatim>\<open>%s\<close> takes the next
  argument. \<open>fmt_count\<close> counts the conversions; a \<^verbatim>\<open>%\<close> that ends the string or
  is followed by a character Python does not accept is \<open>None\<close>, the
  \<^verbatim>\<open>ValueError\<close>; no statement of the sources holds any other conversion.
  Fewer or more arguments than conversions is a \<^verbatim>\<open>TypeError\<close> (not enough
  arguments, not all arguments converted).
\<close>

fun fmt_count :: "string \<Rightarrow> nat option" where
  "fmt_count [] = Some 0"
| "fmt_count (c # cs) =
     (if c \<noteq> CHR ''%'' then fmt_count cs
      else case cs of
        [] \<Rightarrow> None
      | d # ds \<Rightarrow> if d = CHR ''%'' then fmt_count ds
                 else if d = CHR ''s'' then map_option Suc (fmt_count ds) else None)"

definition py_format_args :: "string \<Rightarrow> nat \<Rightarrow> error + unit" where
  "py_format_args q n =
     (case fmt_count q of
        None \<Rightarrow> Inl ValueError
      | Some k \<Rightarrow> if k = n then Inr () else Inl TypeError)"

lemma fmt_count_plain: "CHR ''%'' \<notin> set xs \<Longrightarrow> fmt_count (xs @ ys) = fmt_count ys"
proof (induction xs)
  case (Cons c cs)
  then show ?case by (cases "c = CHR ''%''") simp_all
qed simp

lemma fmt_count_placeholders:
  "CHR ''%'' \<notin> set sep \<Longrightarrow>
     fmt_count (py_join sep (replicate n ''%s'') @ ys) = map_option ((+) n) (fmt_count ys)"
proof (induction n)
  case 0
  then show ?case by (simp add: option.map_ident)
next
  case (Suc n)
  then show ?case
    by (cases n) (simp_all add: fmt_count_plain option.map_comp comp_def)
qed

lemma py_join_no_char: "c \<notin> set sep \<Longrightarrow> \<forall>x \<in> set xs. c \<notin> set x \<Longrightarrow> c \<notin> set (py_join sep xs)"
  by (induction sep xs rule: py_join.induct) auto

subsection \<open>Quoting leaves safe names alone\<close>

lemma url_quote_safe: "list_all quote_safe s \<Longrightarrow> url_quote s = s"
  by (induction s) (simp_all add: url_quote_def quote_char_def)


lemma url_base_append: "CHR ''/'' \<notin> set f \<Longrightarrow> url_base (x @ CHR ''/'' # f) = f"
proof -
  assume f: "CHR ''/'' \<notin> set f"
  have "takeWhile (\<lambda>c. c \<noteq> CHR ''/'') (rev f @ CHR ''/'' # rev x) = rev f"
    using f by (subst takeWhile_append2) auto
  then show ?thesis by (simp add: url_base_def)
qed

end
