(* ===== verification/FileTree.thy ===== *)
theory FileTree
  imports PyStr "HOL-Library.Sublist"
begin

text \<open>
  The local file system as the sources see it through \<^verbatim>\<open>os.path\<close>, \<^verbatim>\<open>os.listdir\<close>
  and \<^verbatim>\<open>open\<close>: a finite tree whose directories list their entries in the order
  \<^verbatim>\<open>os.listdir\<close> returns them. \<open>Special\<close> is anything that is neither a regular file
  nor a directory (a socket, a device, a dangling link): \<^verbatim>\<open>os.path.isfile\<close> and
  \<^verbatim>\<open>os.path.isdir\<close> are both false on it. A tree has no cycles, which is the
  assumption the specification makes for symbolic links. A path string is resolved
  component by component, empty components (\<^verbatim>\<open>a//b\<close>, a trailing slash) ignored;
  paths are taken relative to the root of the tree.
\<close>

datatype fsnode = RegFile string | Directory "(string \<times> fsnode) list" | Special

definition path_comps :: "path \<Rightarrow> string list" where
  "path_comps p = filter (\<lambda>w. w \<noteq> []) (split_on (\<lambda>c. c = CHR ''/'') p)"

fun resolve :: "fsnode \<Rightarrow> string list \<Rightarrow> fsnode option" where
  "resolve n [] = Some n"
| "resolve (Directory es) (c # cs) = (case map_of es c of None \<Rightarrow> None | Some n \<Rightarrow> resolve n cs)"
| "resolve (RegFile d) (c # cs) = None"
| "resolve Special (c # cs) = None"

definition os_lookup :: "fsnode \<Rightarrow> path \<Rightarrow> fsnode option" where
  "os_lookup fs p = resolve fs (path_comps p)"

definition os_exists :: "fsnode \<Rightarrow> path \<Rightarrow> bool" where
  "os_exists fs p \<longleftrightarrow> os_lookup fs p \<noteq> None"

definition os_isdir :: "fsnode \<Rightarrow> path \<Rightarrow> bool" where
  "os_isdir fs p \<longleftrightarrow> (case os_lookup fs p of Some (Directory _) \<Rightarrow> True | _ \<Rightarrow> False)"

text \<open>\<^verbatim>\<open>open(p).read()\<close>: the content of a regular file; \<open>None\<close> is the \<^verbatim>\<open>IOError\<close>.\<close>

definition read_file :: "fsnode \<Rightarrow> path \<Rightarrow> string option" where
  "read_file fs p = (case os_lookup fs p of Some (RegFile d) \<Rightarrow> Some d | _ \<Rightarrow> None)"

text \<open>
  \<^verbatim>\<open>open(p, 'w').write(d)\<close>: creates or truncates a regular file in an existing directory;
  a missing parent, a directory or a special file at \<open>p\<close> is an \<^verbatim>\<open>IOError\<close>.
\<close>

fun put_file :: "fsnode \<Rightarrow> string list \<Rightarrow> string \<Rightarrow> fsnode option" where
  "put_file (Directory es) [f] d =
     (case map_of es f of
        Some (Directory _) \<Rightarrow> None
      | Some Special \<Rightarrow> None
      | _ \<Rightarrow> Some (Directory (upd_alist f (RegFile d) es)))"
| "put_file (Directory es) (c # c' # cs) d =
     (case map_of es c of
        None \<Rightarrow> None
      | Some n \<Rightarrow> map_option (\<lambda>n'. Directory (upd_alist c n' es)) (put_file n (c' # cs) d))"
| "put_file _ _ _ = None"

definition write_file :: "fsnode \<Rightarrow> path \<Rightarrow> string \<Rightarrow> fsnode option" where
  "write_file fs p d = put_file fs (path_comps p) d"

text \<open>
  A well-formed tree: the names of a directory are distinct, non-empty and free of
  \<^verbatim>\<open>/\<close>, as every name \<^verbatim>\<open>os.listdir\<close> returns is.
\<close>

fun wf_fs :: "fsnode \<Rightarrow> bool" and wf_entries :: "(string \<times> fsnode) list \<Rightarrow> bool" where
  "wf_fs (RegFile d) = True"
| "wf_fs Special = True"
| "wf_fs (Directory es) = (distinct (map fst es) \<and> wf_entries es)"
| "wf_entries [] = True"
| "wf_entries ((f, n) # es) = (f \<noteq> [] \<and> CHR ''/'' \<notin> set f \<and> wf_fs n \<and> wf_entries es)"

text \<open>The path string of a list of components below a directory: \<open>/c1/c2/...\<close>.\<close>

definition slash_path :: "string list \<Rightarrow> string" where
  "slash_path cs = concat (map (\<lambda>c. CHR ''/'' # c) cs)"

subsection \<open>Resolution of paths\<close>

lemma split_on_append_sep_any:
  "P s \<Longrightarrow> split_on P (a @ s # b) = split_on P a @ split_on P b"
proof (induction a)
  case Nil
  then show ?case by simp
next
  case (Cons c a)
  obtain x xs where "split_on P a = x # xs"
    by (cases "split_on P a") auto
  with Cons show ?case by (simp add: Let_def)
qed

lemma path_comps_child:
  assumes "f \<noteq> []" and "CHR ''/'' \<notin> set f"
  shows "path_comps (d @ CHR ''/'' # f) = path_comps d @ [f]"
proof -
  from assms(2) have "\<forall>c \<in> set f. \<not> c = CHR ''/''" by auto
  then have "split_on (\<lambda>c. c = CHR ''/'') f = [f]" by (rule split_on_no_sep)
  with assms(1) show ?thesis by (simp add: path_comps_def split_on_append_sep_any)
qed

lemma path_comps_slash_path:
  "\<forall>c \<in> set cs. c \<noteq> [] \<and> CHR ''/'' \<notin> set c \<Longrightarrow> path_comps (d @ slash_path cs) = path_comps d @ cs"
proof (induction cs arbitrary: d rule: rev_induct)
  case Nil
  then show ?case by (simp add: slash_path_def)
next
  case (snoc c cs)
  then have "path_comps ((d @ slash_path cs) @ CHR ''/'' # c) = path_comps (d @ slash_path cs) @ [c]"
    by (intro path_comps_child) auto
  with snoc show ?case by (simp add: slash_path_def)
qed

lemma resolve_append:
  "resolve n (cs @ ds) = (case resolve n cs of None \<Rightarrow> None | Some m \<Rightarrow> resolve m ds)"
  by (induction n cs rule: resolve.induct) (auto split: option.splits)

lemma wf_entries_iff: "wf_entries es \<longleftrightarrow> (\<forall>(f, n) \<in> set es. f \<noteq> [] \<and> CHR ''/'' \<notin> set f \<and> wf_fs n)"
  by (induction es) auto

lemma resolve_wf:
  "wf_fs n \<Longrightarrow> resolve n cs = Some m \<Longrightarrow> (\<forall>c \<in> set cs. c \<noteq> [] \<and> CHR ''/'' \<notin> set c) \<and> wf_fs m"
proof (induction n cs rule: resolve.induct)
  case (2 es c cs)
  then obtain n where n: "map_of es c = Some n" and r: "resolve n cs = Some m"
    by (auto split: option.splits)
  from n have "(c, n) \<in> set es" by (rule map_of_SomeD)
  with "2.prems"(1) have "c \<noteq> [] \<and> CHR ''/'' \<notin> set c \<and> wf_fs n"
    by (auto simp: wf_entries_iff)
  with "2.IH" [OF n] r show ?case by simp
qed auto

lemma os_lookup_wf: "wf_fs fs \<Longrightarrow> os_lookup fs p = Some n \<Longrightarrow> wf_fs n"
  using resolve_wf by (auto simp: os_lookup_def)


lemma os_lookup_below:
  assumes "wf_fs fs" and "os_lookup fs d = Some n" and "resolve n cs = Some m"
  shows "os_lookup fs (d @ slash_path cs) = Some m"
proof -
  from assms(1,2) have "wf_fs n" using resolve_wf by (auto simp: os_lookup_def)
  with assms(3) have "\<forall>c \<in> set cs. c \<noteq> [] \<and> CHR ''/'' \<notin> set c"
    using resolve_wf by blast
  then have "path_comps (d @ slash_path cs) = path_comps d @ cs"
    by (rule path_comps_slash_path)
  with assms(2,3) show ?thesis by (simp add: os_lookup_def resolve_append)
qed

text \<open>
  Writing a file into a directory reached by \<open>cs\<close> replaces or adds its entry
  there, unless the name is taken by a directory or a special file.
\<close>

lemma put_file_below:
  assumes "resolve fs cs = Some (Directory es)"
    and "\<forall>x. map_of es b \<noteq> Some (Directory x)" and "map_of es b \<noteq> Some Special"
  shows "\<exists>fs'. put_file fs (cs @ [b]) d = Some fs'
           \<and> resolve fs' cs = Some (Directory (upd_alist b (RegFile d) es))"
  using assms(1)
proof (induction cs arbitrary: fs)
  case Nil
  then have "fs = Directory es" by simp
  with assms(2,3) show ?case by (auto split: option.split fsnode.split)
next
  case (Cons c cs)
  then obtain es0 n where fs: "fs = Directory es0" and n: "map_of es0 c = Some n"
    and r: "resolve n cs = Some (Directory es)"
    by (cases fs) (auto split: option.splits)
  from Cons.IH [OF r] obtain n' where p: "put_file n (cs @ [b]) d = Some n'"
    and r': "resolve n' cs = Some (Directory (upd_alist b (RegFile d) es))" by blast
  obtain c' cs' where cs: "cs @ [b] = c' # cs'" by (cases "cs @ [b]") auto
  have "put_file fs ((c # cs) @ [b]) d = Some (Directory (upd_alist c n' es0))"
    using fs n p cs by simp
  moreover have "resolve (Directory (upd_alist c n' es0)) (c # cs) = Some (Directory (upd_alist b (RegFile d) es))"
    using r' by simp
  ultimately show ?case by blast
qed

subsection \<open>Writing changes the tree only along the written path\<close>

text \<open>After a write, a path resolves differently only if it leads to the written file.\<close>

lemma put_file_frame:
  "put_file n cs d = Some n' \<Longrightarrow> resolve n' ds \<noteq> resolve n ds \<Longrightarrow> prefix ds cs"
proof (induction n cs d arbitrary: n' ds rule: put_file.induct)
  case (1 es f d)
  show ?case
  proof (cases ds)
    case (Cons c ds')
    have c: "c = f"
    proof (rule ccontr)
      assume "c \<noteq> f"
      with 1 Cons show False by (auto split: option.splits fsnode.splits)
    qed
    have "ds' = []"
    proof (rule ccontr)
      assume "ds' \<noteq> []"
      then obtain x xs where "ds' = x # xs" by (cases ds') auto
      with 1 Cons c show False by (auto split: option.splits fsnode.splits)
    qed
    with Cons c show ?thesis by simp
  qed simp
next
  case (2 es c c' cs d)
  show ?case
  proof (cases ds)
    case (Cons x ds')
    from "2.prems"(1) obtain n m where n: "map_of es c = Some n" and m: "put_file n (c' # cs) d = Some m"
      and n': "n' = Directory (upd_alist c m es)"
      by (auto split: option.splits)
    with "2.prems"(2) Cons have x: "x = c" and r: "resolve m ds' \<noteq> resolve n ds'"
      by (auto split: if_splits)
    from "2.IH" [OF n m r] x Cons show ?thesis by simp
  qed simp
qed simp_all

text \<open>The components of \<open>d/b\<close>, for a last part \<open>b\<close> without a slash.\<close>

lemma path_comps_trailing_slash: "path_comps (d @ [CHR ''/'']) = path_comps d"
  using split_on_append_sep_any [of "\<lambda>c. c = CHR ''/''" "CHR ''/''" d "[]"] by (simp add: path_comps_def)

lemma prefix_child_path:
  assumes "CHR ''/'' \<notin> set b" and "prefix ds (path_comps (d @ CHR ''/'' # b))"
  shows "prefix ds (path_comps d) \<or> (\<exists>f. ds = path_comps d @ [f])"
proof (cases "b = []")
  case True
  with assms(2) show ?thesis by (simp add: path_comps_trailing_slash)
next
  case False
  with assms have "prefix ds (path_comps d @ [b])" by (simp add: path_comps_child)
  then show ?thesis by (auto simp: prefix_snoc)
qed

end
