(* ===== verification/StorageS3.thy ===== *)
theory StorageS3
  imports FileTree
begin

text \<open>
  \<^verbatim>\<open>storage_s3.py\<close>: the \<^verbatim>\<open>StorageS3\<close> class. Its state is the connection
  parameters (\<open>storage\<close>); the object store it talks to is the external
  \<open>s3_service\<close>: the buckets that exist, the objects of each (key to bytes and
  read permission), the key pairs it accepts, which transfers succeed and whether it
  is reachable. \<open>list_files\<close> is the generator \<^verbatim>\<open>_list_files\<close> over the local
  tree, \<open>upload\<close> the method \<^verbatim>\<open>upload\<close>: one object per enumerated file under the
  key \<^verbatim>\<open>project/dataset/timestamp\<close> followed by the file's path below the uploaded
  path, each made public, in enumeration order, stopping at the first failure with
  the objects already sent left in the store.
\<close>

subsection \<open>The directory walk\<close>

text \<open>
  \<^verbatim>\<open>_list_files(directory)\<close> (storage_s3.py:25-36). The node is what \<^verbatim>\<open>directory\<close>
  resolves to: a regular file yields the path itself; anything else that is not a
  directory makes \<^verbatim>\<open>os.listdir\<close> raise; a directory yields, entry by entry in listing
  order, \<^verbatim>\<open>directory + '/' + f\<close> for a regular file, the walk of a subdirectory, and
  nothing for a special entry. The generator is lazy, but an error can only arise
  at its first step, before anything is uploaded, so the list of its results is an
  exact model of what the upload loop consumes.
\<close>

definition append_exc :: "error + 'a list \<Rightarrow> error + 'a list \<Rightarrow> error + 'a list" where
  "append_exc a b = (case a of Inl e \<Rightarrow> Inl e | Inr xs \<Rightarrow> (case b of Inl e \<Rightarrow> Inl e | Inr ys \<Rightarrow> Inr (xs @ ys)))"

lemma append_exc_Inr [simp]: "append_exc (Inr xs) (Inr ys) = Inr (xs @ ys)"
  by (simp add: append_exc_def)

fun list_files :: "path \<Rightarrow> fsnode \<Rightarrow> error + path list"
  and list_dir :: "path \<Rightarrow> (string \<times> fsnode) list \<Rightarrow> error + path list" where
  "list_files d (RegFile c) = Inr [d]"
| "list_files d Special = Inl OSError"
| "list_files d (Directory es) = list_dir d es"
| "list_dir d [] = Inr []"
| "list_dir d ((f, n) # es) =
     (let name = d @ ''/'' @ f in
      append_exc (case n of RegFile _ \<Rightarrow> Inr [name] | Directory _ \<Rightarrow> list_files name n | Special \<Rightarrow> Inr [])
        (list_dir d es))"

definition file_comps :: "fsnode \<Rightarrow> string list set" where
  "file_comps n = {cs. \<exists>c. resolve n cs = Some (RegFile c)}"

lemma list_files_Inr: "n \<noteq> Special \<Longrightarrow> \<exists>fs. list_files d n = Inr fs"
  and list_dir_Inr: "\<exists>fs. list_dir d es = Inr fs"
proof (induction d n and d es rule: list_files_list_dir.induct)
  case (5 d f n es)
  obtain ys where ys: "list_dir d es = Inr ys"
    using "5.IH"(2) by blast
  show ?case
  proof (cases n)
    case (Directory es')
    then obtain xs where "list_files (d @ ''/'' @ f) n = Inr xs"
      using "5.IH"(1) by auto
    with Directory ys show ?thesis by simp
  qed (simp_all add: ys)
qed auto

lemma file_comps_RegFile: "file_comps (RegFile c) = {[]}"
  by (auto simp: file_comps_def elim: resolve.elims)

lemma file_comps_Special: "file_comps Special = {}"
  by (auto simp: file_comps_def elim: resolve.elims)

lemma file_comps_Directory:
  "file_comps (Directory es) = {f # cs |f cs. \<exists>n. map_of es f = Some n \<and> cs \<in> file_comps n}"
proof (rule set_eqI)
  fix xs
  show "xs \<in> file_comps (Directory es) \<longleftrightarrow>
        xs \<in> {f # cs |f cs. \<exists>n. map_of es f = Some n \<and> cs \<in> file_comps n}"
    by (cases xs) (auto simp: file_comps_def split: option.splits)
qed

lemma file_comps_Cons:
  "f \<notin> fst ` set es \<Longrightarrow>
   file_comps (Directory ((f, n) # es)) = Cons f ` file_comps n \<union> file_comps (Directory es)"
proof (rule set_eqI)
  fix xs
  assume f: "f \<notin> fst ` set es"
  show "xs \<in> file_comps (Directory ((f, n) # es)) \<longleftrightarrow>
        xs \<in> Cons f ` file_comps n \<union> file_comps (Directory es)"
  proof (cases xs)
    case (Cons g cs)
    show ?thesis
    proof (cases "g = f")
      case True
      with f have "map_of es g = None" by (simp add: map_of_eq_None_iff)
      with Cons True show ?thesis by (auto simp: file_comps_Directory)
    qed (auto simp: Cons file_comps_Directory)
  qed (auto simp: file_comps_Directory)
qed

lemma takeWhile_slash_path: "takeWhile (\<lambda>c. c \<noteq> CHR ''/'') (slash_path cs) = []"
  by (cases cs) (simp_all add: slash_path_def)

lemma slash_path_head_eq:
  assumes "CHR ''/'' \<notin> set f" and "CHR ''/'' \<notin> set g"
    and "f @ slash_path cs = g @ slash_path cs'"
  shows "f = g"
proof -
  have "takeWhile (\<lambda>c. c \<noteq> CHR ''/'') (f @ slash_path cs)
      = takeWhile (\<lambda>c. c \<noteq> CHR ''/'') (g @ slash_path cs')"
    using assms(3) by simp
  moreover have "takeWhile (\<lambda>c. c \<noteq> CHR ''/'') (x @ slash_path ds) = x"
    if "CHR ''/'' \<notin> set x" for x ds
    using that by (subst takeWhile_append2) (auto simp: takeWhile_slash_path)
  ultimately show ?thesis using assms(1,2) by simp
qed

lemma child_files:
  "(case n of RegFile _ \<Rightarrow> Inr [d @ CHR ''/'' # f] | Directory _ \<Rightarrow> list_files (d @ CHR ''/'' # f) n
    | Special \<Rightarrow> Inr []) = Inr xs \<Longrightarrow>
   (\<And>es' ys. n = Directory es' \<Longrightarrow> list_files (d @ CHR ''/'' # f) n = Inr ys \<Longrightarrow>
      set ys = (\<lambda>cs. (d @ CHR ''/'' # f) @ slash_path cs) ` file_comps n \<and> distinct ys) \<Longrightarrow>
   set xs = (\<lambda>cs. d @ slash_path cs) ` Cons f ` file_comps n \<and> distinct xs"
  by (cases n) (auto simp: file_comps_RegFile file_comps_Special slash_path_def image_image)

lemma list_files_set:
  "wf_fs n \<Longrightarrow> list_files d n = Inr fs \<Longrightarrow>
     set fs = (\<lambda>cs. d @ slash_path cs) ` file_comps n \<and> distinct fs"
  and list_dir_set:
  "wf_fs (Directory es) \<Longrightarrow> list_dir d es = Inr fs \<Longrightarrow>
     set fs = (\<lambda>cs. d @ slash_path cs) ` file_comps (Directory es) \<and> distinct fs"
proof (induction d n and d es arbitrary: fs and fs rule: list_files_list_dir.induct)
  case (5 d f n es)
  obtain ys where ys: "list_dir d es = Inr ys"
    using list_dir_Inr by blast
  obtain xs where xs: "(case n of RegFile _ \<Rightarrow> Inr [d @ CHR ''/'' # f]
      | Directory _ \<Rightarrow> list_files (d @ CHR ''/'' # f) n | Special \<Rightarrow> Inr []) = Inr xs"
    using list_files_Inr [of n "d @ CHR ''/'' # f"] by (cases n) auto
  from "5.prems"(2) xs ys have fs: "fs = xs @ ys" by simp
  from "5.prems"(1) have wf: "wf_fs n" "wf_fs (Directory es)" "f \<notin> fst ` set es"
    "f \<noteq> []" "CHR ''/'' \<notin> set f" and wfs: "wf_entries es"
    by auto
  have IH1: "set zs = (\<lambda>cs. (d @ CHR ''/'' # f) @ slash_path cs) ` file_comps n \<and> distinct zs"
    if "n = Directory es'" and "list_files (d @ CHR ''/'' # f) n = Inr zs" for es' zs
    using "5.IH"(1) [OF refl that(1) wf(1)] that(2) by simp
  have X: "set xs = (\<lambda>cs. d @ slash_path cs) ` Cons f ` file_comps n \<and> distinct xs"
    using xs IH1 by (rule child_files)
  have Y: "set ys = (\<lambda>cs. d @ slash_path cs) ` file_comps (Directory es) \<and> distinct ys"
    using "5.IH"(2) [OF refl wf(2) ys] .
  have "set xs \<inter> set ys = {}"
  proof -
    { fix cs g cs'
      assume "map_of es g \<noteq> None" and eq: "d @ slash_path (f # cs) = d @ slash_path (g # cs')"
      from \<open>map_of es g \<noteq> None\<close> have g: "g \<in> fst ` set es" by (simp add: map_of_eq_None_iff)
      with wfs have "CHR ''/'' \<notin> set g"
        by (auto simp: wf_entries_iff)
      with eq wf(5) have "f = g"
        by (intro slash_path_head_eq [of f g cs cs']) (simp_all add: slash_path_def)
      with g wf(3) have False by simp }
    with X Y show ?thesis
      by (fastforce simp: file_comps_Directory)
  qed
  with X Y fs wf(3) show ?case
    by (auto simp: file_comps_Cons image_Un)
qed (auto simp: file_comps_RegFile file_comps_Special file_comps_Directory slash_path_def)


definition list_files_at :: "fsnode \<Rightarrow> path \<Rightarrow> error + path list" where
  "list_files_at fs d = (case os_lookup fs d of None \<Rightarrow> Inl OSError | Some n \<Rightarrow> list_files d n)"

subsection \<open>The object store and the connection\<close>

record s3_object =
  obj_data :: string
  obj_public :: bool

record s3_service =
  s3_buckets :: "string list"
  s3_objects :: "((string \<times> key) \<times> s3_object) list"
  s3_auth :: "string \<Rightarrow> string \<Rightarrow> bool"
  s3_put_ok :: "key \<Rightarrow> bool"
  s3_online :: bool

text \<open>A \<^verbatim>\<open>StorageS3\<close> object: the constructor's keyword arguments.\<close>

record storage =
  secret_key :: "string option"
  access_key :: "string option"
  bucketname :: string

text \<open>
  \<^verbatim>\<open>StorageS3(**aws_cred)\<close> (storage_s3.py:12-23): an unknown keyword is a
  \<^verbatim>\<open>TypeError\<close>; the bucket defaults to \<^verbatim>\<open>librarian_upload_test\<close>. boto builds no
  authentication handler without a key pair, which the \<^verbatim>\<open>except\<close> turns into
  \<^verbatim>\<open>'Invalid S3 credentials'\<close>; the connection itself sends nothing, so wrong keys are
  only noticed by the first request.
\<close>

definition storage_init :: "(string \<times> string) list \<Rightarrow> error + storage" where
  "storage_init kw =
     (if \<not> list_all (\<lambda>k. k \<in> set [''secret_access_key'', ''access_key_id'', ''bucket'']) (map fst kw)
      then Inl TypeError
      else
        (let sk = map_of kw ''secret_access_key''; ak = map_of kw ''access_key_id'';
             b = (case map_of kw ''bucket'' of Some b \<Rightarrow> b | None \<Rightarrow> ''librarian_upload_test'')
         in if sk = None \<or> ak = None then Inl InvalidS3Credentials
            else Inr \<lparr>secret_key = sk, access_key = ak, bucketname = b\<rparr>))"

text \<open>\<^verbatim>\<open>self.conn.get_bucket(self.bucketname)\<close>: a request that checks the keys and the bucket.\<close>

definition get_bucket :: "storage \<Rightarrow> s3_service \<Rightarrow> error + unit" where
  "get_bucket st s =
     (if \<not> s3_online s then Inl IOError
      else case (access_key st, secret_key st) of
        (Some a, Some k) \<Rightarrow>
          if s3_auth s a k \<and> bucketname st \<in> set (s3_buckets s) then Inr () else Inl S3ResponseError
      | _ \<Rightarrow> Inl S3ResponseError)"

text \<open>
  \<^verbatim>\<open>key.generate_url(expires_in=0, query_auth=False)\<close> with the ordinary calling
  format: the endpoint, the bucket, and the key quoted by \<^verbatim>\<open>urllib.quote\<close>.
\<close>

definition generate_url :: "string \<Rightarrow> key \<Rightarrow> url" where
  "generate_url b k = ''https://s3.amazonaws.com/'' @ b @ ''/'' @ url_quote k"

text \<open>\<^verbatim>\<open>key.set_contents_from_filename(f)\<close> stores a private object; \<^verbatim>\<open>key.set_acl('public-read')\<close> opens it.\<close>

definition set_contents :: "string \<Rightarrow> key \<Rightarrow> string \<Rightarrow> s3_service \<Rightarrow> s3_service" where
  "set_contents b k d s =
     s\<lparr>s3_objects := upd_alist (b, k) \<lparr>obj_data = d, obj_public = False\<rparr> (s3_objects s)\<rparr>"

definition set_acl_public :: "string \<Rightarrow> key \<Rightarrow> s3_service \<Rightarrow> s3_service" where
  "set_acl_public b k s =
     s\<lparr>s3_objects := map (\<lambda>(bk, ob). (bk, if bk = (b, k) then ob\<lparr>obj_public := True\<rparr> else ob))
                        (s3_objects s)\<rparr>"

subsection \<open>upload\<close>

text \<open>
  The loop of \<^verbatim>\<open>upload\<close> (storage_s3.py:52-58): the key is the store directory
  followed by \<^verbatim>\<open>f[len(local_path):]\<close>; opening the file may fail, the transfer may be
  refused (\<open>s3_put_ok\<close>); the checksum is the empty placeholder of the TODO. One
  predicate decides both service calls of an iteration, the PUT of line 54 and the
  \<^verbatim>\<open>set_acl\<close> of line 55: a PUT that is stored and then refused its ACL, which
  leaves a private object, is not represented (see the header).
\<close>

fun upload_files :: "storage \<Rightarrow> fsnode \<Rightarrow> path \<Rightarrow> string \<Rightarrow> path list \<Rightarrow> url list \<times> string list
    \<Rightarrow> (s3_service, url list \<times> string list) exc" where
  "upload_files st fs lp sd [] acc s = (s, Inr acc)"
| "upload_files st fs lp sd (f # files) (urls, checksums) s =
     (let k = sd @ drop (length lp) f in
      case read_file fs f of
        None \<Rightarrow> (s, Inl IOError)
      | Some d \<Rightarrow>
          if s3_put_ok s k then
            upload_files st fs lp sd files (urls @ [generate_url (bucketname st) k], checksums @ [[]])
              (set_acl_public (bucketname st) k (set_contents (bucketname st) k d s))
          else (s, Inl S3ResponseError))"

text \<open>\<^verbatim>\<open>upload(local_path, project, dataset, timestamp)\<close> (storage_s3.py:39-60).\<close>

definition upload :: "storage \<Rightarrow> fsnode \<Rightarrow> path \<Rightarrow> string \<Rightarrow> string \<Rightarrow> string
    \<Rightarrow> (s3_service, url list \<times> string list) exc" where
  "upload st fs local_path project dataset timestamp s =
     (case get_bucket st s of
        Inl e \<Rightarrow> (s, Inl e)
      | Inr _ \<Rightarrow>
          (let store_dir = py_join ''/'' [project, dataset, timestamp] in
           case list_files_at fs local_path of
             Inl e \<Rightarrow> (s, Inl e)
           | Inr files \<Rightarrow> upload_files st fs local_path store_dir files ([], []) s))"

subsection \<open>What an upload leaves in the store\<close>

lemma map_of_set_acl_public:
  "map_of (s3_objects (set_acl_public b k s)) bk =
     (if bk = (b, k) then map_option (\<lambda>ob. ob\<lparr>obj_public := True\<rparr>) (map_of (s3_objects s) bk)
      else map_of (s3_objects s) bk)"
proof -
  have "map_of (map (\<lambda>(bk, ob). (bk, if bk = (b, k) then ob\<lparr>obj_public := True\<rparr> else ob)) xs) bk =
     (if bk = (b, k) then map_option (\<lambda>ob. ob\<lparr>obj_public := True\<rparr>) (map_of xs bk) else map_of xs bk)"
    for xs :: "((string \<times> key) \<times> s3_object) list"
    by (induction xs) auto
  then show ?thesis by (simp add: set_acl_public_def)
qed

text \<open>A file sent and opened: its key maps to its bytes, readable by anyone.\<close>

lemma put_public:
  "map_of (s3_objects (set_acl_public b k (set_contents b k d s))) bk =
     ((map_of (s3_objects s))((b, k) \<mapsto> \<lparr>obj_data = d, obj_public = True\<rparr>)) bk"
  by (simp add: map_of_set_acl_public) (simp add: set_contents_def)

lemma put_public_frame [simp]:
  "s3_buckets (set_acl_public b k (set_contents b k d s)) = s3_buckets s"
  "s3_auth (set_acl_public b k (set_contents b k d s)) = s3_auth s"
  "s3_put_ok (set_acl_public b k (set_contents b k d s)) = s3_put_ok s"
  "s3_online (set_acl_public b k (set_contents b k d s)) = s3_online s"
  by (simp_all add: set_acl_public_def set_contents_def)

text \<open>One step of the upload loop: it fails with nothing sent, or it sends the file and goes on.\<close>

lemma upload_files_ConsE:
  assumes "upload_files st fs lp sd (f # files) (us, cs) s = (s', r)"
  obtains (failed) "s' = s" and "r = Inl IOError \<or> r = Inl S3ResponseError"
  | (sent) d where "read_file fs f = Some d" and "s3_put_ok s (sd @ drop (length lp) f)"
    and "upload_files st fs lp sd files
           (us @ [generate_url (bucketname st) (sd @ drop (length lp) f)], cs @ [[]])
           (set_acl_public (bucketname st) (sd @ drop (length lp) f)
              (set_contents (bucketname st) (sd @ drop (length lp) f) d s)) = (s', r)"
proof (cases "read_file fs f")
  case None
  then have u: "upload_files st fs lp sd (f # files) (us, cs) s = (s, Inl IOError)"
    by (simp add: Let_def)
  from exc_result_eq [OF trans [OF u [symmetric] assms]] show ?thesis by (intro failed) simp_all
next
  case (Some d)
  show ?thesis
  proof (cases "s3_put_ok s (sd @ drop (length lp) f)")
    case True
    with Some assms show ?thesis by (intro sent [of d]) (simp_all add: Let_def)
  next
    case False
    with Some have u: "upload_files st fs lp sd (f # files) (us, cs) s = (s, Inl S3ResponseError)"
      by (simp add: Let_def)
    from exc_result_eq [OF trans [OF u [symmetric] assms]] show ?thesis by (intro failed) simp_all
  qed
qed

lemma upload_files_frame:
  "upload_files st fs lp sd files acc s = (s', r) \<Longrightarrow>
   s3_buckets s' = s3_buckets s \<and> s3_auth s' = s3_auth s \<and> s3_put_ok s' = s3_put_ok s
   \<and> s3_online s' = s3_online s"
proof (induction files arbitrary: acc s)
  case (Cons f files)
  obtain urls checksums where acc: "acc = (urls, checksums)" by fastforce
  from Cons.prems [unfolded acc] show ?case
  proof (cases rule: upload_files_ConsE)
    case (sent d)
    from Cons.IH [OF sent(3)] show ?thesis by simp
  qed simp
next
  case Nil
  then have "s' = s" by (simp only: upload_files.simps prod.inject)
  then show ?case by simp
qed

lemma upload_files_Inr:
  assumes "upload_files st fs lp sd files (us0, cs0) s = (s', Inr (us, cs))"
  shows "us = us0 @ map (\<lambda>f. generate_url (bucketname st) (sd @ drop (length lp) f)) files
    \<and> cs = cs0 @ replicate (length files) []
    \<and> (\<forall>f \<in> set files. read_file fs f \<noteq> None \<and> s3_put_ok s (sd @ drop (length lp) f))"
  using assms
proof (induction files arbitrary: us0 cs0 s)
  case (Cons f files)
  let ?k = "sd @ drop (length lp) f"
  obtain d where rd: "read_file fs f = Some d"
    using Cons.prems by (cases "read_file fs f") (simp_all add: Let_def)
  have ok: "s3_put_ok s ?k"
    using Cons.prems rd by (cases "s3_put_ok s ?k") (simp_all add: Let_def)
  have rec: "upload_files st fs lp sd files (us0 @ [generate_url (bucketname st) ?k], cs0 @ [[]])
                (set_acl_public (bucketname st) ?k (set_contents (bucketname st) ?k d s))
              = (s', Inr (us, cs))"
    using Cons.prems rd ok by (simp add: Let_def)
  note IH = Cons.IH [OF rec]
  have A: "us = us0 @ map (\<lambda>f. generate_url (bucketname st) (sd @ drop (length lp) f)) (f # files)"
    using IH by simp
  have B: "cs = cs0 @ replicate (length (f # files)) []"
    using IH by simp
  have C: "\<forall>g \<in> set files. read_file fs g \<noteq> None \<and> s3_put_ok s (sd @ drop (length lp) g)"
    using conjunct2 [OF conjunct2 [OF IH]] by simp
  have D: "read_file fs f \<noteq> None \<and> s3_put_ok s (sd @ drop (length lp) f)"
    using rd ok by simp
  show ?case using A B C D by (simp only: ball_simps set_simps) blast
next
  case Nil
  then have "us = us0 \<and> cs = cs0" by (simp only: upload_files.simps prod.inject sum.inject)
  then show ?case by simp
qed

subsection \<open>Reading a URL back\<close>

text \<open>
  \<^verbatim>\<open>urllib.urlretrieve(url, filename)\<close> (dbconn.py:137) against the store: the
  URL of an object opened to the public gives its bytes. Python 2's \<^verbatim>\<open>urllib\<close> does
  not raise on an HTTP error status: for a missing or private object it saves the
  body of S3's error reply, the XML documents below. Only a failed connection is an
  \<^verbatim>\<open>IOError\<close>.
\<close>

definition no_such_key_doc :: string where
  "no_such_key_doc = ''<?xml version=\"1.0\" encoding=\"UTF-8\"?><Error><Code>NoSuchKey</Code></Error>''"

definition access_denied_doc :: string where
  "access_denied_doc = ''<?xml version=\"1.0\" encoding=\"UTF-8\"?><Error><Code>AccessDenied</Code></Error>''"

definition http_get :: "s3_service \<Rightarrow> url \<Rightarrow> error + string" where
  "http_get s u =
     (if \<not> s3_online s then Inl IOError
      else Inr (case find (\<lambda>((b, k), ob). generate_url b k = u) (s3_objects s) of
                  None \<Rightarrow> no_such_key_doc
                | Some (_, ob) \<Rightarrow> if obj_public ob then obj_data ob else access_denied_doc))"

subsection \<open>The walk lists the regular files\<close>

lemma read_listed_file:
  "wf_fs fs \<Longrightarrow> os_lookup fs d = Some n \<Longrightarrow> resolve n cs = Some (RegFile c) \<Longrightarrow>
   read_file fs (d @ slash_path cs) = Some c"
  by (simp add: read_file_def os_lookup_below)

text \<open>
  C5. The walk started at an existing path of a well-formed tree lists, without
  repetition, exactly the paths of the regular files below it (the path followed by
  the slash-separated components leading to the file), and each of them can be read.
\<close>

theorem list_files_at_regular_files:
  assumes "wf_fs fs" and "os_lookup fs d = Some n" and "list_files_at fs d = Inr files"
  shows "set files = (\<lambda>cs. d @ slash_path cs) ` file_comps n \<and> distinct files
    \<and> (\<forall>f \<in> set files. read_file fs f \<noteq> None)"
proof -
  from assms(1,2) have wfn: "wf_fs n" using resolve_wf by (auto simp: os_lookup_def)
  from assms(2,3) have "list_files d n = Inr files" by (simp add: list_files_at_def)
  with wfn have S: "set files = (\<lambda>cs. d @ slash_path cs) ` file_comps n \<and> distinct files"
    by (rule list_files_set)
  have "read_file fs f \<noteq> None" if "f \<in> set files" for f
  proof -
    from that S obtain cs c where f: "f = d @ slash_path cs" and r: "resolve n cs = Some (RegFile c)"
      by (auto simp: file_comps_def)
    from read_listed_file [OF assms(1,2) r] f show ?thesis by simp
  qed
  with S show ?thesis by blast
qed

definition demo_tree :: fsnode where
  "demo_tree = Directory [(''data'', Directory [(''a.txt'', RegFile ''alpha''),
      (''sock'', Special), (''sub'', Directory [(''b.txt'', RegFile ''beta'')])])]"

definition demo_data :: fsnode where
  "demo_data = Directory [(''a.txt'', RegFile ''alpha''),
      (''sock'', Special), (''sub'', Directory [(''b.txt'', RegFile ''beta'')])]"

theorem list_files_at_regular_files_witness:
  "wf_fs demo_tree \<and> os_lookup demo_tree ''data'' = Some demo_data
   \<and> list_files_at demo_tree ''data'' = Inr [''data/a.txt'', ''data/sub/b.txt'']
   \<and> set [''data/a.txt'', ''data/sub/b.txt''] = (\<lambda>cs. ''data'' @ slash_path cs) ` file_comps demo_data"
proof -
  have h1: "wf_fs demo_tree" by (simp add: demo_tree_def)
  have h2: "os_lookup demo_tree ''data'' = Some demo_data"
    by (simp add: demo_tree_def demo_data_def os_lookup_def path_comps_def)
  have h3: "list_files_at demo_tree ''data'' = Inr [''data/a.txt'', ''data/sub/b.txt'']"
    by (simp add: list_files_at_def h2 demo_data_def)
  show ?thesis using list_files_at_regular_files [OF h1 h2 h3] h1 h2 h3 by simp
qed

subsection \<open>A successful upload\<close>

lemma upload_files_other:
  assumes "upload_files st fs lp sd files acc s = (s', r)"
    and "bk \<notin> (\<lambda>f. (bucketname st, sd @ drop (length lp) f)) ` set files"
  shows "map_of (s3_objects s') bk = map_of (s3_objects s) bk"
  using assms
proof (induction files arbitrary: acc s)
  case (Cons f files)
  obtain urls checksums where acc: "acc = (urls, checksums)" by fastforce
  let ?k = "sd @ drop (length lp) f"
  show ?case
  proof (cases "read_file fs f")
    case (Some d)
    show ?thesis
    proof (cases "s3_put_ok s ?k")
      case True
      with Some Cons.prems acc have "upload_files st fs lp sd files
          (urls @ [generate_url (bucketname st) ?k], checksums @ [[]])
          (set_acl_public (bucketname st) ?k (set_contents (bucketname st) ?k d s)) = (s', r)"
        by (simp add: Let_def)
      from Cons.IH [OF this] Cons.prems(2) show ?thesis by (simp add: put_public)
    qed (use Some Cons.prems acc in \<open>simp add: Let_def\<close>)
  qed (use Cons.prems acc in \<open>simp add: Let_def\<close>)
next
  case Nil
  then have "s' = s" by (simp only: upload_files.simps prod.inject)
  then show ?case by simp
qed

lemma upload_files_stored:
  assumes "upload_files st fs lp sd files (us0, cs0) s = (s', Inr acc)"
    and "distinct (map (\<lambda>f. sd @ drop (length lp) f) files)"
    and "f \<in> set files" and "read_file fs f = Some d"
  shows "map_of (s3_objects s') (bucketname st, sd @ drop (length lp) f)
           = Some \<lparr>obj_data = d, obj_public = True\<rparr>"
  using assms
proof (induction files arbitrary: us0 cs0 s)
  case (Cons g files)
  let ?k = "sd @ drop (length lp) g"
  obtain dg where rd: "read_file fs g = Some dg"
    using Cons.prems(1) by (cases "read_file fs g") (simp_all add: Let_def)
  have ok: "s3_put_ok s ?k"
    using Cons.prems(1) rd by (cases "s3_put_ok s ?k") (simp_all add: Let_def)
  have rec: "upload_files st fs lp sd files (us0 @ [generate_url (bucketname st) ?k], cs0 @ [[]])
                (set_acl_public (bucketname st) ?k (set_contents (bucketname st) ?k dg s))
              = (s', Inr acc)"
    using Cons.prems(1) rd ok by (simp add: Let_def)
  show ?case
  proof (cases "f = g")
    case True
    with Cons.prems(2) have "(bucketname st, sd @ drop (length lp) f)
        \<notin> (\<lambda>f. (bucketname st, sd @ drop (length lp) f)) ` set files"
      by auto
    from upload_files_other [OF rec this] True rd Cons.prems(4) show ?thesis
      by (simp add: put_public)
  next
    case False
    with Cons.prems(2,3) have "distinct (map (\<lambda>f. sd @ drop (length lp) f) files)" "f \<in> set files"
      by auto
    from Cons.IH [OF rec this Cons.prems(4)] show ?thesis .
  qed
qed simp

lemma upload_Inr_cases:
  assumes "upload st fs lp p ds ts s = (s', Inr acc)"
  obtains files where "get_bucket st s = Inr ()" and "list_files_at fs lp = Inr files"
    and "upload_files st fs lp (py_join ''/'' [p, ds, ts]) files ([], []) s = (s', Inr acc)"
  using assms by (auto simp: upload_def split: sum.splits)

lemma distinct_upload_keys:
  assumes "distinct files" and "\<forall>f \<in> set files. take (length lp) f = lp"
  shows "distinct (map (\<lambda>f. sd @ drop (length lp) f) files)"
proof -
  have "inj_on (\<lambda>f. sd @ drop (length lp) f) (set files)"
  proof (rule inj_onI)
    fix f g assume "f \<in> set files" "g \<in> set files" "sd @ drop (length lp) f = sd @ drop (length lp) g"
    with assms(2) show "f = g" by (metis append_take_drop_id same_append_eq)
  qed
  with assms(1) show ?thesis by (simp add: distinct_map)
qed

text \<open>
  C4. A successful upload of an existing path of a well-formed tree stores every
  regular file below the path, readable by anyone, under the key
  \<^verbatim>\<open>project/dataset/timestamp\<close> followed by the file's path below the uploaded path
  (the nesting of directories is kept in the key); it returns one URL per such key
  and as many (empty) checksums as URLs.
\<close>

theorem upload_stores_files:
  assumes wf: "wf_fs fs" and at: "os_lookup fs lp = Some n"
    and up: "upload st fs lp p ds ts s = (s', Inr (urls, cks))"
  shows "(\<forall>cs c. resolve n cs = Some (RegFile c) \<longrightarrow>
            map_of (s3_objects s') (bucketname st, py_join ''/'' [p, ds, ts] @ slash_path cs)
              = Some \<lparr>obj_data = c, obj_public = True\<rparr>)
    \<and> set urls = (\<lambda>cs. generate_url (bucketname st) (py_join ''/'' [p, ds, ts] @ slash_path cs))
                   ` file_comps n
    \<and> cks = replicate (length urls) []"
proof -
  let ?sd = "py_join ''/'' [p, ds, ts]"
  obtain files where lf: "list_files_at fs lp = Inr files"
    and uf: "upload_files st fs lp ?sd files ([], []) s = (s', Inr (urls, cks))"
    using up by (rule upload_Inr_cases)
  from wf at have "wf_fs n" using resolve_wf by (auto simp: os_lookup_def)
  moreover from lf at have "list_files lp n = Inr files" by (simp add: list_files_at_def)
  ultimately have S: "set files = (\<lambda>cs. lp @ slash_path cs) ` file_comps n" and D: "distinct files"
    using list_files_set by blast+
  have keys: "distinct (map (\<lambda>f. ?sd @ drop (length lp) f) files)"
    using D S by (intro distinct_upload_keys) auto
  have stored: "map_of (s3_objects s') (bucketname st, ?sd @ slash_path cs) = Some \<lparr>obj_data = c, obj_public = True\<rparr>"
    if r: "resolve n cs = Some (RegFile c)" for cs c
  proof -
    have mem: "lp @ slash_path cs \<in> set files" using S r by (auto simp: file_comps_def)
    have "read_file fs (lp @ slash_path cs) = Some c" using wf at r by (rule read_listed_file)
    from upload_files_stored [OF uf keys mem this] show ?thesis by simp
  qed
  from upload_files_Inr [OF uf] have
    U: "urls = map (\<lambda>f. generate_url (bucketname st) (?sd @ drop (length lp) f)) files"
    and C: "cks = replicate (length files) []"
    by simp_all
  have "set urls = (\<lambda>cs. generate_url (bucketname st) (?sd @ slash_path cs)) ` file_comps n"
    unfolding U by (simp add: S image_image)
  with stored C U show ?thesis by simp
qed

subsection \<open>Concrete runs\<close>

declare upload_def [model_simps] get_bucket_def [model_simps] list_files_at_def [model_simps]
  os_lookup_def [model_simps] path_comps_def [model_simps] read_file_def [model_simps]
  generate_url_def [model_simps] url_quote_def [model_simps] quote_char_def [model_simps]
  quote_safe_def [model_simps] always_safe_def [model_simps] set_contents_def [model_simps]
  set_acl_public_def [model_simps]

definition demo_svc :: s3_service where
  "demo_svc = \<lparr>s3_buckets = [''librarian_upload_test''], s3_objects = [],
     s3_auth = (\<lambda>a k. a = ''AKID'' \<and> k = ''SECRET''), s3_put_ok = (\<lambda>k. True), s3_online = True\<rparr>"

definition demo_storage :: storage where
  "demo_storage = \<lparr>secret_key = Some ''SECRET'', access_key = Some ''AKID'',
     bucketname = ''librarian_upload_test''\<rparr>"

theorem upload_stores_files_witness:
  "wf_fs demo_tree \<and> os_lookup demo_tree ''data'' = Some demo_data
   \<and> snd (upload demo_storage demo_tree ''data'' ''proj'' ''ds'' ''ds-x'' demo_svc)
       = Inr ([''https://s3.amazonaws.com/librarian_upload_test/proj/ds/ds-x/a.txt'',
               ''https://s3.amazonaws.com/librarian_upload_test/proj/ds/ds-x/sub/b.txt''], [[], []])
   \<and> map_of (s3_objects (fst (upload demo_storage demo_tree ''data'' ''proj'' ''ds'' ''ds-x'' demo_svc)))
       (''librarian_upload_test'', ''proj/ds/ds-x'' @ slash_path [''sub'', ''b.txt''])
       = Some \<lparr>obj_data = ''beta'', obj_public = True\<rparr>"
proof -
  let ?u = "upload demo_storage demo_tree ''data'' ''proj'' ''ds'' ''ds-x'' demo_svc"
  let ?urls = "[''https://s3.amazonaws.com/librarian_upload_test/proj/ds/ds-x/a.txt'',
               ''https://s3.amazonaws.com/librarian_upload_test/proj/ds/ds-x/sub/b.txt'']"
  have h1: "wf_fs demo_tree" by (simp add: demo_tree_def)
  have h2: "os_lookup demo_tree ''data'' = Some demo_data"
    by (simp add: demo_tree_def demo_data_def os_lookup_def path_comps_def)
  have e: "snd ?u = Inr (?urls, [[], []])"
    by (simp add: model_simps demo_tree_def demo_svc_def demo_storage_def)
  then have h3: "?u = (fst ?u, Inr (?urls, [[], []]))" by (metis prod.collapse)
  have r: "resolve demo_data [''sub'', ''b.txt''] = Some (RegFile ''beta'')"
    by (simp add: demo_data_def)
  from upload_stores_files [OF h1 h2 h3] r have
    "map_of (s3_objects (fst ?u)) (bucketname demo_storage,
        py_join ''/'' [''proj'', ''ds'', ''ds-x''] @ slash_path [''sub'', ''b.txt''])
      = Some \<lparr>obj_data = ''beta'', obj_public = True\<rparr>"
    by blast
  with h1 h2 e show ?thesis by (simp add: demo_storage_def)
qed

subsection \<open>Object URLs have no whitespace\<close>

text \<open>An object URL is non-empty and, for a bucket name without whitespace, has none.\<close>

lemma generate_url_no_space:
  "\<forall>c \<in> set b. \<not> is_space c \<Longrightarrow> generate_url b k \<noteq> [] \<and> (\<forall>c \<in> set (generate_url b k). \<not> is_space c)"
proof -
  assume b: "\<forall>c \<in> set b. \<not> is_space c"
  have p: "\<forall>c \<in> set (''https://s3.amazonaws.com/'' @ b @ ''/''). \<not> is_space c"
    using b by (simp add: is_space_def)
  have q: "\<forall>c \<in> set (url_quote k). \<not> is_space c" using url_quote_no_space by blast
  have g: "generate_url b k = (''https://s3.amazonaws.com/'' @ b @ ''/'') @ url_quote k"
    by (simp add: generate_url_def)
  show ?thesis unfolding g using p q by (simp only: set_append ball_Un) simp
qed

subsection \<open>Publishing a single file\<close>

text \<open>
  C21. When the uploaded path is a regular file, \<^verbatim>\<open>f[len(local_path):]\<close> is empty:
  the file is stored under the bare store directory \<^verbatim>\<open>project/dataset/timestamp\<close>,
  without its name, and its one URL ends with the timestamp, which is therefore
  the name \<^verbatim>\<open>fetch\<close> gives the downloaded file.
\<close>

theorem single_file_key:
  assumes "os_lookup fs lp = Some (RegFile c)"
    and "upload st fs lp p ds ts s = (s', Inr (urls, cks))"
  shows "urls = [generate_url (bucketname st) (py_join ''/'' [p, ds, ts])]
    \<and> map_of (s3_objects s') (bucketname st, py_join ''/'' [p, ds, ts])
        = Some \<lparr>obj_data = c, obj_public = True\<rparr>"
proof -
  let ?sd = "py_join ''/'' [p, ds, ts]" and ?b = "bucketname st"
  have lf: "list_files_at fs lp = Inr [lp]" using assms(1) by (simp add: list_files_at_def)
  have rd: "read_file fs lp = Some c" using assms(1) by (simp add: read_file_def)
  have gb: "get_bucket st s = Inr ()"
    using assms(2) by (cases "get_bucket st s") (auto simp: upload_def)
  from assms(2) gb lf have uf: "upload_files st fs lp ?sd [lp] ([], []) s = (s', Inr (urls, cks))"
    by (simp add: upload_def)
  have ok: "s3_put_ok s ?sd"
    using uf rd by (cases "s3_put_ok s ?sd") (simp_all add: Let_def)
  with uf rd have "(set_acl_public ?b ?sd (set_contents ?b ?sd c s), Inr ([generate_url ?b ?sd], [[]]))
      = (s', Inr (urls, cks))"
    by (simp add: Let_def)
  then have "s' = set_acl_public ?b ?sd (set_contents ?b ?sd c s)" and "urls = [generate_url ?b ?sd]"
    by (simp_all only: prod.inject sum.inject)
  then show ?thesis by (simp add: put_public)
qed

theorem single_file_key_witness:
  "snd (upload demo_storage demo_tree ''data/a.txt'' ''proj'' ''ds'' ''ds-x'' demo_svc)
     = Inr ([''https://s3.amazonaws.com/librarian_upload_test/proj/ds/ds-x''], [[]])
   \<and> map_of (s3_objects (fst (upload demo_storage demo_tree ''data/a.txt'' ''proj'' ''ds'' ''ds-x'' demo_svc)))
       (''librarian_upload_test'', ''proj/ds/ds-x'') = Some \<lparr>obj_data = ''alpha'', obj_public = True\<rparr>"
proof -
  let ?u = "upload demo_storage demo_tree ''data/a.txt'' ''proj'' ''ds'' ''ds-x'' demo_svc"
  have h1: "os_lookup demo_tree ''data/a.txt'' = Some (RegFile ''alpha'')"
    by (simp add: demo_tree_def os_lookup_def path_comps_def)
  have e: "snd ?u = Inr ([''https://s3.amazonaws.com/librarian_upload_test/proj/ds/ds-x''], [[]])"
    by (simp add: model_simps demo_tree_def demo_svc_def demo_storage_def Let_def)
  then have h2: "?u = (fst ?u, Inr ([''https://s3.amazonaws.com/librarian_upload_test/proj/ds/ds-x''], [[]]))"
    by (metis prod.collapse)
  from single_file_key [OF h1 h2] e show ?thesis by (simp add: demo_storage_def)
qed

subsection \<open>Uploading a flat directory\<close>

text \<open>
  A directory whose entries are all regular files: the walk lists them in order,
  and the upload returns one URL per entry, under the store directory and the
  entry's name, with the object stored public.
\<close>

lemma list_dir_flat:
  "\<forall>(f, nd) \<in> set des. \<exists>d. nd = RegFile d \<Longrightarrow>
     list_dir lp des = Inr (map (\<lambda>(f, nd). lp @ ''/'' @ f) des)"
  by (induction des) (auto simp: Let_def)


lemma url_base_generate_url:
  assumes "list_all quote_safe f" and "CHR ''/'' \<notin> set f"
  shows "url_base (generate_url b (k @ ''/'' @ f)) = f"
proof -
  have "generate_url b (k @ ''/'' @ f) = (''https://s3.amazonaws.com/'' @ b @ ''/'' @ url_quote k) @ CHR ''/'' # f"
    using url_quote_safe [OF assms(1)] by (simp add: generate_url_def)
  then show ?thesis
    by (simp only: url_base_append [OF assms(2)])
qed


lemma upload_flat:
  assumes wf: "wf_fs fs" and src: "os_lookup fs lp = Some (Directory des)"
    and flat: "\<forall>(f, nd) \<in> set des. \<exists>d. nd = RegFile d"
    and up: "upload st fs lp p ds ts s = (s', Inr (urls, cks))"
  shows "urls = map (\<lambda>(f, nd). generate_url (bucketname st) (py_join ''/'' [p, ds, ts] @ ''/'' @ f)) des
    \<and> (\<forall>f d. (f, RegFile d) \<in> set des \<longrightarrow>
          map_of (s3_objects s') (bucketname st, py_join ''/'' [p, ds, ts] @ ''/'' @ f)
            = Some \<lparr>obj_data = d, obj_public = True\<rparr>)"
proof -
  let ?sd = "py_join ''/'' [p, ds, ts]"
  obtain files where la: "list_files_at fs lp = Inr files"
    and uf: "upload_files st fs lp ?sd files ([], []) s = (s', Inr (urls, cks))"
    using up by (rule upload_Inr_cases)
  have files: "files = map (\<lambda>(f, nd). lp @ ''/'' @ f) des"
    using la src list_dir_flat [OF flat] by (simp add: list_files_at_def)
  have "wf_fs (Directory des)" using os_lookup_wf [OF wf src] .
  then have dn: "distinct (map fst des)" by simp
  have km: "map (\<lambda>f. ?sd @ drop (length lp) f) files = map (\<lambda>f. ?sd @ ''/'' @ f) (map fst des)"
    by (simp add: files split_def)
  have "inj_on (\<lambda>f. ?sd @ ''/'' @ f) (set (map fst des))" by (rule inj_onI) simp
  with dn have keys: "distinct (map (\<lambda>f. ?sd @ drop (length lp) f) files)"
    by (simp only: km distinct_map)
  have U: "urls = map (\<lambda>(f, nd). generate_url (bucketname st) (?sd @ ''/'' @ f)) des"
    using conjunct1 [OF upload_files_Inr [OF uf]] by (simp add: files split_def)
  have "map_of (s3_objects s') (bucketname st, ?sd @ ''/'' @ f) = Some \<lparr>obj_data = d, obj_public = True\<rparr>"
    if m: "(f, RegFile d) \<in> set des" for f d
  proof -
    have mem: "lp @ ''/'' @ f \<in> set files" using m by (force simp: files)
    have "resolve (Directory des) [f] = Some (RegFile d)"
      using m dn by simp
    from read_listed_file [OF wf src this] have "read_file fs (lp @ ''/'' @ f) = Some d"
      by (simp add: slash_path_def)
    from upload_files_stored [OF uf keys mem this] show ?thesis by simp
  qed
  with U show ?thesis by blast
qed

end
