(* ===== verification/DBConn.thy ===== *)
theory DBConn
  imports StorageS3 "HOL-Library.Multiset"
begin

text \<open>
  \<^verbatim>\<open>dbconn.py\<close>: the metadata ledger. The MySQL database \<^verbatim>\<open>librarian\<close> is the
  record \<open>ledger\<close>: the three tables of \<^verbatim>\<open>Schema\<close> as lists of rows in insertion
  order, and whether the server answers queries. A \<^verbatim>\<open>DBConn\<close> object is the record
  \<open>dbconn\<close> of its connection parameters. Each method is one definition that takes the
  ledger and returns it with the outcome: \<open>projectLs\<close>, \<open>ls\<close>, \<open>createProject\<close>,
  \<open>addInOrOut\<close> and \<open>fetch\<close>, which also writes into the local file system.

  Queries without \<^verbatim>\<open>ORDER BY\<close> are read in insertion order, the incoming table
  before the outgoing one as the \<^verbatim>\<open>union all\<close> lists them; an inner join is the
  nested loop over rows and engagements. \<^verbatim>\<open>AUTO_INCREMENT\<close> gives one more than the
  largest id of the table. Names are compared exactly (the server's collation is
  not modelled).
\<close>

type_synonym date = "nat \<times> nat \<times> nat"

definition date_of :: "datetime \<Rightarrow> date" where
  "date_of t = (dt_year t, dt_month t, dt_day t)"

text \<open>The tables of \<^verbatim>\<open>Schema\<close> (dbconn.py:21-29).\<close>

record engagement =
  eng_id :: nat
  eng_name :: string
  date_started :: date
  owner :: string
  eng_comments :: string

record data_row =
  row_id :: nat
  row_project :: nat
  row_name :: string
  row_version :: string
  row_timestamp :: datetime
  row_urls :: string
  row_checksums :: string
  row_metadata_url :: string
  row_comments :: string
  row_username :: string
  row_hostname :: string

record ledger =
  engagements :: "engagement list"
  incoming :: "data_row list"
  outgoing :: "data_row list"
  db_up :: bool

record dbconn =
  db_user :: string
  db_pswd :: string
  db_host :: string
  db_port :: int

text \<open>
  \<^verbatim>\<open>DBConn(user, password, host, port)\<close> (dbconn.py:34-43): \<^verbatim>\<open>int(port)\<close> is
  evaluated outside the \<^verbatim>\<open>try\<close>; a refused login is the \<^verbatim>\<open>except\<close>. \<open>accepts\<close> is
  the server's decision on a login (host, port, user, password).
\<close>

definition dbconn_init :: "(string \<Rightarrow> int \<Rightarrow> string \<Rightarrow> string \<Rightarrow> bool)
    \<Rightarrow> string \<Rightarrow> string \<Rightarrow> string \<Rightarrow> string \<Rightarrow> error + dbconn" where
  "dbconn_init accepts user password host port =
     (case py_int port of
        None \<Rightarrow> Inl ValueError
      | Some p \<Rightarrow>
          if accepts host p user password
          then Inr \<lparr>db_user = user, db_pswd = password, db_host = host, db_port = p\<rparr>
          else Inl InvalidDBCredentials)"

text \<open>\<^verbatim>\<open>projectLs\<close> (dbconn.py:45-53): the names of all engagements.\<close>

definition projectLs :: "ledger \<Rightarrow> error + string list" where
  "projectLs L = (if db_up L then Inr (map eng_name (engagements L)) else Inl DatabaseNotAvailable)"

text \<open>
  \<^verbatim>\<open>ls\<close> (dbconn.py:55-75): name, version and timestamp of every row of either
  table joined to an engagement of the given name.
\<close>

definition dataset_rows :: "data_row list \<Rightarrow> engagement list \<Rightarrow> string
    \<Rightarrow> (string \<times> string \<times> datetime) list" where
  "dataset_rows rows engs p =
     concat (map (\<lambda>r. concat (map (\<lambda>e.
        if row_project r = eng_id e \<and> eng_name e = p
        then [(row_name r, row_version r, row_timestamp r)] else []) engs)) rows)"

definition ls :: "ledger \<Rightarrow> string \<Rightarrow> error + (string \<times> string \<times> datetime) list" where
  "ls L p =
     (if db_up L
      then Inr (dataset_rows (incoming L) (engagements L) p @ dataset_rows (outgoing L) (engagements L) p)
      else Inl DatabaseNotAvailable)"

text \<open>
  \<^verbatim>\<open>Schema\<close> (dbconn.py:21-29): the columns of each table, the auto-increment
  \<^verbatim>\<open>id\<close> first, as the module-level dictionary lists them.
\<close>

definition Schema :: "(string \<times> string list) list" where
  "Schema =
     [(''Engagements'', [''id'', ''name'', ''date_started'', ''owner'', ''comments'']),
      (''IncomingData'', [''id'', ''project'', ''name'', ''version'', ''timestamp'',
         ''urls'', ''checksums'', ''metadata_url'', ''comments'', ''username'', ''hostname'']),
      (''OutgoingData'', [''id'', ''project'', ''name'', ''version'', ''timestamp'',
         ''urls'', ''checksums'', ''metadata_url'', ''comments'', ''username'', ''hostname''])]"

text \<open>
  \<^verbatim>\<open>_getTableSignature(table)\<close> (dbconn.py:77-81): the insert statement for the
  columns after \<^verbatim>\<open>id\<close>, one \<^verbatim>\<open>%s\<close> per column. \<open>execute_insert table n\<close> is
  \<^verbatim>\<open>c.execute(self._getTableSignature(table), record)\<close> for a record of \<open>n\<close> values, as
  far as it can fail before the server sees it: the formatting of the statement.
\<close>

definition getTableSignature :: "string \<Rightarrow> error + string" where
  "getTableSignature table =
     bind_sum (dict_get Schema table KeyError) (\<lambda>schema_cols.
       let cols = drop 1 schema_cols
       in Inr (''insert into '' @ table @ ''('' @ py_join '','' cols @ '') values ('' @
               py_join '','' (replicate (length cols) ''%s'') @ '')''))"

definition execute_insert :: "string \<Rightarrow> nat \<Rightarrow> error + unit" where
  "execute_insert table n = bind_sum (getTableSignature table) (\<lambda>q. py_format_args q n)"

lemma execute_insert_tables [simp]:
  "execute_insert ''Engagements'' 4 = Inr ()"
  "execute_insert ''IncomingData'' 10 = Inr ()"
  "execute_insert ''OutgoingData'' 10 = Inr ()"
  by (simp_all add: execute_insert_def getTableSignature_def Schema_def dict_get_def py_format_args_def)

lemma execute_insert_relation [simp]:
  "execute_insert (if b then ''IncomingData'' else ''OutgoingData'') 10 = Inr ()"
  by simp

definition next_id :: "nat list \<Rightarrow> nat" where
  "next_id ids = Suc (fold max ids 0)"

text \<open>
  \<^verbatim>\<open>createProject(project, comments)\<close> (dbconn.py:84-96): refused when the name is
  listed; otherwise one engagement dated today and owned by the connection's user,
  inserted by the statement for \<^verbatim>\<open>Engagements\<close> with the four values
  \<^verbatim>\<open>(project, date, owner, comments)\<close>.
\<close>

definition createProject :: "dbconn \<Rightarrow> date \<Rightarrow> string \<Rightarrow> string \<Rightarrow> (ledger, unit) exc" where
  "createProject c today project comments L =
     (case projectLs L of
        Inl e \<Rightarrow> (L, Inl e)
      | Inr names \<Rightarrow>
          if project \<in> set names then (L, Inl ProjectAlreadyExists)
          else (case execute_insert ''Engagements'' 4 of
                  Inl e \<Rightarrow> (L, Inl e)
                | Inr _ \<Rightarrow>
                   (L\<lparr>engagements := engagements L @
                      [\<lparr>eng_id = next_id (map eng_id (engagements L)), eng_name = project,
                        date_started = today, owner = db_user c, eng_comments = comments\<rparr>]\<rparr>,
                    Inr ())))"

text \<open>
  \<^verbatim>\<open>addInOrOut(...)\<close> (dbconn.py:98-119): refused unless the project is listed;
  the project id is the first engagement of that name (\<^verbatim>\<open>fetchone\<close>); one row is
  appended to the incoming or the outgoing table by the statement for that relation,
  formatted with the ten values of \<^verbatim>\<open>record\<close>.
\<close>

definition addInOrOut :: "string \<Rightarrow> string \<Rightarrow> string \<Rightarrow> datetime \<Rightarrow> string \<Rightarrow> string
    \<Rightarrow> string \<Rightarrow> string \<Rightarrow> string \<Rightarrow> string \<Rightarrow> bool \<Rightarrow> (ledger, unit) exc" where
  "addInOrOut project name version timestamp urls checksums metadata_url comments username hostname
      is_incoming L =
     (case projectLs L of
        Inl e \<Rightarrow> (L, Inl e)
      | Inr names \<Rightarrow>
          if project \<notin> set names then (L, Inl ProjectDoesNotExist)
          else
            (case find (\<lambda>e. eng_name e = project) (engagements L) of
               None \<Rightarrow> (L, Inl TypeError)
             | Some e \<Rightarrow>
                 (case execute_insert (if is_incoming then ''IncomingData'' else ''OutgoingData'') 10 of
                    Inl err \<Rightarrow> (L, Inl err)
                  | Inr _ \<Rightarrow>
                 let rows = (if is_incoming then incoming L else outgoing L);
                     row = \<lparr>row_id = next_id (map row_id rows), row_project = eng_id e,
                            row_name = name, row_version = version, row_timestamp = timestamp,
                            row_urls = urls, row_checksums = checksums,
                            row_metadata_url = metadata_url, row_comments = comments,
                            row_username = username, row_hostname = hostname\<rparr>
                 in (if is_incoming then L\<lparr>incoming := incoming L @ [row]\<rparr>
                     else L\<lparr>outgoing := outgoing L @ [row]\<rparr>, Inr ()))))"

text \<open>
  \<^verbatim>\<open>fetch(project, dataset, version, localpath)\<close> (dbconn.py:121-141): for every
  matching row of either table, and every URL of its \<^verbatim>\<open>urls\<close> column split at
  whitespace, the object is retrieved into \<^verbatim>\<open>localpath + url[url.rindex('/'):]\<close>.
  Any exception in the loop becomes \<^verbatim>\<open>'Database not available'\<close>; the files written
  before it stay.
\<close>

definition matching_urls :: "data_row list \<Rightarrow> engagement list \<Rightarrow> string \<Rightarrow> string \<Rightarrow> string
    \<Rightarrow> string list" where
  "matching_urls rows engs p ds v =
     concat (map (\<lambda>r. concat (map (\<lambda>e.
        if row_project r = eng_id e \<and> eng_name e = p \<and> row_name r = ds \<and> row_version r = v
        then [row_urls r] else []) engs)) rows)"

fun download_urls :: "s3_service \<Rightarrow> path \<Rightarrow> url list \<Rightarrow> (fsnode, unit) exc" where
  "download_urls s lp [] fs = (fs, Inr ())"
| "download_urls s lp (u # us) fs =
     (case py_rindex CHR ''/'' u of
        None \<Rightarrow> (fs, Inl ValueError)
      | Some ind \<Rightarrow>
          (case http_get s u of
             Inl e \<Rightarrow> (fs, Inl e)
           | Inr body \<Rightarrow>
               (case write_file fs (lp @ drop ind u) body of
                  None \<Rightarrow> (fs, Inl IOError)
                | Some fs' \<Rightarrow> download_urls s lp us fs')))"

definition fetch :: "s3_service \<Rightarrow> ledger \<Rightarrow> string \<Rightarrow> string \<Rightarrow> string \<Rightarrow> path
    \<Rightarrow> (fsnode, path) exc" where
  "fetch s L project dataset version localpath fs =
     (if \<not> db_up L then (fs, Inl DatabaseNotAvailable)
      else
        (let urls = matching_urls (incoming L) (engagements L) project dataset version
                  @ matching_urls (outgoing L) (engagements L) project dataset version
         in case download_urls s localpath (concat (map py_split urls)) fs of
              (fs', Inl _) \<Rightarrow> (fs', Inl DatabaseNotAvailable)
            | (fs', Inr _) \<Rightarrow> (fs', Inr localpath)))"

subsection \<open>The ledger invariant\<close>

text \<open>
  Engagement names are unique (the specification's invariant, enforced only by the
  check in \<open>createProject\<close>), ids are unique in each table, and every data row
  refers to an engagement.
\<close>

definition ledger_inv :: "ledger \<Rightarrow> bool" where
  "ledger_inv L \<longleftrightarrow>
     distinct (map eng_name (engagements L)) \<and> distinct (map eng_id (engagements L))
   \<and> (\<forall>r \<in> set (incoming L) \<union> set (outgoing L). row_project r \<in> eng_id ` set (engagements L))
   \<and> distinct (map row_id (incoming L)) \<and> distinct (map row_id (outgoing L))"

lemma next_id_fresh: "next_id ids \<notin> set ids"
  using fold_max_ge [of _ ids 0] by (fastforce simp: next_id_def)

lemma projectLs_up: "db_up L \<Longrightarrow> projectLs L = Inr (map eng_name (engagements L))"
  by (simp add: projectLs_def)

lemma createProject_inv:
  assumes "ledger_inv L" and "createProject c today p cm L = (L', r)"
  shows "ledger_inv L'"
  using assms next_id_fresh [of "map eng_id (engagements L)"]
  by (auto simp: createProject_def projectLs_def ledger_inv_def split: if_splits)

subsection \<open>Listing after an insertion\<close>

lemma dataset_rows_append:
  "dataset_rows (rows @ rows') engs q = dataset_rows rows engs q @ dataset_rows rows' engs q"
  by (simp add: dataset_rows_def)

lemma dataset_rows_single:
  assumes "distinct (map eng_id engs)" and "e \<in> set engs" and "row_project r = eng_id e"
  shows "dataset_rows [r] engs q =
           (if eng_name e = q then [(row_name r, row_version r, row_timestamp r)] else [])"
proof -
  have "filter (\<lambda>e'. row_project r = eng_id e' \<and> eng_name e' = q) engs
      = filter (\<lambda>e'. eng_name e' = q) (filter (\<lambda>e'. eng_id e' = eng_id e) engs)"
    using assms(3) by (simp add: filter_filter conj_commute eq_commute)
  also have "\<dots> = filter (\<lambda>e'. eng_name e' = q) [e]"
    using filter_unique_key [OF assms(1,2)] by simp
  finally show ?thesis by (simp add: dataset_rows_def)
qed

lemma addInOrOut_inv:
  assumes "ledger_inv L" and "addInOrOut p n v t u c m cm un h inc L = (L', r)"
  shows "ledger_inv L'"
proof (cases "db_up L \<and> p \<in> set (map eng_name (engagements L))")
  case True
  then obtain e where e: "find (\<lambda>e. eng_name e = p) (engagements L) = Some e"
    "e \<in> set (engagements L)" "eng_name e = p"
    using find_by_key [of p eng_name "engagements L"] by auto
  show ?thesis
    using assms True e next_id_fresh [of "map row_id (incoming L)"]
      next_id_fresh [of "map row_id (outgoing L)"]
    by (auto simp: addInOrOut_def projectLs_def ledger_inv_def Let_def split: if_splits)
next
  case False
  with assms show ?thesis
    by (auto simp: addInOrOut_def projectLs_def split: if_splits)
qed

lemma addInOrOut_Inr_cases:
  assumes "addInOrOut p n v t u c m cm un h inc L = (L', Inr ())"
  obtains e where "db_up L" "e \<in> set (engagements L)" "eng_name e = p"
    "find (\<lambda>e. eng_name e = p) (engagements L) = Some e"
proof -
  from assms have "db_up L \<and> p \<in> set (map eng_name (engagements L))"
    by (auto simp: addInOrOut_def projectLs_def split: if_splits)
  with find_by_key [of p eng_name "engagements L"] that show ?thesis by auto
qed

text \<open>A project the ledger does not list gets no row.\<close>

lemma addInOrOut_unlisted:
  "p \<notin> set (map eng_name (engagements L)) \<Longrightarrow>
   addInOrOut p n v t u c m cm un h inc L = (L, Inl (if db_up L then ProjectDoesNotExist else DatabaseNotAvailable))"
  by (simp add: addInOrOut_def projectLs_def)

subsection \<open>Properties of the ledger operations\<close>

definition demo_ledger :: ledger where
  "demo_ledger = \<lparr>engagements = [\<lparr>eng_id = 1, eng_name = ''memex'', date_started = (2024, 5, 1),
       owner = ''alice'', eng_comments = ''ads''\<rparr>], incoming = [], outgoing = [], db_up = True\<rparr>"

definition demo_conn :: dbconn where
  "demo_conn = \<lparr>db_user = ''alice'', db_pswd = ''pw'', db_host = ''db'', db_port = 3306\<rparr>"

text \<open>
  C6. Recording a submission refines adding one element to the bag of datasets a
  project lists: after a successful \<open>addInOrOut\<close>, \<open>ls\<close> of the recorded project lists
  the earlier entries and the new (name, version, timestamp) once more, in either
  direction, and \<open>ls\<close> of any other project is unchanged as a bag.
\<close>

theorem ls_addInOrOut:
  assumes inv: "ledger_inv L" and add: "addInOrOut p n v t u c m cm un h inc L = (L', Inr ())"
    and "ls L q = Inr xs"
  shows "\<exists>xs'. ls L' q = Inr xs' \<and>
           mset xs' = (if q = p then add_mset (n, v, t) (mset xs) else mset xs)"
proof -
  obtain e where e: "db_up L" "e \<in> set (engagements L)" "eng_name e = p"
    "find (\<lambda>e. eng_name e = p) (engagements L) = Some e"
    using add by (rule addInOrOut_Inr_cases)
  from inv have d: "distinct (map eng_id (engagements L))" by (simp add: ledger_inv_def)
  from e(2,3) have pin: "p \<in> set (map eng_name (engagements L))" by auto
  from \<open>ls L q = Inr xs\<close> e(1) have xs: "xs = dataset_rows (incoming L) (engagements L) q
      @ dataset_rows (outgoing L) (engagements L) q"
    by (simp add: ls_def)
  show ?thesis
  proof (cases inc)
    case True
    with add e have "L' = L\<lparr>incoming := incoming L @ [\<lparr>row_id = next_id (map row_id (incoming L)),
       row_project = eng_id e, row_name = n, row_version = v, row_timestamp = t, row_urls = u,
       row_checksums = c, row_metadata_url = m, row_comments = cm, row_username = un,
       row_hostname = h\<rparr>]\<rparr>"
      using pin by (simp add: addInOrOut_def projectLs_def)
    with xs e d show ?thesis
      by (simp add: ls_def dataset_rows_append dataset_rows_single)
  next
    case False
    with add e have "L' = L\<lparr>outgoing := outgoing L @ [\<lparr>row_id = next_id (map row_id (outgoing L)),
       row_project = eng_id e, row_name = n, row_version = v, row_timestamp = t, row_urls = u,
       row_checksums = c, row_metadata_url = m, row_comments = cm, row_username = un,
       row_hostname = h\<rparr>]\<rparr>"
      using pin by (simp add: addInOrOut_def projectLs_def)
    with xs e d show ?thesis
      by (simp add: ls_def dataset_rows_append dataset_rows_single)
  qed
qed

theorem ls_addInOrOut_witness:
  "ledger_inv demo_ledger \<and> ls demo_ledger ''memex'' = Inr [] \<and>
   (\<exists>xs'. ls (fst (addInOrOut ''memex'' ''ads'' ''v1'' demo_clock ''u'' [] [] ''first''
       ''testuser'' ''testhost'' True demo_ledger)) ''memex'' = Inr xs'
     \<and> mset xs' = {#(''ads'', ''v1'', demo_clock)#})"
proof -
  let ?a = "addInOrOut ''memex'' ''ads'' ''v1'' demo_clock ''u'' [] [] ''first''
       ''testuser'' ''testhost'' True demo_ledger"
  have h1: "ledger_inv demo_ledger" by (simp add: demo_ledger_def ledger_inv_def)
  have h2: "?a = (fst ?a, Inr ())" by (simp add: demo_ledger_def addInOrOut_def projectLs_def)
  have h3: "ls demo_ledger ''memex'' = Inr []" by (simp add: demo_ledger_def ls_def dataset_rows_def)
  from ls_addInOrOut [OF h1 h2 h3] h1 h3 show ?thesis by simp
qed

lemma createProject_new:
  assumes "db_up L" and "p \<notin> set (map eng_name (engagements L))"
    and "createProject c today p cm L = (L', r)"
  shows "r = Inr () \<and> db_up L' \<and> map eng_name (engagements L') = map eng_name (engagements L) @ [p]"
  using assms by (auto simp: createProject_def projectLs_def)

lemma matching_urls_Nil:
  "\<forall>r \<in> set rows. \<forall>e \<in> set engs. row_project r = eng_id e \<and> eng_name e = p \<longrightarrow>
     row_name r \<noteq> ds \<or> row_version r \<noteq> v \<Longrightarrow> matching_urls rows engs p ds v = []"
  by (auto simp: matching_urls_def filter_empty_conv)

text \<open>
  C9. Creating a project whose name the ledger already lists is refused with
  \<^verbatim>\<open>'Project already exists!'\<close> and leaves the ledger unchanged.
\<close>

theorem createProject_refuses_duplicate:
  assumes "db_up L" and "p \<in> set (map eng_name (engagements L))"
  shows "createProject c today p cm L = (L, Inl ProjectAlreadyExists)"
  using assms by (simp add: createProject_def projectLs_def)

theorem createProject_refuses_duplicate_witness:
  "createProject demo_conn (2024, 6, 1) ''memex'' ''again'' demo_ledger
     = (demo_ledger, Inl ProjectAlreadyExists)"
proof -
  have "db_up demo_ledger" "''memex'' \<in> set (map eng_name (engagements demo_ledger))"
    by (simp_all add: demo_ledger_def)
  from createProject_refuses_duplicate [OF this] show ?thesis .
qed

text \<open>
  C8. A fetch of a (project, dataset, version) that no row of either table records
  writes nothing and returns the target path as success: the code has no
  \<open>DatasetNotFound\<close> outcome.
\<close>

theorem fetch_no_match_succeeds:
  assumes "db_up L"
    and "\<forall>r \<in> set (incoming L) \<union> set (outgoing L). \<forall>e \<in> set (engagements L).
           row_project r = eng_id e \<and> eng_name e = p \<longrightarrow> row_name r \<noteq> ds \<or> row_version r \<noteq> v"
  shows "fetch s L p ds v lp fs = (fs, Inr lp)"
  using assms by (simp add: fetch_def matching_urls_Nil)

theorem fetch_no_match_succeeds_witness:
  "fetch demo_svc demo_ledger ''memex'' ''ads'' ''v9'' ''data'' demo_tree = (demo_tree, Inr ''data'')"
proof -
  have "db_up demo_ledger" by (simp add: demo_ledger_def)
  moreover have "\<forall>r \<in> set (incoming demo_ledger) \<union> set (outgoing demo_ledger).
      \<forall>e \<in> set (engagements demo_ledger).
      row_project r = eng_id e \<and> eng_name e = ''memex'' \<longrightarrow> row_name r \<noteq> ''ads'' \<or> row_version r \<noteq> ''v9''"
    by (simp add: demo_ledger_def)
  ultimately show ?thesis by (rule fetch_no_match_succeeds)
qed

subsection \<open>The listing query against its specification\<close>

text \<open>
  The specification of \<^verbatim>\<open>ls\<close>: the rows of both tables, incoming first, whose
  project is an engagement of the given name, each as (name, version, timestamp).
  The query of dbconn.py:61-67 computes it by an inner join, which would repeat a row
  once per engagement sharing its id; unique ids rule that out.
\<close>

definition listed_in :: "engagement list \<Rightarrow> string \<Rightarrow> data_row \<Rightarrow> bool" where
  "listed_in engs p r \<longleftrightarrow> (\<exists>e \<in> set engs. row_project r = eng_id e \<and> eng_name e = p)"

definition ls_spec :: "ledger \<Rightarrow> string \<Rightarrow> (string \<times> string \<times> datetime) list" where
  "ls_spec L p = map (\<lambda>r. (row_name r, row_version r, row_timestamp r))
     (filter (listed_in (engagements L) p) (incoming L @ outgoing L))"

lemma dataset_rows_one:
  assumes "distinct (map eng_id engs)"
  shows "dataset_rows [r] engs p =
     (if listed_in engs p r then [(row_name r, row_version r, row_timestamp r)] else [])"
proof (cases "\<exists>e \<in> set engs. row_project r = eng_id e")
  case True
  then obtain e where e: "e \<in> set engs" "row_project r = eng_id e" by blast
  have "listed_in engs p r \<longleftrightarrow> eng_name e = p"
  proof
    assume "listed_in engs p r"
    then obtain e' where "e' \<in> set engs" "row_project r = eng_id e'" "eng_name e' = p"
      by (auto simp: listed_in_def)
    with e assms have "e' = e" by (metis distinct_map inj_on_def)
    with \<open>eng_name e' = p\<close> show "eng_name e = p" by simp
  qed (use e in \<open>auto simp: listed_in_def\<close>)
  with dataset_rows_single [OF assms e] show ?thesis by simp
next
  case False
  then show ?thesis by (auto simp: dataset_rows_def listed_in_def filter_empty_conv)
qed

lemma dataset_rows_filter:
  assumes "distinct (map eng_id engs)"
  shows "dataset_rows rows engs p =
     map (\<lambda>r. (row_name r, row_version r, row_timestamp r)) (filter (listed_in engs p) rows)"
proof (induction rows)
  case (Cons r rows)
  have "dataset_rows (r # rows) engs p = dataset_rows [r] engs p @ dataset_rows rows engs p"
    using dataset_rows_append [of "[r]" rows engs p] by simp
  with Cons dataset_rows_one [OF assms] show ?case by simp
qed (simp add: dataset_rows_def)

text \<open>
  C13. On a ledger satisfying \<open>ledger_inv\<close>, the join query of \<^verbatim>\<open>ls\<close> returns
  exactly the specified listing: each row of the project once, in table order.
\<close>

theorem ls_equiv_spec:
  assumes "ledger_inv L" and "db_up L"
  shows "ls L p = Inr (ls_spec L p)"
proof -
  from assms(1) have "distinct (map eng_id (engagements L))" by (simp add: ledger_inv_def)
  with assms(2) show ?thesis by (simp add: ls_def ls_spec_def dataset_rows_filter)
qed

theorem ls_equiv_spec_witness:
  "ls (fst (addInOrOut ''memex'' ''ads'' ''v1'' demo_clock ''u'' [] [] ''first'' ''testuser'' ''testhost''
      False demo_ledger)) ''memex'' = Inr [(''ads'', ''v1'', demo_clock)]"
proof -
  let ?L = "fst (addInOrOut ''memex'' ''ads'' ''v1'' demo_clock ''u'' [] [] ''first'' ''testuser'' ''testhost''
      False demo_ledger)"
  have a: "addInOrOut ''memex'' ''ads'' ''v1'' demo_clock ''u'' [] [] ''first'' ''testuser'' ''testhost''
      False demo_ledger = (?L, snd (addInOrOut ''memex'' ''ads'' ''v1'' demo_clock ''u'' [] [] ''first''
      ''testuser'' ''testhost'' False demo_ledger))" by simp
  have h0: "ledger_inv demo_ledger" by (simp add: demo_ledger_def ledger_inv_def)
  have h1: "ledger_inv ?L" using addInOrOut_inv [OF h0 a] .
  have h2: "db_up ?L" by (simp add: addInOrOut_def projectLs_def demo_ledger_def)
  have s: "ls_spec ?L ''memex'' = [(''ads'', ''v1'', demo_clock)]"
    by (simp add: ls_spec_def listed_in_def addInOrOut_def projectLs_def demo_ledger_def)
  from ls_equiv_spec [OF h1 h2] s show ?thesis by simp
qed

subsection \<open>What fetch writes\<close>

text \<open>
  The URLs \<^verbatim>\<open>fetch\<close> iterates over, the body \<^verbatim>\<open>urlretrieve\<close> saves for one of
  them, and the directory listing after saving each under its last component in
  turn. An entry of the target directory can take a file unless it is a directory
  or a special file.
\<close>

definition fetch_urls :: "ledger \<Rightarrow> string \<Rightarrow> string \<Rightarrow> string \<Rightarrow> url list" where
  "fetch_urls L p ds v = concat (map py_split
     (matching_urls (incoming L) (engagements L) p ds v @ matching_urls (outgoing L) (engagements L) p ds v))"

definition url_body :: "s3_service \<Rightarrow> url \<Rightarrow> string" where
  "url_body s u = (case http_get s u of Inr d \<Rightarrow> d | Inl _ \<Rightarrow> [])"

definition writable_entry :: "(string \<times> fsnode) list \<Rightarrow> string \<Rightarrow> bool" where
  "writable_entry es b \<longleftrightarrow> (case map_of es b of Some (Directory _) \<Rightarrow> False | Some Special \<Rightarrow> False | _ \<Rightarrow> True)"

definition downloaded :: "s3_service \<Rightarrow> url list \<Rightarrow> (string \<times> fsnode) list \<Rightarrow> (string \<times> fsnode) list" where
  "downloaded s us es = fold (\<lambda>u. upd_alist (url_base u) (RegFile (url_body s u))) us es"

lemma download_urls_dir:
  assumes "os_lookup fs lp = Some (Directory es)" and "s3_online s"
    and "\<forall>u \<in> set us. CHR ''/'' \<in> set u \<and> url_base u \<noteq> [] \<and> writable_entry es (url_base u)"
  shows "\<exists>fs'. download_urls s lp us fs = (fs', Inr ())
           \<and> os_lookup fs' lp = Some (Directory (downloaded s us es))"
  using assms(1,3)
proof (induction us arbitrary: fs es)
  case Nil
  then show ?case by (simp add: downloaded_def)
next
  case (Cons u us)
  let ?b = "url_base u" and ?d = "url_body s u"
  from Cons.prems(2) have sl: "CHR ''/'' \<in> set u" and nb: "?b \<noteq> []" and we: "writable_entry es ?b"
    by auto
  obtain i where ri: "py_rindex CHR ''/'' u = Some i" and dr: "drop i u = CHR ''/'' # ?b"
    using rindex_url_base [OF sl] by blast
  have hg: "http_get s u = Inr ?d" using assms(2) by (simp add: http_get_def url_body_def)
  have pc: "path_comps (lp @ CHR ''/'' # ?b) = path_comps lp @ [?b]"
    using url_split [OF sl] nb by (intro path_comps_child) auto
  have "resolve fs (path_comps lp) = Some (Directory es)" using Cons.prems(1) by (simp add: os_lookup_def)
  from put_file_below [OF this, of ?b ?d] we obtain fs1 where
    p: "put_file fs (path_comps lp @ [?b]) ?d = Some fs1"
    and r1: "resolve fs1 (path_comps lp) = Some (Directory (upd_alist ?b (RegFile ?d) es))"
    by (auto simp: writable_entry_def split: option.splits fsnode.splits)
  have wf1: "write_file fs (lp @ drop i u) ?d = Some fs1" using p pc dr by (simp add: write_file_def)
  have l1: "os_lookup fs1 lp = Some (Directory (upd_alist ?b (RegFile ?d) es))"
    using r1 by (simp add: os_lookup_def)
  have "\<forall>u' \<in> set us. CHR ''/'' \<in> set u' \<and> url_base u' \<noteq> [] \<and>
      writable_entry (upd_alist ?b (RegFile ?d) es) (url_base u')"
    using Cons.prems(2) by (auto simp: writable_entry_def)
  from Cons.IH [OF l1 this] obtain fs' where
    "download_urls s lp us fs1 = (fs', Inr ())"
    "os_lookup fs' lp = Some (Directory (downloaded s us (upd_alist ?b (RegFile ?d) es)))" by blast
  with ri hg wf1 show ?case by (simp add: downloaded_def)
qed

text \<open>
  C14. When the ledger answers, the store is online and the target path is a
  directory in which no URL's last component names a subdirectory or a special file,
  \<^verbatim>\<open>fetch\<close> succeeds and leaves the target directory holding, under the last
  component of each URL of every matching row, the body of that URL: the layout is
  flattened, and of two URLs with the same last component the later one wins.
\<close>

theorem fetch_flattens:
  assumes "db_up L" and "s3_online s" and "os_lookup fs lp = Some (Directory es)"
    and "\<forall>u \<in> set (fetch_urls L p ds v). CHR ''/'' \<in> set u \<and> url_base u \<noteq> [] \<and> writable_entry es (url_base u)"
  shows "\<exists>fs'. fetch s L p ds v lp fs = (fs', Inr lp)
           \<and> os_lookup fs' lp = Some (Directory (downloaded s (fetch_urls L p ds v) es))"
proof -
  from download_urls_dir [OF assms(3,2,4)] obtain fs' where
    "download_urls s lp (fetch_urls L p ds v) fs = (fs', Inr ())"
    "os_lookup fs' lp = Some (Directory (downloaded s (fetch_urls L p ds v) es))" by blast
  with assms(1) show ?thesis by (simp add: fetch_def fetch_urls_def Let_def)
qed

text \<open>Downloads change the local tree only at the target directory, its ancestors and its entries.\<close>

lemma download_urls_frame:
  assumes "download_urls s lp us fs = (fs', r)" and "resolve fs' ds \<noteq> resolve fs ds"
  shows "prefix ds (path_comps lp) \<or> (\<exists>f. ds = path_comps lp @ [f])"
  using assms
proof (induction us arbitrary: fs)
  case (Cons u us)
  show ?case
  proof (cases "py_rindex CHR ''/'' u")
    case (Some ind)
    then have "CHR ''/'' \<in> set u" using py_rindex_None [of "CHR ''/''" u] by auto
    then obtain i where i: "py_rindex CHR ''/'' u = Some i" and dr: "drop i u = CHR ''/'' # url_base u"
      using rindex_url_base by blast
    have nb: "CHR ''/'' \<notin> set (url_base u)" by (auto simp: url_base_def dest: set_takeWhileD)
    show ?thesis
    proof (cases "http_get s u")
      case (Inr body)
      show ?thesis
      proof (cases "write_file fs (lp @ CHR ''/'' # url_base u) body")
        case (Some fs1)
        with Cons.prems(1) i Inr dr have rest: "download_urls s lp us fs1 = (fs', r)" by simp
        show ?thesis
        proof (cases "resolve fs' ds = resolve fs1 ds")
          case True
          with Cons.prems(2) have "resolve fs1 ds \<noteq> resolve fs ds" by simp
          with Some have "prefix ds (path_comps (lp @ CHR ''/'' # url_base u))"
            by (auto simp: write_file_def intro: put_file_frame)
          with nb show ?thesis by (rule prefix_child_path)
        qed (rule Cons.IH [OF rest])
      qed (use Cons.prems i Inr dr in simp)
    qed (use Cons.prems i in simp)
  qed (use Cons.prems in simp)
qed simp

subsection \<open>The insert statements\<close>

lemma insert_statement_count:
  assumes "CHR ''%'' \<notin> set table" and "\<forall>c \<in> set cols. CHR ''%'' \<notin> set c"
  shows "fmt_count (''insert into '' @ table @ ''('' @ py_join '','' cols @ '') values ('' @
           py_join '','' (replicate (length cols) ''%s'') @ '')'') = Some (length cols)"
proof -
  have "CHR ''%'' \<notin> set (py_join '','' cols)"
    using assms(2) by (simp add: py_join_no_char)
  then show ?thesis
    using assms(1) by (simp add: fmt_count_plain fmt_count_placeholders
        flip: append_assoc del: append_assoc)
qed

lemma Schema_no_percent:
  "(t, cs) \<in> set Schema \<Longrightarrow> CHR ''%'' \<notin> set t \<and> (\<forall>c \<in> set cs. CHR ''%'' \<notin> set c)"
  by (auto simp: Schema_def)

text \<open>
  C22. For every table of \<^verbatim>\<open>Schema\<close>, \<^verbatim>\<open>_getTableSignature\<close> builds an insert
  statement (no \<^verbatim>\<open>KeyError\<close>) whose conversions are exactly one \<^verbatim>\<open>%s\<close> per
  column after the auto-increment \<^verbatim>\<open>id\<close>: it takes as many values as the table has
  columns to fill, and no table or column name holds a stray \<^verbatim>\<open>%\<close>.
\<close>

theorem getTableSignature_arity:
  assumes "map_of Schema t = Some cs"
  shows "\<exists>q. getTableSignature t = Inr q \<and> fmt_count q = Some (length cs - 1)"
proof -
  have "CHR ''%'' \<notin> set t" and "\<forall>c \<in> set (drop 1 cs). CHR ''%'' \<notin> set c"
    using Schema_no_percent [OF map_of_SomeD [OF assms]] by (auto dest: in_set_dropD)
  from insert_statement_count [OF this] assms show ?thesis
    by (simp add: getTableSignature_def dict_get_def)
qed

theorem getTableSignature_arity_witness:
  "\<exists>q. getTableSignature ''IncomingData'' = Inr q \<and> fmt_count q = Some 10"
  using getTableSignature_arity [of "''IncomingData''"] by (simp add: Schema_def numeral_eq_Suc)

subsection \<open>Fetching what was just recorded\<close>

lemma matching_urls_append:
  "matching_urls (xs @ ys) engs p ds v = matching_urls xs engs p ds v @ matching_urls ys engs p ds v"
  by (simp add: matching_urls_def)


lemma matching_urls_single:
  assumes "distinct (map eng_id engs)" and "e \<in> set engs" and "eng_name e = p"
    and "row_project r = eng_id e" and "row_name r = ds" and "row_version r = v"
  shows "matching_urls [r] engs p ds v = [row_urls r]"
proof -
  have "filter (\<lambda>e'. eng_id e' = eng_id e \<and> eng_name e' = p) engs
      = filter (\<lambda>e'. eng_name e' = p) (filter (\<lambda>e'. eng_id e' = eng_id e) engs)"
    by (simp add: filter_filter conj_commute)
  also have "\<dots> = [e]"
    using filter_unique_key [OF assms(1,2)] assms(3) by simp
  finally show ?thesis
    using assms(3-6) by (simp add: matching_urls_def eq_commute [of "eng_id e"])
qed


lemma fetch_urls_recorded:
  assumes inv: "ledger_inv L" and fresh: "fetch_urls L p n v = []"
    and add: "addInOrOut p n v t u c m cm un h inc L = (L', Inr ())"
  shows "fetch_urls L' p n v = py_split u \<and> engagements L' = engagements L \<and> db_up L' = db_up L"
proof -
  from add have up: "db_up L" and pin: "p \<in> set (map eng_name (engagements L))"
    by (auto simp: addInOrOut_def projectLs_def split: if_splits)
  from find_by_key [OF pin] obtain e where fe: "find (\<lambda>e. eng_name e = p) (engagements L) = Some e"
    and e: "e \<in> set (engagements L)" and en: "eng_name e = p" by blast
  define r where "r = \<lparr>row_id = next_id (map row_id (if inc then incoming L else outgoing L)),
    row_project = eng_id e, row_name = n, row_version = v, row_timestamp = t, row_urls = u,
    row_checksums = c, row_metadata_url = m, row_comments = cm, row_username = un, row_hostname = h\<rparr>"
  have L': "L' = (if inc then L\<lparr>incoming := incoming L @ [r]\<rparr> else L\<lparr>outgoing := outgoing L @ [r]\<rparr>)"
    using add up pin fe by (cases inc) (simp_all add: addInOrOut_def projectLs_def Let_def r_def)
  have r: "row_project r = eng_id e" "row_name r = n" "row_version r = v" "row_urls r = u"
    by (simp_all add: r_def)
  have "distinct (map eng_id (engagements L))" using inv by (simp add: ledger_inv_def)
  from matching_urls_single [OF this e en r(1-3)] r(4)
  have rm: "matching_urls [r] (engagements L) p n v = [u]" by simp
  from fresh have A: "concat (map py_split (matching_urls (incoming L) (engagements L) p n v)) = []"
    and B: "concat (map py_split (matching_urls (outgoing L) (engagements L) p n v)) = []"
    by (simp_all add: fetch_urls_def)
  show ?thesis
    using rm L' up by (cases inc) (simp_all add: fetch_urls_def matching_urls_append A B)
qed


lemma downloaded_flat:
  assumes "distinct (map fst des)"
    and "\<forall>(f, nd) \<in> set des. url_base (U f) = f \<and> nd = RegFile (url_body s (U f))"
  shows "downloaded s (map (\<lambda>(f, nd). U f) des) [] = des"
proof -
  have "downloaded s (map (\<lambda>(f, nd). U f) des) [] = fold (\<lambda>(k, v). upd_alist k v) des []"
    unfolding downloaded_def fold_map
    by (rule fold_cong [OF refl refl]) (use assms(2) in \<open>auto simp: comp_def\<close>)
  also have "\<dots> = des"
    using fold_upd_alist_fresh [OF assms(1), of "[]"] by simp
  finally show ?thesis .
qed

end
