(* ===== verification/Librarian.thy ===== *)
theory Librarian
  imports DBConn
begin

text \<open>
  \<^verbatim>\<open>librarian.py\<close>: the command-line client. One invocation of the program runs on
  the record \<open>world\<close>: the config file \<^verbatim>\<open>~/.librarian\<close> (absent, or its credential
  dictionary), the ledger and the login policy of the MySQL server, the object store,
  the local file tree, the clock read by \<^verbatim>\<open>datetime.now()\<close>, and the lines printed so
  far. Each command function of the module is one definition of type
  \<open>(world, unit) exc\<close>: it returns the world it leaves, with the exception it raises
  if it raises one. \<^verbatim>\<open>get_db_access\<close> and \<^verbatim>\<open>get_s3_access\<close> only read the world.
\<close>

text \<open>The \<^verbatim>\<open>"credentials"\<close> entry of \<^verbatim>\<open>configDict\<close>: a name to the keyword arguments it stores.\<close>

type_synonym config = "(string \<times> (string \<times> string) list) list"

record world =
  cfg_file :: "config option"
  ledger :: ledger
  db_accepts :: "string \<Rightarrow> int \<Rightarrow> string \<Rightarrow> string \<Rightarrow> bool"
  store :: s3_service
  local_fs :: fsnode
  clock :: datetime
  stdout :: "string list"

definition say :: "string \<Rightarrow> world \<Rightarrow> world" where
  "say line w = w\<lparr>stdout := stdout w @ [line]\<rparr>"

subsection \<open>Configuration\<close>

text \<open>
  \<^verbatim>\<open>ConfigError(...)\<close> (librarian.py:24-27): \<^verbatim>\<open>__init__(self, msg)\<close> takes exactly one
  argument besides \<^verbatim>\<open>self\<close>; a call with another number of arguments raises
  \<^verbatim>\<open>TypeError\<close> before any exception object exists.
\<close>

definition config_error :: "string list \<Rightarrow> error" where
  "config_error args = (case args of [msg] \<Rightarrow> ConfigError msg | _ \<Rightarrow> TypeError)"

text \<open>
  \<^verbatim>\<open>configFilename\<close> (librarian.py:20), \<^verbatim>\<open>~/.librarian\<close> made absolute; the
  model fixes the home directory, whose name only enters an error message.
\<close>

definition configFilename :: string where
  "configFilename = ''/root/.librarian''"

definition config_missing_msg :: string where
  "config_missing_msg = ''Librarian config file does not exist.  Invoke librarian --init to create''"

text \<open>\<^verbatim>\<open>loadConfig\<close> (librarian.py:32-42).\<close>

definition loadConfig :: "world \<Rightarrow> error + config" where
  "loadConfig w = (case cfg_file w of None \<Rightarrow> Inl (config_error [config_missing_msg]) | Some c \<Rightarrow> Inr c)"

text \<open>
  \<^verbatim>\<open>saveConfig\<close> (librarian.py:44-50): the file then holds the credential
  dictionary of \<^verbatim>\<open>configDict\<close> (its JSON text is not modelled, see the header).
\<close>

definition saveConfig :: "config \<Rightarrow> world \<Rightarrow> world" where
  "saveConfig c w = w\<lparr>cfg_file := Some c\<rparr>"

text \<open>The module-level \<^verbatim>\<open>configDict = {"credentials":{}}\<close> (librarian.py:21): no credential.\<close>

definition configDict_init :: config where
  "configDict_init = []"

text \<open>
  \<^verbatim>\<open>configInit\<close> (librarian.py:54-58): in a fresh process \<^verbatim>\<open>configDict\<close> holds no
  credential, and that is what is written. When the file exists the code raises
  \<^verbatim>\<open>ConfigError\<close> built from a message and the file name.
\<close>

definition configInit :: "(world, unit) exc" where
  "configInit w =
     (if cfg_file w \<noteq> None
      then (w, Inl (config_error [''Cannot init.  Librarian config file already exists at'', configFilename]))
      else (saveConfig configDict_init w, Inr ()))"

text \<open>\<^verbatim>\<open>addCredentials(name, **credential)\<close> (librarian.py:61-66): replaces the whole entry.\<close>

definition addCredentials :: "string \<Rightarrow> (string \<times> string) list \<Rightarrow> (world, unit) exc" where
  "addCredentials name credential w =
     (case loadConfig w of
        Inl e \<Rightarrow> (w, Inl e)
      | Inr c \<Rightarrow> (saveConfig (upd_alist name credential c) w, Inr ()))"

text \<open>
  \<^verbatim>\<open>get_db_access\<close> (librarian.py:68-73): the four fields are read in argument
  order, each a \<^verbatim>\<open>KeyError\<close> when missing.
\<close>

definition get_db_access :: "world \<Rightarrow> error + dbconn" where
  "get_db_access w =
     bind_sum (loadConfig w) (\<lambda>c.
     bind_sum (dict_get c ''mysql'' KeyError) (\<lambda>m.
     bind_sum (dict_get m ''user'' KeyError) (\<lambda>user.
     bind_sum (dict_get m ''password'' KeyError) (\<lambda>password.
     bind_sum (dict_get m ''host'' KeyError) (\<lambda>host.
     bind_sum (dict_get m ''port'' KeyError) (\<lambda>port.
       dbconn_init (db_accepts w) user password host port))))))"

text \<open>\<^verbatim>\<open>get_s3_access\<close> (librarian.py:75-80).\<close>

definition get_s3_access :: "world \<Rightarrow> error + storage" where
  "get_s3_access w =
     bind_sum (loadConfig w) (\<lambda>c. bind_sum (dict_get c ''aws'' KeyError) storage_init)"

subsection \<open>publish\<close>

text \<open>
  \<^verbatim>\<open>publish(in_or_out, localpath, project, name, version, comment)\<close>
  (librarian.py:82-106). A project that is not listed is only reported; the upload
  still runs, and the ledger then refuses the record. The object store keeps what
  was uploaded before any later failure.
\<close>

definition publish :: "string \<Rightarrow> path \<Rightarrow> string \<Rightarrow> string \<Rightarrow> string \<Rightarrow> string
    \<Rightarrow> (world, unit) exc" where
  "publish in_or_out localpath project name version comment w =
     (case get_db_access w of
        Inl e \<Rightarrow> (w, Inl e)
      | Inr db \<Rightarrow>
     (case get_s3_access w of
        Inl e \<Rightarrow> (w, Inl e)
      | Inr s3 \<Rightarrow>
     if \<not> os_exists (local_fs w) localpath then (w, Inl InvalidLocalPath)
     else
     (case projectLs (ledger w) of
        Inl e \<Rightarrow> (w, Inl e)
      | Inr names \<Rightarrow>
     let w1 = (if project \<notin> set names
               then say ''The given project doesn't exist. Please create it first.'' w else w);
         timestamp = clock w1
     in
     (case strftime_stamp timestamp of
        Inl e \<Rightarrow> (w1, Inl e)
      | Inr stamp \<Rightarrow>
     let s3_directory = name @ stamp
     in
     (case upload s3 (local_fs w1) localpath project name s3_directory (store w1) of
        (st', Inl e) \<Rightarrow> (w1\<lparr>store := st'\<rparr>, Inl e)
      | (st', Inr (urls, checksums)) \<Rightarrow>
     let w2 = w1\<lparr>store := st'\<rparr>;
         urls_s = py_join ''\<newline>'' urls;
         checksums_s = py_join ''\<newline>'' checksums;
         incoming = (in_or_out = ''in'')
     in
     (case addInOrOut project name version timestamp urls_s checksums_s [] comment
             ''testuser'' ''testhost'' incoming (ledger w2) of
        (L', Inl e) \<Rightarrow> (w2\<lparr>ledger := L'\<rparr>, Inl e)
      | (L', Inr _) \<Rightarrow> (say ''File(s) successfully uploaded'' (w2\<lparr>ledger := L'\<rparr>), Inr ())))))))"

subsection \<open>get\<close>

text \<open>
  \<^verbatim>\<open>get(project, dataset, version, localpath)\<close> (librarian.py:109-120): a missing
  project or target directory is only reported.
\<close>

definition get :: "string \<Rightarrow> string \<Rightarrow> string \<Rightarrow> path \<Rightarrow> (world, unit) exc" where
  "get project dataset version localpath w =
     (case get_db_access w of
        Inl e \<Rightarrow> (w, Inl e)
      | Inr db \<Rightarrow>
     (case projectLs (ledger w) of
        Inl e \<Rightarrow> (w, Inl e)
      | Inr names \<Rightarrow>
     if project \<notin> set names then (say ''The given project doesn't exist'' w, Inr ())
     else if \<not> os_isdir (local_fs w) localpath
     then (say ''The specified local path is not a directory'' w, Inr ())
     else
     (case fetch (store w) (ledger w) project dataset version localpath (local_fs w) of
        (fs', Inl e) \<Rightarrow> (w\<lparr>local_fs := fs'\<rparr>, Inl e)
      | (fs', Inr output) \<Rightarrow>
          (say (''Files stored in the directory  '' @ output) (w\<lparr>local_fs := fs'\<rparr>), Inr ()))))"

subsection \<open>projectLs, ls, create\<close>

text \<open>\<^verbatim>\<open>projectLs()\<close> (librarian.py:123-128): the header is printed before the query runs.\<close>

definition projectLs_cmd :: "(world, unit) exc" where
  "projectLs_cmd w =
     (case get_db_access w of
        Inl e \<Rightarrow> (w, Inl e)
      | Inr db \<Rightarrow>
          (let w1 = say ''List of all known projects:'' w in
           case projectLs (ledger w1) of
             Inl e \<Rightarrow> (w1, Inl e)
           | Inr names \<Rightarrow> (fold say names w1, Inr ())))"

text \<open>
  One line of \<^verbatim>\<open>ls\<close>: \<^verbatim>\<open>'{0:{width}}'.format(s, width=n)\<close> pads a string on the
  right to \<open>n\<close> characters; the trailing commas of the \<^verbatim>\<open>print\<close> statements put one
  space between the fields; \<^verbatim>\<open>str\<close> of a \<^verbatim>\<open>datetime\<close> is
  \<^verbatim>\<open>YYYY-MM-DD HH:MM:SS\<close>, followed by \<^verbatim>\<open>.ffffff\<close> when the microseconds are not 0.
\<close>

definition ljust :: "nat \<Rightarrow> string \<Rightarrow> string" where
  "ljust n s = s @ replicate (n - length s) CHR '' ''"

definition str_datetime :: "datetime \<Rightarrow> string" where
  "str_datetime t =
     zero_pad 4 (dt_year t) @ ''-'' @ zero_pad 2 (dt_month t) @ ''-'' @ zero_pad 2 (dt_day t)
     @ '' '' @ zero_pad 2 (dt_hour t) @ '':'' @ zero_pad 2 (dt_minute t) @ '':'' @ zero_pad 2 (dt_second t)
     @ (if dt_microsecond t = 0 then [] else ''.'' @ zero_pad 6 (dt_microsecond t))"

definition ls_line :: "string \<times> string \<times> datetime \<Rightarrow> string" where
  "ls_line r = (case r of (name, version, timestamp) \<Rightarrow>
     ljust 25 name @ '' '' @ ljust 8 version @ '' '' @ str_datetime timestamp)"

text \<open>\<^verbatim>\<open>ls(projectname)\<close> (librarian.py:131-141).\<close>

definition ls_cmd :: "string \<Rightarrow> (world, unit) exc" where
  "ls_cmd projectname w =
     (case get_db_access w of
        Inl e \<Rightarrow> (w, Inl e)
      | Inr db \<Rightarrow>
     (case projectLs (ledger w) of
        Inl e \<Rightarrow> (w, Inl e)
      | Inr names \<Rightarrow>
     if projectname \<notin> set names then (say ''The given project doesn't exist'' w, Inr ())
     else
       (let w1 = say (''List of all datasets in a project named '' @ projectname) w in
        case ls (ledger w1) projectname of
          Inl e \<Rightarrow> (w1, Inl e)
        | Inr rows \<Rightarrow> (fold (say \<circ> ls_line) rows w1, Inr ()))))"

text \<open>
  \<^verbatim>\<open>create(projectname, comment)\<close> (librarian.py:143-151): an existing project is
  only reported; \<open>None\<close> is the absent comment.
\<close>

definition create :: "string \<Rightarrow> string option \<Rightarrow> (world, unit) exc" where
  "create projectname comment w =
     (case get_db_access w of
        Inl e \<Rightarrow> (w, Inl e)
      | Inr db \<Rightarrow>
     (case projectLs (ledger w) of
        Inl e \<Rightarrow> (w, Inl e)
      | Inr names \<Rightarrow>
     if projectname \<in> set names then (say ''The given project already exists'' w, Inr ())
     else
       (let cm = (case comment of None \<Rightarrow> [] | Some c \<Rightarrow> c) in
        case createProject db (date_of (clock w)) projectname cm (ledger w) of
          (L', r) \<Rightarrow> (w\<lparr>ledger := L'\<rparr>, r))))"

subsection \<open>What printing leaves unchanged\<close>

lemma say_frame [simp]:
  "ledger (say l w) = ledger w" "store (say l w) = store w" "local_fs (say l w) = local_fs w"
  "cfg_file (say l w) = cfg_file w" "clock (say l w) = clock w" "db_accepts (say l w) = db_accepts w"
  by (simp_all add: say_def)

lemma fold_say_frame:
  assumes "\<And>x. \<exists>l. f x = say l"
  shows "ledger (fold f xs w) = ledger w \<and> store (fold f xs w) = store w"
proof (induction xs arbitrary: w)
  case (Cons x xs)
  obtain l where "f x = say l" using assms by blast
  with Cons.IH [of "say l w"] show ?case by simp
qed simp

text \<open>The constructor of \<^verbatim>\<open>ConfigError\<close> on one message, and on a message and a file name.\<close>

lemma config_error_arity [simp]:
  "config_error [msg] = ConfigError msg" "config_error [msg, f] = TypeError"
  by (simp_all add: config_error_def)

text \<open>Without a config file every command that reads credentials raises \<^verbatim>\<open>ConfigError\<close> before any effect.\<close>

lemma no_config_commands:
  assumes "cfg_file w = None"
  shows "get_db_access w = Inl (ConfigError config_missing_msg)" "get_s3_access w = Inl (ConfigError config_missing_msg)"
    "addCredentials n c w = (w, Inl (ConfigError config_missing_msg))"
    "publish t lp p n v cm w = (w, Inl (ConfigError config_missing_msg))" "get p d v lp w = (w, Inl (ConfigError config_missing_msg))"
    "create p c' w = (w, Inl (ConfigError config_missing_msg))" "ls_cmd p w = (w, Inl (ConfigError config_missing_msg))"
    "projectLs_cmd w = (w, Inl (ConfigError config_missing_msg))"
  using assms
  by (simp_all add: get_db_access_def get_s3_access_def loadConfig_def addCredentials_def
      publish_def get_def create_def ls_cmd_def projectLs_cmd_def)

lemma fold_say_local_fs:
  assumes "\<And>x. \<exists>l. f x = say l"
  shows "local_fs (fold f xs w) = local_fs w"
proof (induction xs arbitrary: w)
  case (Cons x xs)
  obtain l where "f x = say l" using assms by blast
  with Cons.IH [of "say l w"] show ?case by simp
qed simp

subsection \<open>The columns of the listing\<close>

lemma length_ljust [simp]: "length (ljust n s) = max n (length s)"
  by (simp add: ljust_def)

lemma length_str_datetime:
  assumes "dt_valid t"
  shows "length (str_datetime t) = (if dt_microsecond t = 0 then 19 else 26)"
proof -
  from assms have b: "dt_year t < 10 ^ 4" "dt_month t < 10 ^ 2" "dt_day t < 10 ^ 2"
    "dt_hour t < 10 ^ 2" "dt_minute t < 10 ^ 2" "dt_second t < 10 ^ 2" "dt_microsecond t < 10 ^ 6"
    by (auto simp: dt_valid_def)
  note zp = zero_pad_props(1) [OF _ b(1)] zero_pad_props(1) [OF _ b(2)] zero_pad_props(1) [OF _ b(3)]
    zero_pad_props(1) [OF _ b(4)] zero_pad_props(1) [OF _ b(5)] zero_pad_props(1) [OF _ b(6)]
    zero_pad_props(1) [OF _ b(7)]
  show ?thesis using zp by (simp add: str_datetime_def)
qed

text \<open>
  C16. A line of \<^verbatim>\<open>ls\<close> for a dataset name of at most 25 and a version of at most
  8 characters and a valid timestamp has the name padded in columns 0-24, the version
  padded in columns 26-33, the timestamp from column 35 on, and is 54 characters long,
  61 when the timestamp has microseconds: the columns line up exactly within those
  bounds (a longer name shifts the rest of its line).
\<close>

theorem ls_line_columns:
  assumes "length name \<le> 25" and "length version \<le> 8" and "dt_valid t"
  shows "take 25 (ls_line (name, version, t)) = ljust 25 name
    \<and> take 8 (drop 26 (ls_line (name, version, t))) = ljust 8 version
    \<and> drop 35 (ls_line (name, version, t)) = str_datetime t
    \<and> length (ls_line (name, version, t)) = (if dt_microsecond t = 0 then 54 else 61)"
  using assms length_str_datetime [OF assms(3)] by (simp add: ls_line_def)

theorem ls_line_columns_witness:
  "length (ls_line (''ads'', ''v1'', demo_clock)) = 61
   \<and> drop 35 (ls_line (''ads'', ''v1'', demo_clock)) = ''2024-05-17 09:03:07.000042''"
proof -
  have h: "dt_valid demo_clock" by (simp add: dt_valid_def demo_clock_def)
  have s: "str_datetime demo_clock = ''2024-05-17 09:03:07.000042''"
    by (simp add: str_datetime_def demo_clock_def zero_pad_def model_simps hex_digit_def hex_digits_def)
  from ls_line_columns [OF _ _ h, of "''ads''" "''v1''"] s show ?thesis by (simp add: demo_clock_def)
qed

end
