(* ===== verification/Dispatch.thy ===== *)
theory Dispatch
  imports Librarian
begin

text \<open>
  \<^verbatim>\<open>main()\<close> of \<^verbatim>\<open>librarian.py\<close> (lines 155-233): the options \<^verbatim>\<open>argparse\<close> leaves
  in \<^verbatim>\<open>args\<close>, the \<^verbatim>\<open>if/elif\<close> chain that picks one command function, the
  \<^verbatim>\<open>--lscreds\<close> branch written inline, and the handler that prints a
  \<^verbatim>\<open>ConfigError\<close>'s message. One invocation of the program is one step of the
  relation \<open>invocation\<close> on worlds; the clock may have moved between two of them.
\<close>

subsection \<open>The parsed command line\<close>

text \<open>
  The namespace \<^verbatim>\<open>parser.parse_args()\<close> returns (librarian.py:159-189). An option
  with \<^verbatim>\<open>nargs=k\<close> is absent (\<open>None\<close>) or a list of exactly \<open>k\<close> strings, which
  \<^verbatim>\<open>argparse\<close> guarantees, so it is a tuple here; the flags are booleans.
  \<^verbatim>\<open>--config\<close> stays a one-element list, since \<^verbatim>\<open>main\<close> uses it as one.
  \<^verbatim>\<open>--type\<close> is one of \<^verbatim>\<open>in\<close>, \<^verbatim>\<open>out\<close> when present.
\<close>

record cli_args =
  arg_init :: bool
  arg_config :: "string list option"
  arg_lscreds :: bool
  arg_set_aws_cred :: "(string \<times> string) option"
  arg_set_mysql_cred :: "(string \<times> string \<times> string \<times> string) option"
  arg_ls :: "string option"
  arg_pls :: bool
  arg_create :: "(string \<times> string) option"
  arg_publish :: "(string \<times> string \<times> string \<times> string \<times> string) option"
  arg_type :: "string option"
  arg_get :: "(string \<times> string \<times> string \<times> string) option"

definition no_args :: cli_args where
  "no_args = \<lparr>arg_init = False, arg_config = None, arg_lscreds = False, arg_set_aws_cred = None,
     arg_set_mysql_cred = None, arg_ls = None, arg_pls = False, arg_create = None,
     arg_publish = None, arg_type = None, arg_get = None\<rparr>"

subsection \<open>--lscreds\<close>

text \<open>
  \<^verbatim>\<open>print " ", name, cred\<close> prints the \<^verbatim>\<open>repr\<close> of the credential dictionary that
  \<^verbatim>\<open>json.loads\<close> built: unicode keys and values, so each is \<^verbatim>\<open>u'...'\<close> (or
  \<^verbatim>\<open>u"..."\<close> when the text holds a single quote and no double quote), with the
  backslash, the chosen quote, tab, newline and carriage return escaped and every
  other byte outside the printable ASCII range written \<^verbatim>\<open>\xhh\<close> in lower-case hex.
  The order in which \<^verbatim>\<open>iteritems\<close> visits a dictionary is its hash order; the model
  fixes it to the order of insertion.
\<close>

definition lower_hex :: string where
  "lower_hex = ''0123456789abcdef''"

definition repr_char :: "char \<Rightarrow> char \<Rightarrow> string" where
  "repr_char q c =
     (if c = q \<or> c = CHR 0x5C then [CHR 0x5C, c]
      else if c = CHR 0x09 then [CHR 0x5C, CHR ''t'']
      else if c = CHR 0x0A then [CHR 0x5C, CHR ''n'']
      else if c = CHR 0x0D then [CHR 0x5C, CHR ''r'']
      else if of_char c < (32::nat) \<or> 127 \<le> (of_char c :: nat)
      then [CHR 0x5C, CHR ''x'', lower_hex ! (of_char c div 16), lower_hex ! (of_char c mod 16)]
      else [c])"

text \<open>
  \<^verbatim>\<open>repr\<close> of a byte string (\<^verbatim>\<open>str\<close>); the \<^verbatim>\<open>repr\<close> of a unicode string whose
  characters are below U+0100 is the same text after a \<^verbatim>\<open>u\<close>.
\<close>

definition repr_str :: "string \<Rightarrow> string" where
  "repr_str s =
     (let q = (if CHR 0x27 \<in> set s \<and> CHR 0x22 \<notin> set s then CHR 0x22 else CHR 0x27)
      in q # concat (map (repr_char q) s) @ [q])"

definition repr_unicode :: "string \<Rightarrow> string" where
  "repr_unicode s = CHR ''u'' # repr_str s"

definition repr_dict :: "(string \<times> string) list \<Rightarrow> string" where
  "repr_dict d = ''{'' @ py_join '', '' (map (\<lambda>(k, v). repr_unicode k @ '': '' @ repr_unicode v) d) @ ''}''"

text \<open>The \<^verbatim>\<open>elif args.lscreds\<close> branch (librarian.py:221-226).\<close>

definition lscreds :: "(world, unit) exc" where
  "lscreds w =
     (case loadConfig w of
        Inl e \<Rightarrow> (w, Inl e)
      | Inr c \<Rightarrow>
          (fold (\<lambda>(name, cred). say (''  '' @ name @ '' '' @ repr_dict cred)) c
             (say (''There are '' @ nat_digits (length c) @ '' credential(s) available'') w), Inr ()))"

lemma lscreds_no_config: "cfg_file w = None \<Longrightarrow> lscreds w = (w, Inl (ConfigError config_missing_msg))"
  by (simp add: lscreds_def loadConfig_def)

subsection \<open>The dispatch\<close>

text \<open>
  \<^verbatim>\<open>parser.print_help()\<close> prints the usage text \<^verbatim>\<open>argparse\<close> builds from the option
  table; the model keeps its first line.
\<close>

definition help_text :: string where
  "help_text = ''usage: librarian.py [-h] [--version] [--init] [--config configfile] [--lscreds] ...''"

text \<open>
  The body of the \<^verbatim>\<open>try\<close> (librarian.py:190-228). \<^verbatim>\<open>os.path.abspath\<close> of the
  list \<^verbatim>\<open>args.config\<close> calls \<^verbatim>\<open>startswith\<close> on it, an \<^verbatim>\<open>AttributeError\<close>; had it
  worked, the assignment would only bind a local name. \<^verbatim>\<open>len(...) == 2\<close>,
  \<^verbatim>\<open>len(...) == 4\<close> and \<^verbatim>\<open>len(...) > 0\<close> hold of every list \<^verbatim>\<open>argparse\<close> returns.
\<close>

definition dispatch :: "cli_args \<Rightarrow> (world, unit) exc" where
  "dispatch a w =
     (if arg_config a \<noteq> None then (w, Inl AttributeError)
      else if arg_init a then configInit w
      else (case arg_set_aws_cred a of
        Some (ak, sk) \<Rightarrow>
          addCredentials ''aws'' [(''access_key_id'', ak), (''secret_access_key'', sk)] w
      | None \<Rightarrow>
      (case arg_set_mysql_cred a of
        Some (h, p, u, pw) \<Rightarrow>
          addCredentials ''mysql'' [(''host'', h), (''port'', p), (''user'', u), (''password'', pw)] w
      | None \<Rightarrow>
      if arg_pls a then projectLs_cmd w
      else (case arg_ls a of
        Some p \<Rightarrow> ls_cmd p w
      | None \<Rightarrow>
      (case arg_create a of
        Some (p, c) \<Rightarrow> create p (Some c) w
      | None \<Rightarrow>
      (case arg_publish a of
        Some (path, project, name, version, comment) \<Rightarrow>
          (case arg_type a of
             None \<Rightarrow> (say ''Please enter the type of data'' w, Inr ())
           | Some t \<Rightarrow> publish t path project name version comment w)
      | None \<Rightarrow>
      (case arg_get a of
        Some (project, dataset, version, dir) \<Rightarrow> get project dataset version dir w
      | None \<Rightarrow>
      if arg_lscreds a then lscreds w
      else (say help_text w, Inr ()))))))))"

text \<open>
  \<^verbatim>\<open>except ConfigError as e: print e.msg\<close> (librarian.py:229-230): the message
  of a \<^verbatim>\<open>ConfigError\<close> is printed and the program ends normally; every other
  exception ends it with a traceback, after the effects already done.
\<close>

definition main_run :: "cli_args \<Rightarrow> (world, unit) exc" where
  "main_run a w =
     (case dispatch a w of
        (w', Inl (ConfigError msg)) \<Rightarrow> (say msg w', Inr ())
      | r \<Rightarrow> r)"

subsection \<open>Invocations\<close>

text \<open>
  One run of the program with any command line, the clock having moved to \<open>t\<close>.
  The ledger, the store, the local tree and the config file carry over from one run
  to the next.
\<close>

inductive invocation :: "world \<Rightarrow> world \<Rightarrow> bool" where
  run: "invocation w (fst (main_run a (w\<lparr>clock := t\<rparr>)))"

inductive_cases invocationE: "invocation w w'"

end
