(* ===== verification/ServedUrls.thy ===== *)
theory ServedUrls
  imports StorageS3
begin

text \<open>
  Which URLs the object store serves. A URL is \<open>served\<close> when the first object
  whose \<^verbatim>\<open>generate_url\<close> it is (the one \<open>http_get\<close> finds) is open to the public,
  so that \<^verbatim>\<open>urllib.urlretrieve\<close> receives the object's bytes and not an S3 error
  document. S3 bucket names contain neither a slash nor whitespace (\<open>bucket_ok\<close>); for
  such buckets \<^verbatim>\<open>generate_url\<close> is injective, a stored object keeps its URL served
  when other keys are written, and an upload leaves every URL it returns served.
\<close>

text \<open>S3's bucket naming rules, as far as URLs depend on them.\<close>

definition bucket_ok :: "string \<Rightarrow> bool" where
  "bucket_ok b \<longleftrightarrow> CHR ''/'' \<notin> set b \<and> (\<forall>c \<in> set b. \<not> is_space c)"

lemma append_slash_inj:
  "CHR ''/'' \<notin> set b \<Longrightarrow> CHR ''/'' \<notin> set b' \<Longrightarrow> b @ CHR ''/'' # x = b' @ CHR ''/'' # y \<Longrightarrow> b = b' \<and> x = y"
proof (induction b arbitrary: b')
  case Nil then show ?case by (cases b') auto
next
  case (Cons c b) then show ?case by (cases b') auto
qed

lemma generate_url_inj:
  assumes "bucket_ok b" and "bucket_ok b'" and "generate_url b k = generate_url b' k'"
  shows "b = b' \<and> k = k'"
proof -
  from assms(3) have "b @ CHR ''/'' # url_quote k = b' @ CHR ''/'' # url_quote k'"
    by (simp add: generate_url_def)
  with assms(1,2) append_slash_inj have "b = b' \<and> url_quote k = url_quote k'"
    unfolding bucket_ok_def by blast
  with url_quote_inj show ?thesis by blast
qed

subsection \<open>Served URLs\<close>

definition served :: "s3_service \<Rightarrow> url \<Rightarrow> bool" where
  "served s u =
     (case find (\<lambda>((b, k), ob). generate_url b k = u) (s3_objects s) of
        None \<Rightarrow> False
      | Some (_, ob) \<Rightarrow> obj_public ob)"

definition objects_ok :: "s3_service \<Rightarrow> bool" where
  "objects_ok s \<longleftrightarrow> (\<forall>((b, k), ob) \<in> set (s3_objects s). bucket_ok b)"

text \<open>The map \<open>set_acl_public\<close> applies to the object list.\<close>

abbreviation open_acl :: "string \<times> key \<Rightarrow> (string \<times> key) \<times> s3_object \<Rightarrow> (string \<times> key) \<times> s3_object" where
  "open_acl bk0 \<equiv> (\<lambda>(bk, ob). (bk, if bk = bk0 then ob\<lparr>obj_public := True\<rparr> else ob))"

lemma find_open_acl_other:
  "generate_url b k \<noteq> u \<Longrightarrow>
   find (\<lambda>((b', k'), ob). generate_url b' k' = u) (map (open_acl (b, k)) xs)
   = find (\<lambda>((b', k'), ob). generate_url b' k' = u) xs"
  by (induction xs) auto

text \<open>
  Writing and opening key \<open>(b, k)\<close> makes its URL resolve to the new public object
  and leaves what every other URL resolves to unchanged.
\<close>

lemma find_put:
  assumes "\<forall>((b', k'), ob) \<in> set xs. bucket_ok b'" and "bucket_ok b"
  shows "find (\<lambda>((b', k'), ob). generate_url b' k' = u) (map (open_acl (b, k)) (upd_alist (b, k) obn xs))
    = (if generate_url b k = u then Some ((b, k), obn\<lparr>obj_public := True\<rparr>)
       else find (\<lambda>((b', k'), ob). generate_url b' k' = u) xs)"
  using assms(1)
proof (induction xs)
  case (Cons e xs)
  obtain b' k' ob where e: "e = ((b', k'), ob)" by (cases e) auto
  have ok': "bucket_ok b'" using Cons.prems e by auto
  show ?case
  proof (cases "(b', k') = (b, k)")
    case True
    then show ?thesis using e find_open_acl_other [of b k u] by auto
  next
    case False
    have "generate_url b k \<noteq> u" if "generate_url b' k' = u"
      using generate_url_inj [OF ok' assms(2), of k' k] that False by auto
    then show ?thesis using e False Cons by auto
  qed
qed simp

lemma served_put:
  assumes "objects_ok s" and "bucket_ok b"
  shows "served (set_acl_public b k (set_contents b k d s)) u \<longleftrightarrow> generate_url b k = u \<or> served s u"
proof -
  have "find (\<lambda>((b', k'), ob). generate_url b' k' = u) (s3_objects (set_acl_public b k (set_contents b k d s)))
    = (if generate_url b k = u then Some ((b, k), \<lparr>obj_data = d, obj_public = True\<rparr>)
       else find (\<lambda>((b', k'), ob). generate_url b' k' = u) (s3_objects s))"
    using find_put [where xs = "s3_objects s" and b = b and k = k and u = u
        and obn = "\<lparr>obj_data = d, obj_public = False\<rparr>"] assms
    by (simp add: set_acl_public_def set_contents_def objects_ok_def)
  then show ?thesis by (simp add: served_def)
qed

lemma objects_ok_put:
  "objects_ok s \<Longrightarrow> bucket_ok b \<Longrightarrow> objects_ok (set_acl_public b k (set_contents b k d s))"
  using set_upd_alist [of "(b, k)" _ "s3_objects s"]
  by (fastforce simp: objects_ok_def set_acl_public_def set_contents_def)

subsection \<open>Uploads keep URLs served\<close>

lemma upload_files_served:
  assumes "upload_files st fs lp sd files (us0, cs0) s = (s', r)"
    and "bucket_ok (bucketname st)" and "objects_ok s"
  shows "objects_ok s' \<and> (\<forall>u. served s u \<longrightarrow> served s' u)
    \<and> (\<forall>us cs. r = Inr (us, cs) \<longrightarrow> (\<forall>u \<in> set us0. served s u) \<longrightarrow> (\<forall>u \<in> set us. served s' u))"
  using assms(1,3)
proof (induction files arbitrary: us0 cs0 s)
  case Nil
  then have "s' = s \<and> r = Inr (us0, cs0)" by (simp only: upload_files.simps prod.inject)
  with Nil.prems show ?case by simp
next
  case (Cons f files)
  let ?b = "bucketname st" and ?k = "sd @ drop (length lp) f"
  from Cons.prems(1) show ?case
  proof (cases rule: upload_files_ConsE)
    case failed
    with Cons.prems(2) show ?thesis by auto
  next
    case (sent d)
    let ?s1 = "set_acl_public ?b ?k (set_contents ?b ?k d s)"
    have ok1: "objects_ok ?s1" using objects_ok_put [OF Cons.prems(2) assms(2)] .
    have sv: "served ?s1 u \<longleftrightarrow> generate_url ?b ?k = u \<or> served s u" for u
      using served_put [OF Cons.prems(2) assms(2)] .
    note IH = Cons.IH [OF sent(3) ok1]
    show ?thesis
    proof (intro conjI allI impI ballI)
      show "objects_ok s'" using IH by blast
    next
      fix u assume "served s u"
      then show "served s' u" using IH sv by blast
    next
      fix us cs u assume r: "r = Inr (us, cs)" and old: "\<forall>u \<in> set us0. served s u"
        and u: "u \<in> set us"
      have "\<forall>u \<in> set (us0 @ [generate_url ?b ?k]). served ?s1 u" using old sv by auto
      with IH r u show "served s' u" by blast
    qed
  qed
qed

definition buckets_ok :: "s3_service \<Rightarrow> bool" where
  "buckets_ok s \<longleftrightarrow> (\<forall>b \<in> set (s3_buckets s). bucket_ok b)"

lemma get_bucket_ok: "get_bucket st s = Inr () \<Longrightarrow> buckets_ok s \<Longrightarrow> bucket_ok (bucketname st)"
  by (auto simp: get_bucket_def buckets_ok_def split: if_splits option.splits)

lemma upload_served:
  assumes up: "upload st fs lp p ds ts s = (s', r)" and "buckets_ok s" and "objects_ok s"
  shows "buckets_ok s' \<and> objects_ok s' \<and> (\<forall>u. served s u \<longrightarrow> served s' u)
    \<and> (\<forall>us cs. r = Inr (us, cs) \<longrightarrow>
         (\<forall>u \<in> set us. served s' u \<and> u \<noteq> [] \<and> (\<forall>c \<in> set u. \<not> is_space c)))"
proof (cases "get_bucket st s")
  case (Inr x)
  then have gb: "get_bucket st s = Inr ()" by simp
  have bok: "bucket_ok (bucketname st)" using get_bucket_ok [OF gb assms(2)] .
  show ?thesis
  proof (cases "list_files_at fs lp")
    case (Inr files)
    let ?sd = "py_join ''/'' [p, ds, ts]"
    from up gb Inr have uf: "upload_files st fs lp ?sd files ([], []) s = (s', r)"
      by (simp add: upload_def)
    note S = upload_files_served [OF uf bok assms(3)]
    have fr: "s3_buckets s' = s3_buckets s" using upload_files_frame [OF uf] by simp
    have sp: "u \<noteq> [] \<and> (\<forall>c \<in> set u. \<not> is_space c)" if "r = Inr (us, cs)" "u \<in> set us" for us cs u
    proof -
      from uf that(1) have "upload_files st fs lp ?sd files ([], []) s = (s', Inr (us, cs))" by simp
      from upload_files_Inr [OF this] that(2) obtain f where u: "u = generate_url (bucketname st) (?sd @ drop (length lp) f)"
        by auto
      have nb: "\<forall>c \<in> set (bucketname st). \<not> is_space c" using bok by (simp add: bucket_ok_def)
      show ?thesis unfolding u by (rule generate_url_no_space [OF nb])
    qed
    have b': "buckets_ok s'" using fr assms(2) by (simp add: buckets_ok_def)
    have n: "\<forall>us cs. r = Inr (us, cs) \<longrightarrow> (\<forall>u \<in> set us. served s' u)"
      using conjunct2 [OF conjunct2 [OF S]] by simp
    have "\<forall>us cs. r = Inr (us, cs) \<longrightarrow>
         (\<forall>u \<in> set us. served s' u \<and> u \<noteq> [] \<and> (\<forall>c \<in> set u. \<not> is_space c))"
      using n sp by simp
    with b' conjunct1 [OF S] conjunct1 [OF conjunct2 [OF S]] show ?thesis by (intro conjI)
  next
    case (Inl e)
    with gb have u: "upload st fs lp p ds ts s = (s, Inl e)" by (simp add: upload_def)
    have "s' = s \<and> r = Inl e" using exc_result_eq [OF trans [OF u [symmetric] up]] .
    with assms(2,3) show ?thesis by simp
  qed
next
  case (Inl e)
  then have u: "upload st fs lp p ds ts s = (s, Inl e)" by (simp add: upload_def)
  have "s' = s \<and> r = Inl e" using exc_result_eq [OF trans [OF u [symmetric] up]] .
  with assms(2,3) show ?thesis by simp
qed

text \<open>What \<open>http_get\<close> returns for a served URL.\<close>

lemma served_http_get:
  assumes "served s u" and "s3_online s"
  shows "\<exists>b k ob. ((b, k), ob) \<in> set (s3_objects s) \<and> generate_url b k = u \<and> obj_public ob
     \<and> http_get s u = Inr (obj_data ob)"
proof -
  obtain b k ob where f: "find (\<lambda>((b, k), ob). generate_url b k = u) (s3_objects s) = Some ((b, k), ob)"
    and "obj_public ob"
    using assms(1) by (auto simp: served_def split: option.splits)
  moreover from f have "((b, k), ob) \<in> set (s3_objects s) \<and> generate_url b k = u"
    using find_Some_mem [OF f] by simp
  ultimately show ?thesis using assms(2) by (auto simp: http_get_def)
qed

subsection \<open>What a stored object answers\<close>

lemma find_generate_url:
  assumes "objects_ok s" and "bucket_ok b"
  shows "find (\<lambda>((b', k'), ob'). generate_url b' k' = generate_url b k) (s3_objects s)
       = find (\<lambda>e. fst e = (b, k)) (s3_objects s)"
proof (rule find_cong [OF refl], goal_cases)
  case (1 e)
  then have e: "e \<in> set (s3_objects s)" .
  obtain b' k' ob' where ee: "e = ((b', k'), ob')" by (cases e) auto
  from e ee assms(1) have "bucket_ok b'" by (auto simp: objects_ok_def)
  then have "generate_url b' k' = generate_url b k \<longleftrightarrow> (b', k') = (b, k)"
    using assms(2) generate_url_inj by blast
  then show ?case by (simp add: ee)
qed


lemma find_fst_map_of: "map_of xs k = Some v \<Longrightarrow> find (\<lambda>e. fst e = k) xs = Some (k, v)"
  by (induction xs) (auto split: if_splits)


lemma http_get_stored:
  assumes "objects_ok s" and "bucket_ok b" and "s3_online s"
    and "map_of (s3_objects s) (b, k) = Some ob" and "obj_public ob"
  shows "http_get s (generate_url b k) = Inr (obj_data ob)"
  using find_generate_url [OF assms(1,2), of k] find_fst_map_of [OF assms(4)] assms(3,5)
  by (simp add: http_get_def)

end
