(* ===== verification/Consistency.thy ===== *)
theory Consistency
  imports Dispatch ServedUrls
begin

text \<open>
  The consistency of the ledger with the store over any sequence of invocations of
  the program. \<open>recorded_urls\<close> are the URLs of every row of both tables as
  \<^verbatim>\<open>fetch\<close> reads them (the \<^verbatim>\<open>urls\<close> column split at whitespace);
  \<open>consistent\<close> says the store's buckets and objects are well named and every
  recorded URL is served. Each command function keeps \<open>ledger_inv\<close> and
  \<open>consistent\<close>: \<^verbatim>\<open>publish\<close> because it records only after a complete upload and
  the URL column splits back into the uploaded URLs, \<^verbatim>\<open>create\<close> because it adds
  no row, the others because they change neither ledger nor store. \<open>dispatch_preserves\<close>
  lifts such per-command facts to \<open>dispatch\<close>, and rule induction over
  \<open>invocation\<^sup>*\<^sup>*\<close> to every reachable world.
\<close>

subsection \<open>The invariant\<close>

definition recorded_urls :: "ledger \<Rightarrow> url list" where
  "recorded_urls L = concat (map (\<lambda>r. py_split (row_urls r)) (incoming L @ outgoing L))"

definition consistent :: "ledger \<Rightarrow> s3_service \<Rightarrow> bool" where
  "consistent L s \<longleftrightarrow> buckets_ok s \<and> objects_ok s \<and> (\<forall>u \<in> set (recorded_urls L). served s u)"

lemma upload_consistent:
  "upload st fs lp p ds ts s = (s', r) \<Longrightarrow> consistent L s \<Longrightarrow> consistent L s'"
  using upload_served [of st fs lp p ds ts s s' r] by (auto simp: consistent_def)

lemma addInOrOut_recorded:
  assumes "addInOrOut p n v t u c m cm un h inc L = (L', r)"
  shows "set (recorded_urls L') \<subseteq> set (recorded_urls L) \<union> set (py_split u)"
  using assms
  by (auto simp: addInOrOut_def recorded_urls_def Let_def split: if_splits option.splits sum.splits)

lemma record_consistent:
  assumes up: "upload st fs lp p ds ts s = (s', Inr (urls, cks))" and c: "consistent L s"
    and add: "addInOrOut pr n v t (py_join ''\<newline>'' urls) cs m cm un h inc L = (L', r)"
  shows "consistent L' s'"
proof -
  from c have "buckets_ok s" "objects_ok s" by (simp_all add: consistent_def)
  note U = upload_served [OF up this]
  have new: "served s' u \<and> u \<noteq> [] \<and> (\<forall>c \<in> set u. \<not> is_space c)" if "u \<in> set urls" for u
    using conjunct2 [OF conjunct2 [OF conjunct2 [OF U]], rule_format, OF refl that] .
  have sp: "py_split (py_join ''\<newline>'' urls) = urls"
    using new by (intro py_split_py_join_lines) simp
  have old: "served s' u" if "u \<in> set (recorded_urls L)" for u
    using c that conjunct1 [OF conjunct2 [OF conjunct2 [OF U]]] by (simp add: consistent_def)
  have "served s' u" if "u \<in> set (recorded_urls L')" for u
  proof -
    from that addInOrOut_recorded [OF add] sp have "u \<in> set (recorded_urls L) \<or> u \<in> set urls"
      by auto
    with old new show ?thesis by blast
  qed
  with conjunct1 [OF U] conjunct1 [OF conjunct2 [OF U]] show ?thesis by (simp add: consistent_def)
qed

subsection \<open>Each command keeps the invariants\<close>

lemma publish_consistent:
  assumes "consistent (ledger w) (store w)"
  shows "consistent (ledger (fst (publish io lp p n v cm w))) (store (fst (publish io lp p n v cm w)))"
  using assms
  by (auto simp: publish_def Let_def split: sum.splits prod.splits
      intro: upload_consistent record_consistent)

lemma publish_ledger_inv:
  "ledger_inv (ledger w) \<Longrightarrow> ledger_inv (ledger (fst (publish io lp p n v cm w)))"
  by (auto simp: publish_def Let_def split: sum.splits prod.splits intro: addInOrOut_inv)

lemma consistent_rows:
  "incoming L' = incoming L \<Longrightarrow> outgoing L' = outgoing L \<Longrightarrow> consistent L' s = consistent L s"
  by (simp add: consistent_def recorded_urls_def)

lemma create_frame:
  "store (fst (create p c w)) = store w \<and> incoming (ledger (fst (create p c w))) = incoming (ledger w)
   \<and> outgoing (ledger (fst (create p c w))) = outgoing (ledger w)"
  by (auto simp: create_def createProject_def split: sum.splits prod.splits)

lemma create_ledger_inv:
  "ledger_inv (ledger w) \<Longrightarrow> ledger_inv (ledger (fst (create p c w)))"
  by (auto simp: create_def split: sum.splits prod.splits intro: createProject_inv)

lemma create_consistent:
  assumes "consistent (ledger w) (store w)"
  shows "consistent (ledger (fst (create p c w))) (store (fst (create p c w)))"
proof -
  have "consistent (ledger (fst (create p c w))) (store w) = consistent (ledger w) (store w)"
    using create_frame [of p c w] by (intro consistent_rows) simp_all
  with assms create_frame [of p c w] show ?thesis by simp
qed

lemma get_frame: "ledger (fst (get p d v lp w)) = ledger w \<and> store (fst (get p d v lp w)) = store w"
  by (auto simp: get_def split: sum.splits prod.splits)

lemma config_frame:
  "ledger (fst (configInit w)) = ledger w \<and> store (fst (configInit w)) = store w"
  "ledger (fst (addCredentials n c w)) = ledger w \<and> store (fst (addCredentials n c w)) = store w"
  by (auto simp: configInit_def addCredentials_def saveConfig_def split: sum.splits)

lemma listing_frame:
  "ledger (fst (projectLs_cmd w)) = ledger w \<and> store (fst (projectLs_cmd w)) = store w"
  "ledger (fst (ls_cmd p w)) = ledger w \<and> store (fst (ls_cmd p w)) = store w"
  "ledger (fst (lscreds w)) = ledger w \<and> store (fst (lscreds w)) = store w"
proof -
  show "ledger (fst (projectLs_cmd w)) = ledger w \<and> store (fst (projectLs_cmd w)) = store w"
  proof -
    have "ledger (fold say xs w') = ledger w' \<and> store (fold say xs w') = store w'" for xs w'
      by (rule fold_say_frame) blast
    then show ?thesis by (auto simp: projectLs_cmd_def Let_def split: sum.splits)
  qed
  show "ledger (fst (ls_cmd p w)) = ledger w \<and> store (fst (ls_cmd p w)) = store w"
  proof -
    have "ledger (fold (say \<circ> ls_line) xs w') = ledger w' \<and> store (fold (say \<circ> ls_line) xs w') = store w'"
      for xs w' by (rule fold_say_frame) auto
    then show ?thesis by (auto simp: ls_cmd_def Let_def split: sum.splits)
  qed
  have "ledger (fold (\<lambda>(name, cred). say (''  '' @ name @ '' '' @ repr_dict cred)) xs w') = ledger w'
     \<and> store (fold (\<lambda>(name, cred). say (''  '' @ name @ '' '' @ repr_dict cred)) xs w') = store w'"
    for xs w'
  proof (rule fold_say_frame)
    show "\<exists>l. (\<lambda>(name, cred). say (''  '' @ name @ '' '' @ repr_dict cred)) x = say l" for x
      by (cases x) auto
  qed
  then show "ledger (fst (lscreds w)) = ledger w \<and> store (fst (lscreds w)) = store w"
    by (auto simp: lscreds_def split: sum.splits)
qed

lemma cfg_file_frame:
  "cfg_file (fst (projectLs_cmd w)) = cfg_file w" "cfg_file (fst (ls_cmd p w)) = cfg_file w"
  "cfg_file (fst (lscreds w)) = cfg_file w" "cfg_file (fst (create p c' w)) = cfg_file w"
  "cfg_file (fst (publish t lp p n v cm w)) = cfg_file w" "cfg_file (fst (get p d v lp w)) = cfg_file w"
proof -
  have a: "cfg_file (fold say xs w') = cfg_file w'" for xs w'
    by (induction xs arbitrary: w') simp_all
  have b: "cfg_file (fold (say \<circ> ls_line) xs w') = cfg_file w'" for xs w'
    by (induction xs arbitrary: w') simp_all
  have c: "cfg_file (fold (\<lambda>(name, cred). say (''  '' @ name @ '' '' @ repr_dict cred)) xs w') = cfg_file w'"
    for xs w' by (induction xs arbitrary: w') auto
  show "cfg_file (fst (projectLs_cmd w)) = cfg_file w" using a
    by (auto simp: projectLs_cmd_def Let_def split: sum.splits)
  show "cfg_file (fst (ls_cmd p w)) = cfg_file w" using b
    by (auto simp: ls_cmd_def Let_def split: sum.splits)
  show "cfg_file (fst (lscreds w)) = cfg_file w" using c
    by (auto simp: lscreds_def split: sum.splits)
  show "cfg_file (fst (create p c' w)) = cfg_file w"
    by (auto simp: create_def split: sum.splits prod.splits)
  show "cfg_file (fst (publish t lp p n v cm w)) = cfg_file w"
    by (auto simp: publish_def Let_def split: sum.splits prod.splits)
  show "cfg_file (fst (get p d v lp w)) = cfg_file w"
    by (auto simp: get_def split: sum.splits prod.splits)
qed

subsection \<open>The dispatch and the invocations keep them\<close>

lemma main_run_say:
  "fst (main_run a w) = fst (dispatch a w) \<or> (\<exists>msg. fst (main_run a w) = say msg (fst (dispatch a w)))"
  by (auto simp: main_run_def split: prod.split sum.split error.split)

lemma main_run_core:
  "ledger (fst (main_run a w)) = ledger (fst (dispatch a w))
   \<and> store (fst (main_run a w)) = store (fst (dispatch a w))"
  by (simp add: main_run_def split: prod.split sum.split error.split)

lemma dispatch_preserves_cases:
  assumes "Q w" and "\<And>l. Q (say l w)" and "arg_init a \<Longrightarrow> Q (fst (configInit w))"
    and "\<And>n c. arg_set_aws_cred a \<noteq> None \<or> arg_set_mysql_cred a \<noteq> None \<Longrightarrow> Q (fst (addCredentials n c w))"
    and "Q (fst (projectLs_cmd w))" and "\<And>p. Q (fst (ls_cmd p w))"
    and "\<And>p c. arg_create a \<noteq> None \<Longrightarrow> Q (fst (create p c w))"
    and "\<And>t lp p n v cm. arg_publish a \<noteq> None \<Longrightarrow> Q (fst (publish t lp p n v cm w))"
    and "\<And>p d v lp. arg_get a \<noteq> None \<Longrightarrow> Q (fst (get p d v lp w))" and "Q (fst (lscreds w))"
  shows "Q (fst (dispatch a w))"
  unfolding dispatch_def by (simp add: assms split: option.split prod.split)

lemma dispatch_preserves:
  assumes "Q w" and "\<And>l. Q (say l w)" and "Q (fst (configInit w))"
    and "\<And>n c. Q (fst (addCredentials n c w))" and "Q (fst (projectLs_cmd w))"
    and "\<And>p. Q (fst (ls_cmd p w))" and "\<And>p c. Q (fst (create p c w))"
    and "\<And>t lp p n v cm. Q (fst (publish t lp p n v cm w))"
    and "\<And>p d v lp. Q (fst (get p d v lp w))" and "Q (fst (lscreds w))"
  shows "Q (fst (dispatch a w))"
  by (rule dispatch_preserves_cases) (simp_all add: assms)

lemma dispatch_ledger_inv:
  assumes "ledger_inv (ledger w)"
  shows "ledger_inv (ledger (fst (dispatch a w)))"
  by (rule dispatch_preserves [where Q = "\<lambda>w. ledger_inv (ledger w)"])
    (use assms in \<open>simp_all add: config_frame listing_frame get_frame publish_ledger_inv create_ledger_inv\<close>)

lemma dispatch_consistent:
  assumes "consistent (ledger w) (store w)"
  shows "consistent (ledger (fst (dispatch a w))) (store (fst (dispatch a w)))"
  by (rule dispatch_preserves [where Q = "\<lambda>w. consistent (ledger w) (store w)"])
    (use assms in \<open>simp_all add: config_frame listing_frame get_frame publish_consistent
      create_consistent\<close>)

lemma invocation_ledger_inv: "invocation w w' \<Longrightarrow> ledger_inv (ledger w) \<Longrightarrow> ledger_inv (ledger w')"
  by (erule invocationE) (use dispatch_ledger_inv main_run_core in fastforce)

lemma invocation_consistent:
  "invocation w w' \<Longrightarrow> consistent (ledger w) (store w) \<Longrightarrow> consistent (ledger w') (store w')"
  by (erule invocationE) (use dispatch_consistent main_run_core in fastforce)

subsection \<open>Reachable worlds\<close>

text \<open>
  C2. In every world reachable by invocations of the program from a world whose
  ledger satisfies \<open>ledger_inv\<close> (unique project names and ids, rows that refer to
  projects, unique row ids), the ledger still satisfies it, whatever the command
  lines and however they fail.
\<close>

theorem reachable_ledger_inv:
  assumes "invocation\<^sup>*\<^sup>* w0 w" and "ledger_inv (ledger w0)"
  shows "ledger_inv (ledger w)"
  using assms by (induction rule: rtranclp_induct) (auto intro: invocation_ledger_inv)

text \<open>
  C1. Ledger-store consistency: in every world reachable from a consistent one
  (in particular from an empty ledger), every URL a row of the ledger records is the
  URL of a public object of the store, and while the store is online downloading
  it returns that object's bytes, never an S3 error document. Partial uploads,
  refused records and failed commands leave no recorded URL dangling.
\<close>

theorem recorded_urls_downloadable:
  assumes "invocation\<^sup>*\<^sup>* w0 w" and "consistent (ledger w0) (store w0)"
    and "u \<in> set (recorded_urls (ledger w))" and "s3_online (store w)"
  shows "\<exists>b k ob. ((b, k), ob) \<in> set (s3_objects (store w)) \<and> generate_url b k = u \<and> obj_public ob
     \<and> http_get (store w) u = Inr (obj_data ob)"
proof -
  from assms(1,2) have "consistent (ledger w) (store w)"
    by (induction rule: rtranclp_induct) (auto intro: invocation_consistent)
  with assms(3) have "served (store w) u" by (simp add: consistent_def)
  from served_http_get [OF this assms(4)] show ?thesis .
qed

subsection \<open>A publishing run\<close>

text \<open>
  A world with credentials for both services, the project \<^verbatim>\<open>memex\<close>, and the
  tree of \<open>demo_tree\<close>; the command line \<^verbatim>\<open>--publish data memex ads v1 first --type in\<close>.
\<close>

definition demo_config :: config where
  "demo_config =
     [(''mysql'', [(''host'', ''db''), (''port'', ''3306''), (''user'', ''alice''), (''password'', ''pw'')]),
      (''aws'', [(''access_key_id'', ''AKID''), (''secret_access_key'', ''SECRET'')])]"

definition demo_world :: world where
  "demo_world = \<lparr>cfg_file = Some demo_config, ledger = demo_ledger,
     db_accepts = (\<lambda>h p u pw. h = ''db'' \<and> p = 3306 \<and> u = ''alice'' \<and> pw = ''pw''),
     store = demo_svc, local_fs = demo_tree, clock = demo_clock, stdout = []\<rparr>"

definition demo_publish :: cli_args where
  "demo_publish = no_args\<lparr>arg_publish := Some (''data'', ''memex'', ''ads'', ''v1'', ''first''),
     arg_type := Some ''in''\<rparr>"

lemma demo_db: "get_db_access demo_world = Inr \<lparr>db_user = ''alice'', db_pswd = ''pw'', db_host = ''db'', db_port = 3306\<rparr>"
  by (simp add: get_db_access_def loadConfig_def demo_world_def demo_config_def dict_get_def
      dbconn_init_def py_int_def py_strip_def is_digit_def is_space_def parse_nat_def)

lemma demo_s3: "get_s3_access demo_world = Inr demo_storage"
  by (simp add: get_s3_access_def loadConfig_def demo_world_def demo_config_def dict_get_def
      storage_init_def demo_storage_def)

definition demo_key_a :: key where
  "demo_key_a = ''memex/ads/ads-20240517-090307000042/a.txt''"

definition demo_key_b :: key where
  "demo_key_b = ''memex/ads/ads-20240517-090307000042/sub/b.txt''"

definition demo_urls :: "url list" where
  "demo_urls = [''https://s3.amazonaws.com/librarian_upload_test/memex/ads/ads-20240517-090307000042/a.txt'',
     ''https://s3.amazonaws.com/librarian_upload_test/memex/ads/ads-20240517-090307000042/sub/b.txt'']"

definition demo_svc_after :: s3_service where
  "demo_svc_after = demo_svc\<lparr>s3_objects :=
     [((''librarian_upload_test'', demo_key_a), \<lparr>obj_data = ''alpha'', obj_public = True\<rparr>),
      ((''librarian_upload_test'', demo_key_b), \<lparr>obj_data = ''beta'', obj_public = True\<rparr>)]\<rparr>"

definition demo_row :: data_row where
  "demo_row = \<lparr>row_id = 1, row_project = 1, row_name = ''ads'', row_version = ''v1'',
     row_timestamp = demo_clock, row_urls = py_join ''\<newline>'' demo_urls,
     row_checksums = py_join ''\<newline>'' [[], []], row_metadata_url = [], row_comments = ''first'',
     row_username = ''testuser'', row_hostname = ''testhost''\<rparr>"

lemma demo_up: "upload demo_storage demo_tree ''data'' ''memex'' ''ads'' ''ads-20240517-090307000042'' demo_svc
  = (demo_svc_after, Inr (demo_urls, [[], []]))"
  by (simp add: model_simps demo_tree_def demo_svc_def demo_storage_def demo_svc_after_def
      demo_urls_def demo_key_a_def demo_key_b_def)

lemma demo_add: "addInOrOut ''memex'' ''ads'' ''v1'' demo_clock (py_join ''\<newline>'' demo_urls)
     (py_join ''\<newline>'' [[], []]) [] ''first'' ''testuser'' ''testhost'' True demo_ledger
   = (demo_ledger\<lparr>incoming := [demo_row]\<rparr>, Inr ())"
  by (simp add: addInOrOut_def projectLs_def demo_ledger_def demo_row_def next_id_def)

lemma demo_pub: "publish ''in'' ''data'' ''memex'' ''ads'' ''v1'' ''first'' demo_world
  = (say ''File(s) successfully uploaded''
      (demo_world\<lparr>store := demo_svc_after, ledger := demo_ledger\<lparr>incoming := [demo_row]\<rparr>\<rparr>), Inr ())"
proof -
  have w: "local_fs demo_world = demo_tree" "store demo_world = demo_svc" "clock demo_world = demo_clock"
    "ledger demo_world = demo_ledger"
    by (simp_all add: demo_world_def)
  have ex: "os_exists demo_tree ''data''"
    by (simp add: os_exists_def demo_tree_def os_lookup_def path_comps_def)
  have pl: "projectLs demo_ledger = Inr [''memex'']" by (simp add: projectLs_def demo_ledger_def)
  have nm: "''memex'' \<in> set [''memex'']" by simp
  have l2: "ledger (demo_world\<lparr>store := demo_svc_after\<rparr>) = demo_ledger" by (simp add: demo_world_def)
  show ?thesis
    apply (simp only: publish_def demo_db demo_s3 sum.case w ex not_True_eq_False if_False pl nm if_True Let_def)
    apply (simp only: strftime_demo_clock sum.case append_Cons append_Nil)
    apply (simp only: demo_up prod.case sum.case world.update_convs world.select_convs w simp_thms)
    apply (simp only: l2 demo_add prod.case sum.case)
    done
qed


lemma demo_run:
  "fst (main_run demo_publish (demo_world\<lparr>clock := demo_clock\<rparr>))
   = say ''File(s) successfully uploaded''
       (demo_world\<lparr>store := demo_svc_after, ledger := demo_ledger\<lparr>incoming := [demo_row]\<rparr>\<rparr>)"
proof -
  have c: "demo_world\<lparr>clock := demo_clock\<rparr> = demo_world" by (simp add: demo_world_def)
  have d: "dispatch demo_publish demo_world = publish ''in'' ''data'' ''memex'' ''ads'' ''v1'' ''first'' demo_world"
    by (simp add: dispatch_def demo_publish_def no_args_def)
  show ?thesis by (simp only: c main_run_def d demo_pub prod.case sum.case fst_conv)
qed

lemma demo_run_reachable:
  "invocation\<^sup>*\<^sup>* demo_world (fst (main_run demo_publish (demo_world\<lparr>clock := demo_clock\<rparr>)))"
  by (rule r_into_rtranclp) (rule invocation.run)

theorem reachable_ledger_inv_witness:
  "ledger_inv (ledger (fst (main_run demo_publish (demo_world\<lparr>clock := demo_clock\<rparr>))))
   \<and> incoming (ledger (fst (main_run demo_publish (demo_world\<lparr>clock := demo_clock\<rparr>)))) = [demo_row]"
proof -
  have h: "ledger_inv (ledger demo_world)"
    by (simp add: demo_world_def demo_ledger_def ledger_inv_def)
  from reachable_ledger_inv [OF demo_run_reachable h] demo_run show ?thesis by simp
qed

theorem recorded_urls_downloadable_witness:
  "\<exists>b k ob. ((b, k), ob) \<in> set (s3_objects (store (fst (main_run demo_publish (demo_world\<lparr>clock := demo_clock\<rparr>)))))
     \<and> generate_url b k = hd demo_urls \<and> obj_public ob
     \<and> http_get (store (fst (main_run demo_publish (demo_world\<lparr>clock := demo_clock\<rparr>)))) (hd demo_urls)
         = Inr (obj_data ob)"
proof -
  have h: "consistent (ledger demo_world) (store demo_world)"
    by (simp add: consistent_def buckets_ok_def bucket_ok_def objects_ok_def recorded_urls_def
        demo_world_def demo_ledger_def demo_svc_def is_space_def)
  have u: "hd demo_urls \<in> set (recorded_urls (ledger (fst (main_run demo_publish (demo_world\<lparr>clock := demo_clock\<rparr>)))))"
    by (simp add: demo_run recorded_urls_def demo_row_def demo_urls_def py_split_def is_space_def Let_def)
  have o: "s3_online (store (fst (main_run demo_publish (demo_world\<lparr>clock := demo_clock\<rparr>))))"
    by (simp add: demo_run demo_svc_after_def demo_svc_def)
  from recorded_urls_downloadable [OF demo_run_reachable h u o] show ?thesis .
qed

subsection \<open>Fetching what was published\<close>

text \<open>The published dataset fetched into a directory \<^verbatim>\<open>out\<close> that holds an older \<^verbatim>\<open>a.txt\<close>.\<close>

definition demo_target :: fsnode where
  "demo_target = Directory [(''out'', Directory [(''a.txt'', RegFile ''old'')])]"

lemma demo_fetch_urls: "fetch_urls (demo_ledger\<lparr>incoming := [demo_row]\<rparr>) ''memex'' ''ads'' ''v1'' = demo_urls"
  by (simp add: fetch_urls_def matching_urls_def demo_ledger_def demo_row_def demo_urls_def
      py_split_def is_space_def Let_def)

lemma demo_bodies:
  "url_body demo_svc_after (hd demo_urls) = ''alpha''"
  "url_body demo_svc_after (hd (tl demo_urls)) = ''beta''"
  by (simp_all add: url_body_def http_get_def demo_svc_after_def demo_svc_def demo_urls_def
      demo_key_a_def demo_key_b_def generate_url_def url_quote_def quote_char_def quote_safe_def
      always_safe_def)

theorem fetch_flattens_witness:
  "\<exists>fs'. fetch demo_svc_after (demo_ledger\<lparr>incoming := [demo_row]\<rparr>) ''memex'' ''ads'' ''v1'' ''out'' demo_target
      = (fs', Inr ''out'')
    \<and> os_lookup fs' ''out'' = Some (Directory [(''a.txt'', RegFile ''alpha''), (''b.txt'', RegFile ''beta'')])"
proof -
  have h1: "db_up (demo_ledger\<lparr>incoming := [demo_row]\<rparr>)" by (simp add: demo_ledger_def)
  have h2: "s3_online demo_svc_after" by (simp add: demo_svc_after_def demo_svc_def)
  have h3: "os_lookup demo_target ''out'' = Some (Directory [(''a.txt'', RegFile ''old'')])"
    by (simp add: demo_target_def os_lookup_def path_comps_def)
  have h4: "\<forall>u \<in> set (fetch_urls (demo_ledger\<lparr>incoming := [demo_row]\<rparr>) ''memex'' ''ads'' ''v1'').
      CHR ''/'' \<in> set u \<and> url_base u \<noteq> [] \<and> writable_entry [(''a.txt'', RegFile ''old'')] (url_base u)"
    by (simp add: demo_fetch_urls demo_urls_def url_base_def writable_entry_def)
  have d: "downloaded demo_svc_after demo_urls [(''a.txt'', RegFile ''old'')]
      = [(''a.txt'', RegFile ''alpha''), (''b.txt'', RegFile ''beta'')]"
    using demo_bodies by (simp add: downloaded_def demo_urls_def url_base_def)
  from fetch_flattens [OF h1 h2 h3 h4] show ?thesis by (simp only: demo_fetch_urls d)
qed

subsection \<open>What a run writes to the local tree\<close>

lemma local_fs_frame:
  "local_fs (fst (configInit w)) = local_fs w" "local_fs (fst (addCredentials n c w)) = local_fs w"
  "local_fs (fst (projectLs_cmd w)) = local_fs w" "local_fs (fst (ls_cmd p w)) = local_fs w"
  "local_fs (fst (lscreds w)) = local_fs w" "local_fs (fst (create p c' w)) = local_fs w"
  "local_fs (fst (publish t lp p n v cm w)) = local_fs w"
proof -
  have a: "local_fs (fold say xs w') = local_fs w'" for xs w' by (rule fold_say_local_fs) blast
  have b: "local_fs (fold (say \<circ> ls_line) xs w') = local_fs w'" for xs w' by (rule fold_say_local_fs) auto
  have c: "local_fs (fold (\<lambda>(name, cred). say (''  '' @ name @ '' '' @ repr_dict cred)) xs w') = local_fs w'"
    for xs w'
  proof (rule fold_say_local_fs)
    show "\<exists>l. (\<lambda>(name, cred). say (''  '' @ name @ '' '' @ repr_dict cred)) x = say l" for x
      by (cases x) auto
  qed
  show "local_fs (fst (configInit w)) = local_fs w" "local_fs (fst (addCredentials n c w)) = local_fs w"
    by (auto simp: configInit_def addCredentials_def saveConfig_def split: sum.splits)
  show "local_fs (fst (projectLs_cmd w)) = local_fs w" using a
    by (auto simp: projectLs_cmd_def Let_def split: sum.splits)
  show "local_fs (fst (ls_cmd p w)) = local_fs w" using b
    by (auto simp: ls_cmd_def Let_def split: sum.splits)
  show "local_fs (fst (lscreds w)) = local_fs w" using c
    by (auto simp: lscreds_def split: sum.splits)
  show "local_fs (fst (create p c' w)) = local_fs w"
    by (auto simp: create_def split: sum.splits prod.splits)
  show "local_fs (fst (publish t lp p n v cm w)) = local_fs w"
    by (auto simp: publish_def Let_def split: sum.splits prod.splits)
qed

lemma get_local_frame:
  assumes "resolve (local_fs (fst (get p d v lp w))) ds \<noteq> resolve (local_fs w) ds"
  shows "prefix ds (path_comps lp) \<or> (\<exists>f. ds = path_comps lp @ [f])"
  using assms
  by (auto simp: get_def fetch_def Let_def split: sum.splits prod.splits if_splits
      dest: download_urls_frame)

lemma main_run_local_fs: "local_fs (fst (main_run a w)) = local_fs (fst (dispatch a w))"
  by (simp add: main_run_def split: prod.split sum.split error.split)

end
