(* ===== verification/SelfTest.thy ===== *)
theory SelfTest
  imports Consistency
begin

text \<open>
  The test script at the end of \<^verbatim>\<open>dbconn.py\<close>, a second entry point next to
  \<^verbatim>\<open>librarian.py\<close> that runs on the same world: the config file, the ledger, the
  store and the local tree. \<open>selftest\<close> is the whole script as one step of type
  \<open>(world, unit) exc\<close>, built from the models of the \<^verbatim>\<open>DBConn\<close> methods. The
  theorems give its error path without projects, that it leaves a ledger row whose
  URL the store does not serve, and that its keyword construction of \<^verbatim>\<open>DBConn\<close>
  agrees with the one of \<^verbatim>\<open>librarian.py\<close>.
\<close>

subsection \<open>What the script prints\<close>

text \<open>
  \<^verbatim>\<open>print\<close> of a list writes its \<^verbatim>\<open>repr\<close>: the \<^verbatim>\<open>repr\<close> of each element between
  brackets, separated by \<^verbatim>\<open>', '\<close>. The rows of \<^verbatim>\<open>ls\<close> are tuples
  \<^verbatim>\<open>(name, version, timestamp)\<close>, the strings as \<^verbatim>\<open>MySQLdb\<close> returns them (\<^verbatim>\<open>str\<close>),
  the timestamp a \<^verbatim>\<open>datetime\<close> whose \<^verbatim>\<open>repr\<close> lists its fields and drops a zero
  microsecond, then a zero second.
\<close>

definition repr_list :: "('a \<Rightarrow> string) \<Rightarrow> 'a list \<Rightarrow> string" where
  "repr_list f xs = ''['' @ py_join '', '' (map f xs) @ '']''"

definition repr_datetime :: "datetime \<Rightarrow> string" where
  "repr_datetime t =
     (let fields = [dt_year t, dt_month t, dt_day t, dt_hour t, dt_minute t, dt_second t, dt_microsecond t];
          f1 = (if last fields = 0 then butlast fields else fields);
          f2 = (if last f1 = 0 then butlast f1 else f1)
      in ''datetime.datetime('' @ py_join '', '' (map nat_digits f2) @ '')'')"

definition repr_ls_row :: "string \<times> string \<times> datetime \<Rightarrow> string" where
  "repr_ls_row r = (case r of (n, v, t) \<Rightarrow>
     ''('' @ repr_str n @ '', '' @ repr_str v @ '', '' @ repr_datetime t @ '')'')"

subsection \<open>The connection from keyword arguments\<close>

text \<open>
  \<^verbatim>\<open>DBConn(**cred)\<close> (dbconn.py:147, 159): a key that is not a parameter of
  \<^verbatim>\<open>__init__\<close> is a \<^verbatim>\<open>TypeError\<close>; a missing \<^verbatim>\<open>port\<close> takes the default 3306.
  A missing \<^verbatim>\<open>user\<close>, \<^verbatim>\<open>password\<close> or \<^verbatim>\<open>host\<close> is \<^verbatim>\<open>None\<close>, which the MySQL
  client passes on as "not given"; the model passes the empty string to the server's
  decision in its place. \<^verbatim>\<open>get_db_access\<close> instead raises \<^verbatim>\<open>KeyError\<close> for any of
  the four keys missing.
\<close>

definition dbconn_kwargs :: "(string \<Rightarrow> int \<Rightarrow> string \<Rightarrow> string \<Rightarrow> bool) \<Rightarrow> (string \<times> string) list
    \<Rightarrow> error + dbconn" where
  "dbconn_kwargs accepts kw =
     (if \<not> list_all (\<lambda>k. k \<in> set [''user'', ''password'', ''host'', ''port'']) (map fst kw)
      then Inl TypeError
      else dbconn_init accepts
             (case map_of kw ''user'' of Some u \<Rightarrow> u | None \<Rightarrow> [])
             (case map_of kw ''password'' of Some p \<Rightarrow> p | None \<Rightarrow> [])
             (case map_of kw ''host'' of Some h \<Rightarrow> h | None \<Rightarrow> [])
             (case map_of kw ''port'' of Some p \<Rightarrow> p | None \<Rightarrow> ''3306''))"

subsection \<open>The script\<close>

text \<open>
  The block under \<^verbatim>\<open>if __name__=='__main__'\<close> (dbconn.py:143-160), run as
  \<^verbatim>\<open>python dbconn.py\<close>: the config file is read with \<^verbatim>\<open>json.load(open(...))\<close>, so a
  missing file is an \<^verbatim>\<open>IOError\<close> (not the \<^verbatim>\<open>ConfigError\<close> of
  \<^verbatim>\<open>librarian.py\<close>); the MySQL credential is passed as keyword arguments; the
  project list is printed; the datasets of the first project are listed and printed
  (\<^verbatim>\<open>projects[0]\<close> of an empty list is an \<^verbatim>\<open>IndexError\<close>); a row \<^verbatim>\<open>test1\<close> with
  placeholder columns is added to \<^verbatim>\<open>OutgoingData\<close> under the first project at the
  current time; a second connection is opened and \<^verbatim>\<open>fetch\<close> retrieves the dataset
  \<^verbatim>\<open>test\<close> version \<^verbatim>\<open>0.0\<close> of \<^verbatim>\<open>project1\<close> into \<^verbatim>\<open>/home/abhinav/delete\<close>.
\<close>

definition selftest :: "(world, unit) exc" where
  "selftest w =
     (case cfg_file w of
        None \<Rightarrow> (w, Inl IOError)
      | Some c \<Rightarrow>
     (case dict_get c ''mysql'' KeyError of
        Inl e \<Rightarrow> (w, Inl e)
      | Inr cred \<Rightarrow>
     (case dbconn_kwargs (db_accepts w) cred of
        Inl e \<Rightarrow> (w, Inl e)
      | Inr conn \<Rightarrow>
     (case projectLs (ledger w) of
        Inl e \<Rightarrow> (w, Inl e)
      | Inr projects \<Rightarrow>
     let w1 = say (repr_list repr_str projects) w in
     (case projects of
        [] \<Rightarrow> (w1, Inl IndexError)
      | p0 # _ \<Rightarrow>
     (case ls (ledger w1) p0 of
        Inl e \<Rightarrow> (w1, Inl e)
      | Inr files \<Rightarrow>
     let w2 = say (repr_list repr_ls_row files) w1 in
     (case addInOrOut p0 ''test1'' ''0.0'' (clock w2) ''urls'' ''checksums'' ''meta_url''
             ''some comments'' ''dummyuser'' ''dummydomain'' False (ledger w2) of
        (L', Inl e) \<Rightarrow> (w2\<lparr>ledger := L'\<rparr>, Inl e)
      | (L', Inr _) \<Rightarrow>
     let w3 = w2\<lparr>ledger := L'\<rparr> in
     (case dbconn_kwargs (db_accepts w3) cred of
        Inl e \<Rightarrow> (w3, Inl e)
      | Inr conn' \<Rightarrow>
     (case fetch (store w3) (ledger w3) ''project1'' ''test'' ''0.0'' ''/home/abhinav/delete'' (local_fs w3) of
        (fs', Inl e) \<Rightarrow> (w3\<lparr>local_fs := fs'\<rparr>, Inl e)
      | (fs', Inr _) \<Rightarrow> (w3\<lparr>local_fs := fs'\<rparr>, Inr ()))))))))))"

subsection \<open>Runs of the script\<close>

text \<open>The row the script adds.\<close>

definition test_row :: "ledger \<Rightarrow> datetime \<Rightarrow> data_row" where
  "test_row L t = \<lparr>row_id = next_id (map row_id (outgoing L)), row_project = eng_id (hd (engagements L)),
     row_name = ''test1'', row_version = ''0.0'', row_timestamp = t, row_urls = ''urls'',
     row_checksums = ''checksums'', row_metadata_url = ''meta_url'', row_comments = ''some comments'',
     row_username = ''dummyuser'', row_hostname = ''dummydomain''\<rparr>"

text \<open>
  C25. When the ledger holds no engagement, the script prints \<^verbatim>\<open>[]\<close> and stops with
  an \<^verbatim>\<open>IndexError\<close> at \<^verbatim>\<open>projects[0]\<close>, before it changes the ledger, the store or
  the local tree.
\<close>

theorem selftest_no_projects:
  assumes "cfg_file w = Some c" and "dict_get c ''mysql'' KeyError = Inr cred"
    and "dbconn_kwargs (db_accepts w) cred = Inr conn"
    and "db_up (ledger w)" and "engagements (ledger w) = []"
  shows "selftest w = (say ''[]'' w, Inl IndexError)"
  using assms by (simp add: selftest_def projectLs_def repr_list_def)

lemma selftest_addInOrOut:
  assumes "db_up L" and "engagements L \<noteq> []"
  shows "addInOrOut (hd (map eng_name (engagements L))) ''test1'' ''0.0'' t ''urls'' ''checksums'' ''meta_url''
             ''some comments'' ''dummyuser'' ''dummydomain'' False L
       = (L\<lparr>outgoing := outgoing L @ [test_row L t]\<rparr>, Inr ())"
proof -
  obtain e es where E: "engagements L = e # es" using assms(2) by (cases "engagements L") auto
  then show ?thesis using assms(1) by (simp add: addInOrOut_def projectLs_def test_row_def)
qed

text \<open>
  With a listed project the script runs to the end: the ledger gains the row
  \<open>test_row\<close> in \<^verbatim>\<open>OutgoingData\<close>, the store is untouched (the fetch only reads it),
  and the two listings are printed.
\<close>

lemma selftest_effect:
  assumes "cfg_file w = Some c" and "dict_get c ''mysql'' KeyError = Inr cred"
    and "dbconn_kwargs (db_accepts w) cred = Inr conn"
    and "db_up (ledger w)" and "engagements (ledger w) \<noteq> []"
  shows "ledger (fst (selftest w)) =
           (ledger w)\<lparr>outgoing := outgoing (ledger w) @ [test_row (ledger w) (clock w)]\<rparr>
         \<and> store (fst (selftest w)) = store w
         \<and> stdout (fst (selftest w)) = stdout w @
              [repr_list repr_str (map eng_name (engagements (ledger w))),
               repr_list repr_ls_row (dataset_rows (incoming (ledger w)) (engagements (ledger w))
                   (hd (map eng_name (engagements (ledger w))))
                 @ dataset_rows (outgoing (ledger w)) (engagements (ledger w))
                   (hd (map eng_name (engagements (ledger w)))))]"
proof -
  obtain e es where E: "engagements (ledger w) = e # es"
    using assms(5) by (cases "engagements (ledger w)") auto
  have A: "addInOrOut (eng_name e) ''test1'' ''0.0'' (clock w) ''urls'' ''checksums'' ''meta_url''
             ''some comments'' ''dummyuser'' ''dummydomain'' False (ledger w)
       = ((ledger w)\<lparr>outgoing := outgoing (ledger w) @ [test_row (ledger w) (clock w)]\<rparr>, Inr ())"
    using selftest_addInOrOut [OF assms(4,5), of "clock w"] E by simp
  show ?thesis
    using assms(1-4) E A by (simp add: selftest_def projectLs_def ls_def say_def Let_def split: prod.split sum.split)
qed


lemma demo_kwargs:
  "dict_get demo_config ''mysql'' KeyError = Inr [(''host'', ''db''), (''port'', ''3306''), (''user'', ''alice''), (''password'', ''pw'')]"
  "dbconn_kwargs (db_accepts demo_world) [(''host'', ''db''), (''port'', ''3306''), (''user'', ''alice''), (''password'', ''pw'')]
     = Inr demo_conn"
  by (simp_all add: demo_config_def dict_get_def dbconn_kwargs_def demo_world_def dbconn_init_def demo_conn_def
      py_int_def py_strip_def is_digit_def is_space_def parse_nat_def)

theorem selftest_no_projects_witness:
  "selftest (demo_world\<lparr>ledger := demo_ledger\<lparr>engagements := []\<rparr>\<rparr>)
     = (say ''[]'' (demo_world\<lparr>ledger := demo_ledger\<lparr>engagements := []\<rparr>\<rparr>), Inl IndexError)"
  using selftest_no_projects [of "demo_world\<lparr>ledger := demo_ledger\<lparr>engagements := []\<rparr>\<rparr>" demo_config
      "[(''host'', ''db''), (''port'', ''3306''), (''user'', ''alice''), (''password'', ''pw'')]" demo_conn]
  by (simp add: demo_kwargs) (simp add: demo_world_def demo_ledger_def)

lemma not_served_urls: "\<not> served s ''urls''"
proof -
  have "generate_url b k \<noteq> ''urls''" for b k
    by (simp add: generate_url_def)
  then have "find (\<lambda>((b, k), ob). generate_url b k = ''urls'') (s3_objects s) = None"
    by (simp add: find_None_iff split_def)
  then show ?thesis by (simp add: served_def)
qed

text \<open>
  C26. The script breaks the consistency of the ledger with the store that every
  invocation of \<^verbatim>\<open>librarian.py\<close> keeps (C1, C2): whenever a project is listed, it
  leaves the ledger recording the URL \<^verbatim>\<open>urls\<close>, which no object of the store
  serves, so \<^verbatim>\<open>librarian --get\<close> of that row cannot retrieve it.
\<close>

theorem selftest_breaks_consistency:
  assumes "cfg_file w = Some c" and "dict_get c ''mysql'' KeyError = Inr cred"
    and "dbconn_kwargs (db_accepts w) cred = Inr conn"
    and "db_up (ledger w)" and "engagements (ledger w) \<noteq> []"
  shows "''urls'' \<in> set (recorded_urls (ledger (fst (selftest w))))
         \<and> \<not> consistent (ledger (fst (selftest w))) (store (fst (selftest w)))"
proof -
  have "''urls'' \<in> set (recorded_urls (ledger (fst (selftest w))))"
    using selftest_effect [OF assms]
    by (simp add: recorded_urls_def test_row_def py_split_def is_space_def)
  with not_served_urls show ?thesis by (auto simp: consistent_def)
qed

theorem selftest_breaks_consistency_witness:
  "consistent (ledger demo_world) (store demo_world)
   \<and> \<not> consistent (ledger (fst (selftest demo_world))) (store (fst (selftest demo_world)))"
proof -
  have h: "consistent (ledger demo_world) (store demo_world)"
    by (simp add: consistent_def buckets_ok_def bucket_ok_def objects_ok_def recorded_urls_def
        demo_world_def demo_ledger_def demo_svc_def is_space_def)
  have "cfg_file demo_world = Some demo_config" "db_up (ledger demo_world)" "engagements (ledger demo_world) \<noteq> []"
    by (simp_all add: demo_world_def demo_ledger_def)
  from selftest_breaks_consistency [OF this(1) demo_kwargs this(2,3)] h show ?thesis by simp
qed

text \<open>
  C27. For the credential that \<^verbatim>\<open>--set_mysql_cred HOST PORT USER PASSWORD\<close>
  stores, the script's lookup \<^verbatim>\<open>cred['credentials']['mysql']\<close> finds exactly it, and
  \<^verbatim>\<open>DBConn(**cred)\<close> opens the same connection, or meets the same refusal, as
  \<^verbatim>\<open>get_db_access\<close> of \<^verbatim>\<open>librarian.py\<close>: the keyword and the positional
  constructions agree on the credentials the program writes.
\<close>

theorem selftest_credentials_agree:
  assumes "addCredentials ''mysql'' [(''host'', h), (''port'', p), (''user'', u), (''password'', pw)] w = (w', Inr ())"
  shows "map_option (\<lambda>c. dict_get c ''mysql'' KeyError) (cfg_file w')
           = Some (Inr [(''host'', h), (''port'', p), (''user'', u), (''password'', pw)])
         \<and> dbconn_kwargs (db_accepts w') [(''host'', h), (''port'', p), (''user'', u), (''password'', pw)]
           = get_db_access w'"
proof -
  from assms obtain c0 where "w' = saveConfig (upd_alist ''mysql''
      [(''host'', h), (''port'', p), (''user'', u), (''password'', pw)] c0) w"
    by (auto simp: addCredentials_def loadConfig_def split: option.splits)
  then show ?thesis
    by (simp add: saveConfig_def loadConfig_def get_db_access_def dict_get_def dbconn_kwargs_def)
qed

theorem selftest_credentials_agree_witness:
  "dbconn_kwargs (db_accepts (fst (addCredentials ''mysql'' [(''host'', ''db''), (''port'', ''3306''), (''user'', ''alice''), (''password'', ''pw'')] demo_world)))
     [(''host'', ''db''), (''port'', ''3306''), (''user'', ''alice''), (''password'', ''pw'')]
   = get_db_access (fst (addCredentials ''mysql'' [(''host'', ''db''), (''port'', ''3306''), (''user'', ''alice''), (''password'', ''pw'')] demo_world))"
proof -
  have a: "addCredentials ''mysql'' [(''host'', ''db''), (''port'', ''3306''), (''user'', ''alice''), (''password'', ''pw'')] demo_world
     = (fst (addCredentials ''mysql'' [(''host'', ''db''), (''port'', ''3306''), (''user'', ''alice''), (''password'', ''pw'')] demo_world), Inr ())"
    by (simp add: addCredentials_def loadConfig_def demo_world_def)
  from conjunct2 [OF selftest_credentials_agree [OF a]] show ?thesis .
qed

end
