(* ===== verification/DirWalk.thy ===== *)
theory DirWalk
  imports StorageS3
begin

text \<open>
  The directory walk \<^verbatim>\<open>_list_files\<close> of \<^verbatim>\<open>storage_s3.py\<close> (lines 25-36) as the code
  runs it: on path strings, each \<^verbatim>\<open>os.path.isfile\<close>, \<^verbatim>\<open>os.path.isdir\<close> and
  \<^verbatim>\<open>os.listdir\<close> resolving its path from the root of the tree, the recursion following
  \<^verbatim>\<open>directory + '/' + f\<close>. Nothing in the code bounds the recursion, so the model
  spends one unit of fuel per nested call and is \<open>None\<close> when the fuel runs out.
  Two theorems connect it to \<open>list_files_at\<close>, the walk over the resolved node that
  \<open>upload\<close> uses: fuel above the height of the tree is enough (the recursion ends
  because every name \<^verbatim>\<open>os.listdir\<close> returns is non-empty and free of \<^verbatim>\<open>/\<close>, so
  each call goes one level deeper into a finite tree), and any result the walk
  returns is the result of \<open>list_files_at\<close>.
\<close>

subsection \<open>The walk on paths\<close>

text \<open>
  \<^verbatim>\<open>os.path.isfile(p)\<close> and \<^verbatim>\<open>os.listdir(p)\<close>; the latter is \<open>None\<close> (an
  \<^verbatim>\<open>OSError\<close>) on anything but a directory.
\<close>

definition os_isfile :: "fsnode \<Rightarrow> path \<Rightarrow> bool" where
  "os_isfile fs p \<longleftrightarrow> (case os_lookup fs p of Some (RegFile _) \<Rightarrow> True | _ \<Rightarrow> False)"

definition os_listdir :: "fsnode \<Rightarrow> path \<Rightarrow> string list option" where
  "os_listdir fs p = (case os_lookup fs p of Some (Directory es) \<Rightarrow> Some (map fst es) | _ \<Rightarrow> None)"

text \<open>
  \<open>walk fuel fs directory\<close> is \<^verbatim>\<open>_list_files(directory)\<close>: a regular file yields
  itself; otherwise \<^verbatim>\<open>os.listdir\<close> either raises or gives the names, and
  \<open>walk_names\<close> is the \<^verbatim>\<open>for\<close> loop over them: a regular file yields its path, a
  directory the walk of its path, anything else nothing.
\<close>

fun walk :: "nat \<Rightarrow> fsnode \<Rightarrow> path \<Rightarrow> (error + path list) option"
  and walk_names :: "nat \<Rightarrow> fsnode \<Rightarrow> path \<Rightarrow> string list \<Rightarrow> (error + path list) option" where
  "walk 0 fs directory = None"
| "walk (Suc n) fs directory =
     (if os_isfile fs directory then Some (Inr [directory])
      else case os_listdir fs directory of
        None \<Rightarrow> Some (Inl OSError)
      | Some names \<Rightarrow> walk_names n fs directory names)"
| "walk_names n fs directory [] = Some (Inr [])"
| "walk_names n fs directory (f # names) =
     (let name = directory @ ''/'' @ f in
      if os_isfile fs name
      then map_option (append_exc (Inr [name])) (walk_names n fs directory names)
      else if os_isdir fs name
      then (case walk n fs name of
              None \<Rightarrow> None
            | Some r \<Rightarrow> map_option (append_exc r) (walk_names n fs directory names))
      else walk_names n fs directory names)"

text \<open>The height of a tree: the longest chain of nested directories.\<close>

fun fs_height :: "fsnode \<Rightarrow> nat" and entries_height :: "(string \<times> fsnode) list \<Rightarrow> nat" where
  "fs_height (RegFile d) = 0"
| "fs_height Special = 0"
| "fs_height (Directory es) = Suc (entries_height es)"
| "entries_height [] = 0"
| "entries_height ((f, n) # es) = max (fs_height n) (entries_height es)"

subsection \<open>Resolving the paths the walk builds\<close>

lemma append_exc_Nil [simp]: "append_exc (Inr []) r = r"
  by (simp add: append_exc_def split: sum.split)

lemma entries_height_mem: "(f, n) \<in> set es \<Longrightarrow> fs_height n \<le> entries_height es"
  by (induction es) auto

lemma resolve_height: "resolve n cs = Some m \<Longrightarrow> fs_height m \<le> fs_height n"
proof (induction n cs rule: resolve.induct)
  case (2 es c cs)
  then obtain n where n: "map_of es c = Some n" and r: "resolve n cs = Some m"
    by (auto split: option.splits)
  have "fs_height n \<le> entries_height es"
    using entries_height_mem [OF map_of_SomeD [OF n]] .
  with "2.IH" [OF n r] show ?case by simp
qed auto

lemma os_lookup_child:
  assumes "wf_fs fs" and "os_lookup fs d = Some (Directory es)" and "(f, c) \<in> set es"
  shows "os_lookup fs (d @ ''/'' @ f) = Some c"
proof -
  have "wf_fs (Directory es)" using os_lookup_wf [OF assms(1,2)] .
  with assms(3) have "resolve (Directory es) [f] = Some c"
    by simp
  from os_lookup_below [OF assms(1,2) this] show ?thesis
    by (simp add: slash_path_def)
qed

lemma walk_Suc_lookup:
  "walk (Suc n) fs d =
     (case os_lookup fs d of
        Some (RegFile _) \<Rightarrow> Some (Inr [d])
      | Some (Directory es) \<Rightarrow> walk_names n fs d (map fst es)
      | _ \<Rightarrow> Some (Inl OSError))"
  by (simp add: os_isfile_def os_listdir_def split: option.split fsnode.split)

lemma walk_names_Cons_lookup:
  assumes "os_lookup fs (d @ ''/'' @ f) = Some c"
  shows "walk_names n fs d (f # names) =
     (case c of
        RegFile _ \<Rightarrow> map_option (append_exc (Inr [d @ ''/'' @ f])) (walk_names n fs d names)
      | Directory _ \<Rightarrow>
          (case walk n fs (d @ ''/'' @ f) of
             None \<Rightarrow> None
           | Some r \<Rightarrow> map_option (append_exc r) (walk_names n fs d names))
      | Special \<Rightarrow> walk_names n fs d names)"
  using assms by (simp add: os_isfile_def os_isdir_def split: fsnode.split)

subsection \<open>What the walk returns\<close>

lemma walk_names_sound:
  assumes IH: "\<And>d' r'. walk n fs d' = Some r' \<Longrightarrow> r' = list_files_at fs d'"
    and wf: "wf_fs fs" and d: "os_lookup fs d = Some (Directory es)"
  shows "set es' \<subseteq> set es \<Longrightarrow> walk_names n fs d (map fst es') = Some r \<Longrightarrow> r = list_dir d es'"
proof (induction es' arbitrary: r)
  case Nil
  then show ?case by simp
next
  case (Cons e es')
  obtain f c where e: "e = (f, c)" by fastforce
  with Cons.prems(1) have lk: "os_lookup fs (d @ ''/'' @ f) = Some c"
    using os_lookup_child [OF wf d] by auto
  from Cons.prems(1) have sub: "set es' \<subseteq> set es" by simp
  show ?case
  proof (cases c)
    case (RegFile x)
    with Cons.prems(2) Cons.IH [OF sub] show ?thesis
      by (auto simp: e walk_names_Cons_lookup [OF lk] simp del: walk_names.simps)
  next
    case (Directory x)
    with Cons.prems(2) obtain r1 r2 where "walk n fs (d @ ''/'' @ f) = Some r1"
      and "walk_names n fs d (map fst es') = Some r2" and "r = append_exc r1 r2"
      by (auto simp: e walk_names_Cons_lookup [OF lk] simp del: walk_names.simps split: option.splits)
    moreover from IH [OF this(1)] lk Directory have "r1 = list_files (d @ ''/'' @ f) c"
      by (simp add: list_files_at_def)
    ultimately show ?thesis
      using Cons.IH [OF sub] Directory by (simp add: e)
  next
    case Special
    with Cons.prems(2) Cons.IH [OF sub] show ?thesis
      by (simp add: e walk_names_Cons_lookup [OF lk] del: walk_names.simps)
  qed
qed

text \<open>
  C24. On a well-formed tree, whenever the path-level walk returns (whatever the
  fuel), it returns what \<open>list_files_at\<close> gives for the node the path resolves to:
  the same files in the same order, or the same \<^verbatim>\<open>OSError\<close>.
\<close>

theorem walk_sound: "wf_fs fs \<Longrightarrow> walk n fs d = Some r \<Longrightarrow> r = list_files_at fs d"
proof (induction n arbitrary: d r)
  case (Suc n)
  show ?case
  proof (cases "os_lookup fs d")
    case (Some nd)
    show ?thesis
    proof (cases nd)
      case (Directory es)
      with Suc.prems(2) Some have "walk_names n fs d (map fst es) = Some r"
        by (simp add: walk_Suc_lookup del: walk.simps)
      from walk_names_sound [OF Suc.IH [OF Suc.prems(1)] Suc.prems(1) Some [unfolded Directory] _ this]
      show ?thesis using Some Directory by (simp add: list_files_at_def)
    qed (use Suc.prems(2) Some in \<open>auto simp: walk_Suc_lookup list_files_at_def simp del: walk.simps split: fsnode.splits\<close>)
  qed (use Suc.prems(2) in \<open>simp add: walk_Suc_lookup list_files_at_def del: walk.simps\<close>)
qed simp

subsection \<open>The walk returns\<close>

lemma walk_names_total:
  assumes IH: "\<And>d' c. os_lookup fs d' = Some c \<Longrightarrow> fs_height c < n \<Longrightarrow> \<exists>r. walk n fs d' = Some r"
    and wf: "wf_fs fs" and d: "os_lookup fs d = Some (Directory es)" and h: "entries_height es < n"
  shows "set es' \<subseteq> set es \<Longrightarrow> \<exists>r. walk_names n fs d (map fst es') = Some r"
proof (induction es')
  case Nil
  then show ?case by simp
next
  case (Cons e es')
  obtain f c where e: "e = (f, c)" by fastforce
  with Cons.prems have lk: "os_lookup fs (d @ ''/'' @ f) = Some c" and mem: "(f, c) \<in> set es"
    using os_lookup_child [OF wf d] by auto
  from Cons.prems Cons.IH obtain r2 where r2: "walk_names n fs d (map fst es') = Some r2"
    by auto
  show ?case
  proof (cases c)
    case (Directory x)
    from entries_height_mem [OF mem] h have "fs_height c < n" by simp
    then obtain r1 where "walk n fs (d @ ''/'' @ f) = Some r1"
      using IH [OF lk] by blast
    with r2 Directory show ?thesis
      by (simp add: e walk_names_Cons_lookup [OF lk] del: walk_names.simps)
  qed (use r2 in \<open>simp_all add: e walk_names_Cons_lookup [OF lk] del: walk_names.simps\<close>)
qed

lemma walk_total:
  "wf_fs fs \<Longrightarrow> 0 < n \<Longrightarrow> (\<And>c. os_lookup fs d = Some c \<Longrightarrow> fs_height c < n)
     \<Longrightarrow> \<exists>r. walk n fs d = Some r"
proof (induction n arbitrary: d)
  case (Suc n)
  show ?case
  proof (cases "os_lookup fs d")
    case (Some nd)
    show ?thesis
    proof (cases nd)
      case (Directory es)
      with Some Suc.prems(3) have h: "entries_height es < n" by fastforce
      have IH: "\<And>d' c. os_lookup fs d' = Some c \<Longrightarrow> fs_height c < n \<Longrightarrow> \<exists>r. walk n fs d' = Some r"
        using Suc.IH [OF Suc.prems(1)] by fastforce
      have "\<exists>r. walk_names n fs d (map fst es) = Some r"
        using walk_names_total [where n=n and fs=fs and d=d and es=es and es'=es]
          IH Suc.prems(1) Some Directory h by blast
      then show ?thesis using Some Directory by (simp add: walk_Suc_lookup del: walk.simps)
    qed (use Some in \<open>simp_all add: walk_Suc_lookup del: walk.simps\<close>)
  qed (simp add: walk_Suc_lookup del: walk.simps)
qed simp

text \<open>
  C23. On a well-formed tree the recursion of \<^verbatim>\<open>_list_files\<close> ends: with more fuel
  than the height of the tree the walk from any path returns a result.
\<close>

theorem walk_terminates:
  assumes "wf_fs fs" and "fs_height fs < n"
  shows "\<exists>r. walk n fs d = Some r"
proof (rule walk_total [OF assms(1)])
  show "0 < n" using assms(2) by simp
  fix c assume "os_lookup fs d = Some c"
  then have "fs_height c \<le> fs_height fs"
    by (simp add: os_lookup_def resolve_height)
  with assms(2) show "fs_height c < n" by simp
qed

theorem walk_terminates_witness: "\<exists>r. walk 4 demo_tree ''data'' = Some r"
  using walk_terminates [of demo_tree 4 "''data''"] by (simp add: demo_tree_def)

theorem walk_sound_witness:
  "walk 4 demo_tree ''data'' = Some (list_files_at demo_tree ''data'')"
proof -
  have w: "wf_fs demo_tree" by (simp add: demo_tree_def)
  have "walk 4 demo_tree ''data'' = Some (Inr [''data/a.txt'', ''data/sub/b.txt''])"
    by (simp add: demo_tree_def os_isfile_def os_isdir_def os_listdir_def os_lookup_def
        path_comps_def numeral_eq_Suc)
  with walk_sound [OF w this] show ?thesis by simp
qed

end
