(* ===== verification/RoundTrip.thy ===== *)
theory RoundTrip
  imports Consistency
begin

text \<open>
  The round trip the program exists for: \<^verbatim>\<open>--publish\<close> of a local directory, then
  \<^verbatim>\<open>--get\<close> of the same (project, dataset, version) into an empty directory. It
  composes every component: the walk and the upload (\<open>StorageS3\<close>), the record
  and the query (\<open>DBConn\<close>), the URLs the store serves (\<open>ServedUrls\<close>) and the
  downloads into the local tree. The directory comes back exactly when it is flat
  (only regular files) and its names need no URL quoting; nested directories are
  flattened and quoted names come back quoted (findings of the manifest).
\<close>

subsection \<open>The two commands on a successful run\<close>

text \<open>What a successful \<^verbatim>\<open>publish\<close> did: the credentials it read, the upload and the record.\<close>

lemma publish_InrE:
  assumes "publish t lp p n v cm w = (w1, Inr ())"
  obtains db s3 stamp urls cks where "get_db_access w = Inr db" and "get_s3_access w = Inr s3"
    and "strftime_stamp (clock w) = Inr stamp"
    and "upload s3 (local_fs w) lp p n (n @ stamp) (store w) = (store w1, Inr (urls, cks))"
    and "addInOrOut p n v (clock w) (py_join ''\<newline>'' urls) (py_join ''\<newline>'' cks) [] cm
           ''testuser'' ''testhost'' (t = ''in'') (ledger w) = (ledger w1, Inr ())"
    and "cfg_file w1 = cfg_file w" and "db_accepts w1 = db_accepts w" and "local_fs w1 = local_fs w"
  using assms
  by (auto simp: publish_def Let_def split: sum.splits prod.splits if_splits intro: that)


text \<open>\<^verbatim>\<open>get\<close> into an existing directory when the ledger answers and lists the project.\<close>

lemma get_fetches:
  assumes db: "get_db_access w = Inr db" and up: "db_up (ledger w)"
    and pin: "p \<in> set (map eng_name (engagements (ledger w)))"
    and dst: "os_lookup (local_fs w) dir = Some (Directory es)" and on: "s3_online (store w)"
    and fu: "fetch_urls (ledger w) p n v = us"
    and us: "\<forall>u \<in> set us. CHR ''/'' \<in> set u \<and> url_base u \<noteq> [] \<and> writable_entry es (url_base u)"
  shows "\<exists>w2. get p n v dir w = (w2, Inr ())
           \<and> os_lookup (local_fs w2) dir = Some (Directory (downloaded (store w) us es))"
proof -
  obtain fs' where dl: "download_urls (store w) dir us (local_fs w) = (fs', Inr ())"
    and at: "os_lookup fs' dir = Some (Directory (downloaded (store w) us es))"
    using download_urls_dir [OF dst on us] by blast
  have "fetch (store w) (ledger w) p n v dir (local_fs w) = (fs', Inr dir)"
    using up fu dl by (simp add: fetch_def fetch_urls_def Let_def)
  moreover have "os_isdir (local_fs w) dir" using dst by (simp add: os_isdir_def)
  ultimately show ?thesis
    using db up pin at by (simp add: get_def projectLs_def)
qed


text \<open>The URLs of a flat upload download back to the entries of the directory.\<close>

lemma flat_download:
  assumes U: "urls = map (\<lambda>(f, nd). generate_url b (sd @ ''/'' @ f)) des"
    and st: "\<forall>f d. (f, RegFile d) \<in> set des \<longrightarrow>
               map_of (s3_objects s) (b, sd @ ''/'' @ f) = Some \<lparr>obj_data = d, obj_public = True\<rparr>"
    and wfd: "wf_fs (Directory des)"
    and flat: "\<forall>(f, nd) \<in> set des. (\<exists>d. nd = RegFile d) \<and> list_all quote_safe f"
    and oo: "objects_ok s" and bok: "bucket_ok b" and on: "s3_online s"
  shows "downloaded s urls [] = des
    \<and> (\<forall>u \<in> set urls. CHR ''/'' \<in> set u \<and> url_base u \<noteq> [] \<and> writable_entry [] (url_base u))"
proof -
  let ?U = "\<lambda>f. generate_url b (sd @ ''/'' @ f)"
  from wfd have dn: "distinct (map fst des)" and nm: "\<forall>(f, nd) \<in> set des. f \<noteq> [] \<and> CHR ''/'' \<notin> set f"
    by (auto simp: wf_entries_iff)
  have base: "url_base (?U f) = f" if "(f, nd) \<in> set des" for f nd
    using that flat nm by (intro url_base_generate_url) auto
  have body: "nd = RegFile (url_body s (?U f))" if m: "(f, nd) \<in> set des" for f nd
  proof -
    obtain d where nd: "nd = RegFile d" using m flat by blast
    with m st have "map_of (s3_objects s) (b, sd @ ''/'' @ f) = Some \<lparr>obj_data = d, obj_public = True\<rparr>"
      by blast
    from http_get_stored [OF oo bok on this] nd show ?thesis by (simp add: url_body_def)
  qed
  have "downloaded s urls [] = des"
    unfolding U using dn base body by (intro downloaded_flat) auto
  moreover have "\<forall>u \<in> set urls. CHR ''/'' \<in> set u \<and> url_base u \<noteq> [] \<and> writable_entry [] (url_base u)"
    using base nm by (auto simp: U generate_url_def writable_entry_def)
  ultimately show ?thesis ..
qed

subsection \<open>Publish, then get\<close>

text \<open>
  C3. Publishing a directory whose entries are regular files with names that need
  no URL quoting, as a (project, dataset, version) the ledger does not yet record,
  and then getting that dataset into an empty directory, succeeds and leaves the
  target directory with exactly the entries of the published one: the same names,
  the same contents, in the same order. The world starts from the invariants every
  reachable world has (C1, C2) and a well-formed local tree (C15).
\<close>

theorem publish_get_roundtrip:
  assumes wf: "wf_fs (local_fs w)" and src: "os_lookup (local_fs w) lp = Some (Directory des)"
    and flat: "\<forall>(f, nd) \<in> set des. (\<exists>d. nd = RegFile d) \<and> list_all quote_safe f"
    and dst: "os_lookup (local_fs w) dir = Some (Directory [])"
    and inv: "ledger_inv (ledger w)" and con: "consistent (ledger w) (store w)"
    and fresh: "fetch_urls (ledger w) p n v = []"
    and pub: "publish t lp p n v cm w = (w1, Inr ())"
  shows "\<exists>w2. get p n v dir w1 = (w2, Inr ()) \<and> os_lookup (local_fs w2) dir = Some (Directory des)"
proof -
  obtain db s3 stamp urls cks where gd: "get_db_access w = Inr db"
    and up: "upload s3 (local_fs w) lp p n (n @ stamp) (store w) = (store w1, Inr (urls, cks))"
    and add: "addInOrOut p n v (clock w) (py_join ''\<newline>'' urls) (py_join ''\<newline>'' cks) [] cm
           ''testuser'' ''testhost'' (t = ''in'') (ledger w) = (ledger w1, Inr ())"
    and cf: "cfg_file w1 = cfg_file w" and da: "db_accepts w1 = db_accepts w"
    and lf: "local_fs w1 = local_fs w"
    using pub by (rule publish_InrE)
  let ?sd = "py_join ''/'' [p, n, n @ stamp]"
  have flat': "\<forall>(f, nd) \<in> set des. \<exists>d. nd = RegFile d" using flat by auto
  note UF = upload_flat [OF wf src flat' up]
  from con have bo: "buckets_ok (store w)" and oo: "objects_ok (store w)"
    by (simp_all add: consistent_def)
  note S = upload_served [OF up bo oo]
  obtain files where gb: "get_bucket s3 (store w) = Inr ()"
    and uf: "upload_files s3 (local_fs w) lp ?sd files ([], []) (store w) = (store w1, Inr (urls, cks))"
    using up by (rule upload_Inr_cases)
  have on: "s3_online (store w1)"
    using gb upload_files_frame [OF uf] by (auto simp: get_bucket_def split: if_splits)
  note D = flat_download [OF conjunct1 [OF UF] conjunct2 [OF UF] os_lookup_wf [OF wf src] flat
      conjunct1 [OF conjunct2 [OF S]] get_bucket_ok [OF gb bo] on]
  have good: "\<forall>u \<in> set urls. u \<noteq> [] \<and> (\<forall>c \<in> set u. \<not> is_space c)"
    using conjunct2 [OF conjunct2 [OF conjunct2 [OF S]]] by blast
  have FU: "fetch_urls (ledger w1) p n v = urls" and eng: "engagements (ledger w1) = engagements (ledger w)"
    and dbu: "db_up (ledger w1) = db_up (ledger w)"
    using fetch_urls_recorded [OF inv fresh add] py_split_py_join_lines [OF good] by simp_all
  from add have up0: "db_up (ledger w)" and pin: "p \<in> set (map eng_name (engagements (ledger w)))"
    by (auto simp: addInOrOut_def projectLs_def split: if_splits)
  have gd1: "get_db_access w1 = Inr db"
    using gd cf da by (simp add: get_db_access_def loadConfig_def)
  from get_fetches [OF gd1 _ _ _ on FU conjunct2 [OF D]] up0 dbu eng pin dst lf conjunct1 [OF D]
  show ?thesis by auto
qed

subsection \<open>A concrete round trip\<close>

text \<open>A flat directory \<^verbatim>\<open>data\<close> with two files and an empty directory \<^verbatim>\<open>out\<close>.\<close>

definition rt_tree :: fsnode where
  "rt_tree = Directory [(''data'', Directory [(''a.txt'', RegFile ''alpha''), (''b.txt'', RegFile ''beta'')]),
     (''out'', Directory [])]"

definition rt_world :: world where
  "rt_world = demo_world\<lparr>local_fs := rt_tree\<rparr>"

definition rt_urls :: "url list" where
  "rt_urls = [''https://s3.amazonaws.com/librarian_upload_test/memex/ads/ads-20240517-090307000042/a.txt'',
     ''https://s3.amazonaws.com/librarian_upload_test/memex/ads/ads-20240517-090307000042/b.txt'']"

definition rt_svc_after :: s3_service where
  "rt_svc_after = demo_svc\<lparr>s3_objects :=
     [((''librarian_upload_test'', ''memex/ads/ads-20240517-090307000042/a.txt''), \<lparr>obj_data = ''alpha'', obj_public = True\<rparr>),
      ((''librarian_upload_test'', ''memex/ads/ads-20240517-090307000042/b.txt''), \<lparr>obj_data = ''beta'', obj_public = True\<rparr>)]\<rparr>"

definition rt_row :: data_row where
  "rt_row = demo_row\<lparr>row_urls := py_join ''\<newline>'' rt_urls\<rparr>"

lemma rt_up: "upload demo_storage rt_tree ''data'' ''memex'' ''ads'' ''ads-20240517-090307000042'' demo_svc
  = (rt_svc_after, Inr (rt_urls, [[], []]))"
  by (simp add: model_simps rt_tree_def demo_svc_def demo_storage_def rt_svc_after_def rt_urls_def)

lemma rt_add: "addInOrOut ''memex'' ''ads'' ''v1'' demo_clock (py_join ''\<newline>'' rt_urls)
     (py_join ''\<newline>'' [[], []]) [] ''first'' ''testuser'' ''testhost'' True demo_ledger
   = (demo_ledger\<lparr>incoming := [rt_row]\<rparr>, Inr ())"
  by (simp add: addInOrOut_def projectLs_def demo_ledger_def rt_row_def demo_row_def next_id_def)

lemma rt_pub: "publish ''in'' ''data'' ''memex'' ''ads'' ''v1'' ''first'' rt_world
  = (say ''File(s) successfully uploaded''
      (rt_world\<lparr>store := rt_svc_after, ledger := demo_ledger\<lparr>incoming := [rt_row]\<rparr>\<rparr>), Inr ())"
proof -
  have w: "local_fs rt_world = rt_tree" "store rt_world = demo_svc" "clock rt_world = demo_clock"
    "ledger rt_world = demo_ledger"
    by (simp_all add: rt_world_def demo_world_def)
  have db: "get_db_access rt_world = get_db_access demo_world"
    and s3: "get_s3_access rt_world = get_s3_access demo_world"
    by (simp_all add: get_db_access_def get_s3_access_def loadConfig_def rt_world_def)
  have ex: "os_exists rt_tree ''data''"
    by (simp add: os_exists_def rt_tree_def os_lookup_def path_comps_def)
  have pl: "projectLs demo_ledger = Inr [''memex'']" by (simp add: projectLs_def demo_ledger_def)
  have nm: "''memex'' \<in> set [''memex'']" by simp
  have l2: "ledger (rt_world\<lparr>store := rt_svc_after\<rparr>) = demo_ledger" by (simp add: w)
  show ?thesis
    apply (simp only: publish_def db s3 demo_db demo_s3 sum.case w ex not_True_eq_False if_False pl nm
        if_True Let_def)
    apply (simp only: strftime_demo_clock sum.case append_Cons append_Nil)
    apply (simp only: rt_up prod.case sum.case world.update_convs world.select_convs w simp_thms)
    apply (simp only: l2 rt_add prod.case sum.case)
    done
qed

theorem publish_get_roundtrip_witness:
  "\<exists>w2. get ''memex'' ''ads'' ''v1'' ''out''
          (fst (publish ''in'' ''data'' ''memex'' ''ads'' ''v1'' ''first'' rt_world)) = (w2, Inr ())
     \<and> os_lookup (local_fs w2) ''out''
         = Some (Directory [(''a.txt'', RegFile ''alpha''), (''b.txt'', RegFile ''beta'')])"
proof -
  have h1: "wf_fs (local_fs rt_world)" and h2: "os_lookup (local_fs rt_world) ''data''
      = Some (Directory [(''a.txt'', RegFile ''alpha''), (''b.txt'', RegFile ''beta'')])"
    and h3: "\<forall>(f, nd) \<in> set [(''a.txt'', RegFile ''alpha''), (''b.txt'', RegFile ''beta'')].
               (\<exists>d. nd = RegFile d) \<and> list_all quote_safe f"
    and h4: "os_lookup (local_fs rt_world) ''out'' = Some (Directory [])"
    by (simp_all add: rt_world_def demo_world_def rt_tree_def os_lookup_def path_comps_def
        quote_safe_def always_safe_def)
  have h5: "ledger_inv (ledger rt_world)" and h7: "fetch_urls (ledger rt_world) ''memex'' ''ads'' ''v1'' = []"
    by (simp_all add: rt_world_def demo_world_def demo_ledger_def ledger_inv_def fetch_urls_def
        matching_urls_def)
  have h6: "consistent (ledger rt_world) (store rt_world)"
    by (simp add: consistent_def buckets_ok_def bucket_ok_def objects_ok_def recorded_urls_def
        rt_world_def demo_world_def demo_ledger_def demo_svc_def is_space_def)
  have h8: "publish ''in'' ''data'' ''memex'' ''ads'' ''v1'' ''first'' rt_world
      = (fst (publish ''in'' ''data'' ''memex'' ''ads'' ''v1'' ''first'' rt_world), Inr ())"
    by (simp only: rt_pub fst_conv)
  from publish_get_roundtrip [OF h1 h2 h3 h4 h5 h6 h7 h8] show ?thesis .
qed

subsection \<open>What a run writes to the local tree\<close>

definition rt_get :: cli_args where
  "rt_get = no_args\<lparr>arg_get := Some (''memex'', ''ads'', ''v1'', ''out'')\<rparr>"

text \<open>
  C15. A run of the program changes the local file tree only inside the target
  directory of its \<^verbatim>\<open>--get\<close>: a path whose node differs after the run is the
  target directory or one of its ancestors (whose listing grew), or a direct entry of
  the target (a downloaded file). Every other command leaves the tree as it was, and
  \<^verbatim>\<open>localpath + url[url.rindex('/'):]\<close> never names a file outside the target
  or in one of its subdirectories. The witness fetches two files into \<^verbatim>\<open>out\<close>.
\<close>

theorem run_writes_only_get_target:
  assumes "resolve (local_fs (fst (main_run a w))) ds \<noteq> resolve (local_fs w) ds"
  shows "\<exists>p d v dir. arg_get a = Some (p, d, v, dir)
           \<and> (prefix ds (path_comps dir) \<or> (\<exists>f. ds = path_comps dir @ [f]))"
  using assms
  by (auto simp: main_run_local_fs dispatch_def local_fs_frame split: option.splits prod.splits if_splits
      dest: get_local_frame)

theorem run_writes_only_get_target_witness:
  "resolve (local_fs (fst (main_run rt_get (fst (publish ''in'' ''data'' ''memex'' ''ads'' ''v1'' ''first'' rt_world)))))
       [''out''] \<noteq> resolve (local_fs (fst (publish ''in'' ''data'' ''memex'' ''ads'' ''v1'' ''first'' rt_world))) [''out'']
   \<and> (\<exists>p d v dir. arg_get rt_get = Some (p, d, v, dir)
         \<and> (prefix [''out''] (path_comps dir) \<or> (\<exists>f. [''out''] = path_comps dir @ [f])))"
proof -
  define W where "W = fst (publish ''in'' ''data'' ''memex'' ''ads'' ''v1'' ''first'' rt_world)"
  have W: "W = say ''File(s) successfully uploaded''
      (rt_world\<lparr>store := rt_svc_after, ledger := demo_ledger\<lparr>incoming := [rt_row]\<rparr>\<rparr>)"
    by (simp only: W_def rt_pub fst_conv)
  have db: "get_db_access W = get_db_access demo_world"
    by (simp add: W get_db_access_def loadConfig_def say_def rt_world_def demo_world_def)
  have up: "db_up (ledger W)" and pin: "''memex'' \<in> set (map eng_name (engagements (ledger W)))"
    by (simp_all add: W demo_ledger_def)
  have dst: "os_lookup (local_fs W) ''out'' = Some (Directory [])"
    by (simp add: W rt_world_def rt_tree_def os_lookup_def path_comps_def)
  have on: "s3_online (store W)" by (simp add: W rt_svc_after_def demo_svc_def)
  have fu: "fetch_urls (ledger W) ''memex'' ''ads'' ''v1'' = rt_urls"
    by (simp add: W fetch_urls_def matching_urls_def demo_ledger_def rt_row_def demo_row_def
        rt_urls_def py_split_def is_space_def Let_def)
  have us: "\<forall>u \<in> set rt_urls. CHR ''/'' \<in> set u \<and> url_base u \<noteq> [] \<and> writable_entry [] (url_base u)"
    by (simp add: rt_urls_def url_base_def writable_entry_def)
  obtain w2 where g: "get ''memex'' ''ads'' ''v1'' ''out'' W = (w2, Inr ())"
    and o: "os_lookup (local_fs w2) ''out'' = Some (Directory (downloaded (store W) rt_urls []))"
    using get_fetches [OF db [unfolded demo_db] up pin dst on fu us] by blast
  have m: "main_run rt_get W = (w2, Inr ())"
    by (simp add: main_run_def dispatch_def rt_get_def no_args_def g)
  have ne: "downloaded (store W) rt_urls [] \<noteq> []"
    by (simp add: downloaded_def rt_urls_def)
  have h: "resolve (local_fs (fst (main_run rt_get W))) [''out''] \<noteq> resolve (local_fs W) [''out'']"
    using o dst ne by (simp add: m os_lookup_def path_comps_def)
  show ?thesis using h run_writes_only_get_target [OF h] unfolding W_def by (rule conjI)
qed

end
