(* ===== verification/Spec2Isabelle.thy ===== *)
theory Spec2Isabelle
  imports SelfTest DirWalk RoundTrip
begin

text \<open>
  \<^bold>\<open>A verification model of librarian\<close> (src/librarian: librarian.py, dbconn.py,
  storage_s3.py), a Python 2 client that records data submissions of projects in a
  MySQL ledger and keeps their files in an S3 bucket.

  \<^bold>\<open>The program.\<close> The command functions of \<^verbatim>\<open>librarian.py\<close> (\<^verbatim>\<open>publish\<close>,
  \<^verbatim>\<open>get\<close>, \<^verbatim>\<open>create\<close>, \<^verbatim>\<open>ls\<close>, \<^verbatim>\<open>projectLs\<close>) read the credential file
  \<^verbatim>\<open>~/.librarian\<close>, open a \<^verbatim>\<open>DBConn\<close> (dbconn.py) and a \<^verbatim>\<open>StorageS3\<close>
  (storage_s3.py), and call them: \<^verbatim>\<open>publish\<close> walks a local path
  (\<^verbatim>\<open>StorageS3._list_files\<close>), uploads every file under
  \<^verbatim>\<open>project/name/name-STAMP/relative-path\<close> (\<^verbatim>\<open>StorageS3.upload\<close>) and records the
  newline-joined URLs in the ledger (\<^verbatim>\<open>DBConn.addInOrOut\<close>); \<^verbatim>\<open>get\<close> asks the ledger
  for the URLs of a (project, dataset, version) and downloads each into the target
  directory under the URL's last component (\<^verbatim>\<open>DBConn.fetch\<close>). The block
  under \<^verbatim>\<open>__main__\<close> of \<^verbatim>\<open>dbconn.py\<close> is a second entry point, a test script
  that lists, inserts and fetches against the same ledger.

  \<^bold>\<open>The theories.\<close>
  \<^item> \<open>Prelude\<close>: the exception type \<open>error\<close> (one constructor per exception the
    sources raise or let through; \<open>ConfigError\<close> carries its message), \<open>upd_alist\<close> (dictionary assignment), \<open>exc\<close>,
    the type of an operation that returns its effects together with its exception,
    and list lemmas shared by the components.
  \<^item> \<open>PyStr\<close>: the Python built-ins the code depends on: \<^verbatim>\<open>'\n'.join\<close>
    (\<open>py_join\<close>), \<^verbatim>\<open>str.split()\<close> (\<open>py_split\<close>), \<^verbatim>\<open>rindex\<close>, \<^verbatim>\<open>urllib.quote\<close>,
    \<^verbatim>\<open>int()\<close>, \<^verbatim>\<open>strftime('-%Y%m%d-%H%M%S%f')\<close> (\<open>strftime_stamp\<close>) and the
    conversions of \<^verbatim>\<open>query % args\<close> (\<open>fmt_count\<close>, \<open>py_format_args\<close>), with
    the round trips: split undoes join, the stamp decodes back to its datetime.
  \<^item> \<open>FileTree\<close>: the local file system as a finite tree (\<open>fsnode\<close>), path
    resolution (\<open>os_lookup\<close>), reading and writing a file, the paths a write
    changes (\<open>put_file_frame\<close>), well-formed trees.
  \<^item> \<open>StorageS3\<close>: \<open>list_files\<close> (\<^verbatim>\<open>_list_files\<close>), the object store
    \<open>s3_service\<close>, \<open>storage_init\<close> (\<^verbatim>\<open>__init__\<close>), \<open>upload_files\<close> and
    \<open>upload\<close> (\<^verbatim>\<open>upload\<close>), \<open>http_get\<close> (what \<^verbatim>\<open>urllib.urlretrieve\<close> receives).
  \<^item> \<open>DirWalk\<close>: \<^verbatim>\<open>_list_files\<close> as the code runs it, on path strings
    re-resolved at every call (\<open>walk\<close>, with fuel); it terminates on well-formed
    trees (C23) and agrees with \<open>list_files_at\<close> (C24).
  \<^item> \<open>DBConn\<close>: the tables as the record \<open>ledger\<close>; \<open>Schema\<close> and the insert
    statements of \<^verbatim>\<open>_getTableSignature\<close> (\<open>getTableSignature\<close>,
    \<open>execute_insert\<close>); \<open>projectLs\<close>, \<open>ls\<close>, \<open>createProject\<close>,
    \<open>addInOrOut\<close>, \<open>fetch\<close>; the invariant \<open>ledger_inv\<close>; the specification
    \<open>ls_spec\<close> of the listing and what \<open>fetch\<close> writes.
  \<^item> \<open>Librarian\<close>: the state of one run (\<open>world\<close>) and the command functions
    \<open>publish\<close>, \<open>get\<close>, \<open>create\<close>, \<open>ls_cmd\<close>, \<open>projectLs_cmd\<close>, with the
    configuration functions \<open>loadConfig\<close>, \<open>configInit\<close>, \<open>addCredentials\<close>,
    \<open>get_db_access\<close>, \<open>get_s3_access\<close>, and the constructor of the exception
    class \<^verbatim>\<open>ConfigError\<close> (\<open>config_error\<close>: one message, or \<^verbatim>\<open>TypeError\<close>).
  \<^item> \<open>ServedUrls\<close>: when the store serves a URL (\<open>served\<close>: the object
    \<open>http_get\<close> finds is public); \<open>generate_url\<close> is injective for S3 bucket names
    (\<open>bucket_ok\<close>, using the injectivity of quoting from \<open>PyStr\<close>); writes keep
    other URLs served and \<open>upload\<close> leaves every URL it returns served.
  \<^item> \<open>Dispatch\<close>: \<^verbatim>\<open>main\<close>: the parsed command line (\<open>cli_args\<close>), the
    \<^verbatim>\<open>if/elif\<close> chain (\<open>dispatch\<close>), the \<^verbatim>\<open>--lscreds\<close> branch (\<open>lscreds\<close>), the
    \<^verbatim>\<open>ConfigError\<close> handler (\<open>main_run\<close>), and the step relation \<open>invocation\<close>:
    one run of the program with any command line, the clock moved.
  \<^item> \<open>Consistency\<close>: the ledger-store invariant \<open>consistent\<close>, its preservation
    by every command and by \<open>invocation\<close>; the claims on reachable worlds (C1, C2)
    and a concrete run that publishes and fetches a dataset.
  \<^item> \<open>RoundTrip\<close>: \<^verbatim>\<open>--publish\<close> followed by \<^verbatim>\<open>--get\<close>: what a
    successful publish did (\<open>publish_InrE\<close>), what get writes, the round trip
    of a flat directory (C3), and that a run writes to the local tree only inside
    the target directory of its \<^verbatim>\<open>--get\<close> (C15).
  \<^item> \<open>SelfTest\<close>: the \<^verbatim>\<open>__main__\<close> script of \<^verbatim>\<open>dbconn.py\<close> (\<open>selftest\<close>), with
    \<^verbatim>\<open>DBConn(**cred)\<close> (\<open>dbconn_kwargs\<close>) and the \<^verbatim>\<open>repr\<close> of what it prints
    (C25, C26, C27).
  \<^item> this theory: the error paths of \<^verbatim>\<open>main\<close> and of \<^verbatim>\<open>publish\<close> (C7, C11, C12),
    the credential round trips through the command line (C17, C18), \<^verbatim>\<open>get\<close>'s
    reports and \<^verbatim>\<open>create\<close> (C19, C20), and which command may change which
    part of the world (C28).

  \<^bold>\<open>What is proved.\<close> C1, C2: every world reachable by invocations keeps
  the ledger-store consistency (every recorded URL downloads a public object) and
  the ledger invariant. C3: publishing a flat directory of regular files with names
  that need no quoting and getting the dataset back into an empty directory
  reproduces the directory exactly. C4, C5: the walk lists exactly the regular
  files, and a successful upload stores them all public under keys that keep their
  nesting; C21: a single file is stored under the bare store directory, without
  its name. C6: recording refines adding to the bag \<^verbatim>\<open>ls\<close> lists; C13: the
  join query of \<^verbatim>\<open>ls\<close> equals its filter specification. C14: \<^verbatim>\<open>fetch\<close> into a
  directory succeeds and flattens the dataset to the URLs' last components. C15: a
  run changes the local tree only inside the target directory of its
  \<^verbatim>\<open>--get\<close>. C10: the timestamp decodes back to its datetime; C17, C18: round
  trips of the credentials stored by \<^verbatim>\<open>--set_aws_cred\<close> and
  \<^verbatim>\<open>--set_mysql_cred\<close>. C16: the column bounds of the \<^verbatim>\<open>ls\<close> listing. C20:
  what \<^verbatim>\<open>create\<close> adds. C7-C9, C11, C12, C19: error behaviour, several of them
  divergences from the specification or bugs (see the findings of the manifest):
  a publish to an unlisted project uploads before the ledger refuses (C7), and
  \<^verbatim>\<open>--init\<close> over an existing config raises \<^verbatim>\<open>TypeError\<close> from the
  constructor of \<^verbatim>\<open>ConfigError\<close> (C12). C22: every insert statement of
  \<^verbatim>\<open>Schema\<close> takes one value per column after \<^verbatim>\<open>id\<close>, which is what makes the
  inserts of \<^verbatim>\<open>createProject\<close> and \<^verbatim>\<open>addInOrOut\<close> succeed. C23, C24: the
  path-level walk ends with fuel above the height of the tree and returns what the
  node-level walk returns. C25, C26, C27: the \<^verbatim>\<open>dbconn.py\<close> script stops with
  \<^verbatim>\<open>IndexError\<close> on an empty ledger, breaks the ledger-store consistency of C1
  by recording the placeholder URL \<^verbatim>\<open>urls\<close> (C1 holds for worlds reached by
  \<^verbatim>\<open>librarian.py\<close> only), and opens the same connection as
  \<^verbatim>\<open>get_db_access\<close>. C28: only \<^verbatim>\<open>--publish\<close> writes the store, only
  \<^verbatim>\<open>--publish\<close> and \<^verbatim>\<open>--create\<close> the ledger, only \<^verbatim>\<open>--get\<close> the local
  tree, only \<^verbatim>\<open>--init\<close> and the credential options the config file.

  \<^bold>\<open>Modelling choices.\<close> Exceptions are values (\<open>error + 'a\<close>); an operation on an
  external service returns the service state it leaves even when it raises, because
  nothing is rolled back. Database queries without \<^verbatim>\<open>ORDER BY\<close> return rows in
  insertion order. Every loop of the sources runs over a finite list or a finite
  tree, and every definition is total and structural, except the walk of
  \<open>DirWalk\<close>: the code recurses on path strings, whose resolution the type system
  does not tie to the tree, so that walk spends one unit of fuel per level and C23
  shows that the height of the tree plus one is enough. A run of the
  program is deterministic given its world; the choice of the next command line and
  of the clock is the nondeterminism of \<open>invocation\<close>.

  \<^bold>\<open>Not modelled.\<close> \<^verbatim>\<open>argparse\<close>'s parsing of the argument vector and
  \<^verbatim>\<open>--version\<close> (library code: the model starts from the namespace it returns),
  the JSON text of the config file (the model stores the credential dictionary that
  \<^verbatim>\<open>json.dumps\<close>/\<^verbatim>\<open>json.loads\<close> carry), the full help text of
  \<^verbatim>\<open>print_help\<close> (its first line only), the hash order of Python dictionaries
  (insertion order instead), network timing, the collation of MySQL string
  comparison, and the SQL text the server parses: a statement is modelled by the
  check its formatting makes and by the row it inserts. A config file the program did
  not write (invalid JSON, no \<^verbatim>\<open>credentials\<close> entry, values that are not strings)
  is outside the model, since the model keeps the dictionary rather than the text;
  code points above U+00FF in credentials likewise. The two service calls of one
  upload iteration, \<^verbatim>\<open>set_contents_from_filename\<close> and \<^verbatim>\<open>set_acl\<close>
  (storage_s3.py:54-55), succeed or fail together in the model (\<open>s3_put_ok\<close>):
  an object that is stored and then refused its ACL stays private in the real
  store. Modelling that case would make C1 false for a world whose recorded key
  is uploaded again, with the same timestamp, while the ACL is refused (see the
  findings); the model keeps the two calls together.
\<close>

section \<open>Error paths of the command line\<close>

text \<open>
  C12. \<^verbatim>\<open>--init\<close> when a config file exists crashes the program with a
  \<^verbatim>\<open>TypeError\<close> and changes nothing: \<^verbatim>\<open>configInit\<close> calls the one-message
  constructor of \<^verbatim>\<open>ConfigError\<close> with a message and the file name, so no
  \<^verbatim>\<open>ConfigError\<close> is raised for the handler of \<^verbatim>\<open>main\<close> to print.
\<close>

theorem init_existing_config_crashes:
  assumes "cfg_file w \<noteq> None" and "arg_config a = None" and "arg_init a"
  shows "main_run a w = (w, Inl TypeError)"
  using assms by (simp add: main_run_def dispatch_def configInit_def saveConfig_def)

theorem init_existing_config_crashes_witness:
  "main_run (no_args\<lparr>arg_init := True\<rparr>) demo_world = (demo_world, Inl TypeError)"
  by (rule init_existing_config_crashes) (simp_all add: demo_world_def no_args_def)

text \<open>
  C11. Without a config file no command changes the ledger, the store, the local tree
  or the config: the run prints the \<^verbatim>\<open>ConfigError\<close> message of \<^verbatim>\<open>loadConfig\<close>
  and ends normally, or prints one of the two messages of \<^verbatim>\<open>main\<close> that need no
  config (a \<^verbatim>\<open>--publish\<close> without \<^verbatim>\<open>--type\<close>, no command at all).
\<close>

theorem missing_config_reported:
  assumes "cfg_file w = None" and "arg_config a = None" and "\<not> arg_init a"
  shows "main_run a w \<in> {(say config_missing_msg w, Inr ()),
                          (say ''Please enter the type of data'' w, Inr ()), (say help_text w, Inr ())}"
  using assms
  by (simp add: main_run_def dispatch_def no_config_commands lscreds_no_config split: option.split prod.split)

theorem missing_config_reported_witness:
  "main_run demo_publish (demo_world\<lparr>cfg_file := None\<rparr>) \<in>
     {(say config_missing_msg (demo_world\<lparr>cfg_file := None\<rparr>), Inr ()),
      (say ''Please enter the type of data'' (demo_world\<lparr>cfg_file := None\<rparr>), Inr ()),
      (say help_text (demo_world\<lparr>cfg_file := None\<rparr>), Inr ())}"
  by (rule missing_config_reported) (simp_all add: demo_publish_def no_args_def)

section \<open>Publishing to a project the ledger does not list\<close>

text \<open>
  C7. \<^verbatim>\<open>publish\<close> to a project the ledger does not list still uploads: when
  the credentials, the local path and the clock are good and the upload succeeds,
  the run prints the warning, leaves the store as the upload left it, keeps the
  ledger and ends with the \<^verbatim>\<open>ProjectDoesNotExist\<close> of \<^verbatim>\<open>addInOrOut\<close>. The objects
  sent are public and no row refers to them; the witness uploads two.
\<close>

theorem publish_unlisted_project:
  assumes "get_db_access w = Inr db" and "get_s3_access w = Inr s3"
    and "os_exists (local_fs w) lp" and "db_up (ledger w)"
    and "p \<notin> set (map eng_name (engagements (ledger w)))"
    and "strftime_stamp (clock w) = Inr stamp"
    and "upload s3 (local_fs w) lp p n (n @ stamp) (store w) = (st', Inr r)"
  shows "publish io lp p n v cm w
           = ((say ''The given project doesn't exist. Please create it first.'' w)\<lparr>store := st'\<rparr>,
              Inl ProjectDoesNotExist)"
proof -
  obtain urls cks where r: "r = (urls, cks)" by (cases r)
  show ?thesis
    using assms by (simp add: publish_def Let_def projectLs_def addInOrOut_unlisted r)
qed

lemma demo_up_orphan: "upload demo_storage demo_tree ''data'' ''nope'' ''ads'' ''ads-20240517-090307000042'' demo_svc
  = (demo_svc\<lparr>s3_objects :=
       [((''librarian_upload_test'', ''nope/ads/ads-20240517-090307000042/a.txt''), \<lparr>obj_data = ''alpha'', obj_public = True\<rparr>),
        ((''librarian_upload_test'', ''nope/ads/ads-20240517-090307000042/sub/b.txt''), \<lparr>obj_data = ''beta'', obj_public = True\<rparr>)]\<rparr>,
     Inr ([''https://s3.amazonaws.com/librarian_upload_test/nope/ads/ads-20240517-090307000042/a.txt'',
           ''https://s3.amazonaws.com/librarian_upload_test/nope/ads/ads-20240517-090307000042/sub/b.txt''], [[], []]))"
  by (simp add: model_simps demo_tree_def demo_svc_def demo_storage_def)

theorem publish_unlisted_project_witness:
  "publish ''in'' ''data'' ''nope'' ''ads'' ''v1'' ''first'' demo_world
     = ((say ''The given project doesn't exist. Please create it first.'' demo_world)\<lparr>store :=
          demo_svc\<lparr>s3_objects :=
            [((''librarian_upload_test'', ''nope/ads/ads-20240517-090307000042/a.txt''), \<lparr>obj_data = ''alpha'', obj_public = True\<rparr>),
             ((''librarian_upload_test'', ''nope/ads/ads-20240517-090307000042/sub/b.txt''), \<lparr>obj_data = ''beta'', obj_public = True\<rparr>)]\<rparr>\<rparr>,
        Inl ProjectDoesNotExist)"
proof -
  have w: "local_fs demo_world = demo_tree" "store demo_world = demo_svc" "clock demo_world = demo_clock"
    "ledger demo_world = demo_ledger"
    by (simp_all add: demo_world_def)
  have ex: "os_exists (local_fs demo_world) ''data''"
    by (simp add: w os_exists_def demo_tree_def os_lookup_def path_comps_def)
  have up: "db_up (ledger demo_world)" and nm: "''nope'' \<notin> set (map eng_name (engagements (ledger demo_world)))"
    by (simp_all add: w demo_ledger_def)
  have st: "strftime_stamp (clock demo_world) = Inr ''-20240517-090307000042''"
    by (simp only: w strftime_demo_clock)
  have ul: "upload demo_storage (local_fs demo_world) ''data'' ''nope'' ''ads'' (''ads'' @ ''-20240517-090307000042'') (store demo_world)
    = (demo_svc\<lparr>s3_objects :=
       [((''librarian_upload_test'', ''nope/ads/ads-20240517-090307000042/a.txt''), \<lparr>obj_data = ''alpha'', obj_public = True\<rparr>),
        ((''librarian_upload_test'', ''nope/ads/ads-20240517-090307000042/sub/b.txt''), \<lparr>obj_data = ''beta'', obj_public = True\<rparr>)]\<rparr>,
     Inr ([''https://s3.amazonaws.com/librarian_upload_test/nope/ads/ads-20240517-090307000042/a.txt'',
           ''https://s3.amazonaws.com/librarian_upload_test/nope/ads/ads-20240517-090307000042/sub/b.txt''], [[], []]))"
    by (simp only: w append_Cons append_Nil demo_up_orphan)
  show ?thesis by (rule publish_unlisted_project [OF demo_db demo_s3 ex up nm st ul])
qed

section \<open>Credentials stored by the command line\<close>

text \<open>
  C17. After \<^verbatim>\<open>--set_aws_cred AK SK\<close> on an existing config file,
  \<^verbatim>\<open>get_s3_access\<close> builds the storage with exactly those keys and the default
  bucket \<^verbatim>\<open>librarian_upload_test\<close>: the keyword names written by \<^verbatim>\<open>main\<close> are the
  ones \<^verbatim>\<open>StorageS3.__init__\<close> accepts.
\<close>

theorem aws_credentials_roundtrip:
  assumes "cfg_file w \<noteq> None"
  shows "get_s3_access (fst (main_run (no_args\<lparr>arg_set_aws_cred := Some (ak, sk)\<rparr>) w))
    = Inr \<lparr>secret_key = Some sk, access_key = Some ak, bucketname = ''librarian_upload_test''\<rparr>"
  using assms
  by (auto simp: main_run_def dispatch_def no_args_def addCredentials_def saveConfig_def loadConfig_def
      get_s3_access_def dict_get_def storage_init_def)

theorem aws_credentials_roundtrip_witness:
  "get_s3_access (fst (main_run (no_args\<lparr>arg_set_aws_cred := Some (''AK2'', ''SK2'')\<rparr>) demo_world))
    = Inr \<lparr>secret_key = Some ''SK2'', access_key = Some ''AK2'', bucketname = ''librarian_upload_test''\<rparr>"
  by (rule aws_credentials_roundtrip) (simp add: demo_world_def)

text \<open>
  C18. After \<^verbatim>\<open>--set_mysql_cred HOST PORT USER PASSWORD\<close> on an existing config
  file, \<^verbatim>\<open>get_db_access\<close> connects with that user, password, host and port: the
  positional order of the option is kept through the stored dictionary.
\<close>

theorem mysql_credentials_roundtrip:
  assumes "cfg_file w \<noteq> None"
  shows "get_db_access (fst (main_run (no_args\<lparr>arg_set_mysql_cred := Some (h, p, u, pw)\<rparr>) w))
    = dbconn_init (db_accepts w) u pw h p"
  using assms
  by (auto simp: main_run_def dispatch_def no_args_def addCredentials_def saveConfig_def loadConfig_def
      get_db_access_def dict_get_def)

theorem mysql_credentials_roundtrip_witness:
  "get_db_access (fst (main_run (no_args\<lparr>arg_set_mysql_cred := Some (''db'', ''3306'', ''alice'', ''pw'')\<rparr>) demo_world))
    = Inr \<lparr>db_user = ''alice'', db_pswd = ''pw'', db_host = ''db'', db_port = 3306\<rparr>"
proof -
  have h: "cfg_file demo_world \<noteq> None" by (simp add: demo_world_def)
  have d: "dbconn_init (db_accepts demo_world) ''alice'' ''pw'' ''db'' ''3306''
      = Inr \<lparr>db_user = ''alice'', db_pswd = ''pw'', db_host = ''db'', db_port = 3306\<rparr>"
    by (simp add: dbconn_init_def demo_world_def py_int_def py_strip_def is_digit_def is_space_def
        parse_nat_def)
  from mysql_credentials_roundtrip [OF h] d show ?thesis by simp
qed

section \<open>get and create\<close>

text \<open>
  C19. \<^verbatim>\<open>get\<close> of a project the ledger does not list, or into a path that is not a
  directory, only prints the corresponding message and ends normally: nothing is
  fetched and no exception is raised (the specification's "reported, not raised").
\<close>

theorem get_reports_bad_target:
  assumes "get_db_access w = Inr db" and "db_up (ledger w)"
    and "p \<notin> set (map eng_name (engagements (ledger w))) \<or> \<not> os_isdir (local_fs w) lp"
  shows "get p d v lp w = (say (if p \<notin> set (map eng_name (engagements (ledger w)))
                                then ''The given project doesn't exist''
                                else ''The specified local path is not a directory'') w, Inr ())"
  using assms by (auto simp: get_def projectLs_def)

theorem get_reports_bad_target_witness:
  "get ''memex'' ''ads'' ''v1'' ''data/a.txt'' demo_world
     = (say ''The specified local path is not a directory'' demo_world, Inr ())"
proof -
  have h3: "''memex'' \<notin> set (map eng_name (engagements (ledger demo_world)))
      \<or> \<not> os_isdir (local_fs demo_world) ''data/a.txt''"
    by (simp add: demo_world_def demo_tree_def os_isdir_def os_lookup_def path_comps_def)
  have m: "''memex'' \<in> set (map eng_name (engagements (ledger demo_world)))"
    by (simp add: demo_world_def demo_ledger_def)
  have u: "db_up (ledger demo_world)" by (simp add: demo_world_def demo_ledger_def)
  from get_reports_bad_target [OF demo_db u h3] m show ?thesis by simp
qed

text \<open>
  C20. \<^verbatim>\<open>create\<close> of a name the ledger does not list appends one engagement: the
  next id, the name, today's date from the clock, the connection's user as owner and
  the comment (empty when absent); nothing else of the world changes.
\<close>

theorem create_adds_project:
  assumes "get_db_access w = Inr db" and "db_up (ledger w)"
    and "p \<notin> set (map eng_name (engagements (ledger w)))"
  shows "create p c w = (w\<lparr>ledger := (ledger w)\<lparr>engagements := engagements (ledger w) @
      [\<lparr>eng_id = next_id (map eng_id (engagements (ledger w))), eng_name = p,
        date_started = date_of (clock w), owner = db_user db,
        eng_comments = (case c of None \<Rightarrow> [] | Some s \<Rightarrow> s)\<rparr>]\<rparr>\<rparr>, Inr ())"
  using assms by (simp add: create_def createProject_def projectLs_def)

theorem create_adds_project_witness:
  "projectLs (ledger (fst (create ''ocean'' (Some ''buoys'') demo_world))) = Inr [''memex'', ''ocean'']"
proof -
  have u: "db_up (ledger demo_world)" by (simp add: demo_world_def demo_ledger_def)
  have n: "''ocean'' \<notin> set (map eng_name (engagements (ledger demo_world)))"
    by (simp add: demo_world_def demo_ledger_def)
  from create_adds_project [OF demo_db u n, of "Some ''buoys''"] show ?thesis
    by (simp add: projectLs_def demo_world_def demo_ledger_def)
qed

section \<open>What each command may change\<close>

text \<open>
  C28. A run of the program changes the object store only for \<^verbatim>\<open>--publish\<close>, the
  ledger only for \<^verbatim>\<open>--publish\<close> or \<^verbatim>\<open>--create\<close>, the local file tree only for
  \<^verbatim>\<open>--get\<close>, and the config file only for \<^verbatim>\<open>--init\<close>, \<^verbatim>\<open>--set_aws_cred\<close> or
  \<^verbatim>\<open>--set_mysql_cred\<close>, whatever else the command line holds and however the run
  ends: \<^verbatim>\<open>--pls\<close>, \<^verbatim>\<open>--ls\<close>, \<^verbatim>\<open>--lscreds\<close> and the help are read-only.
\<close>

theorem main_run_frame:
  "(arg_publish a = None \<longrightarrow> store (fst (main_run a w)) = store w)
   \<and> (arg_publish a = None \<and> arg_create a = None \<longrightarrow> ledger (fst (main_run a w)) = ledger w)
   \<and> (arg_get a = None \<longrightarrow> local_fs (fst (main_run a w)) = local_fs w)
   \<and> (\<not> arg_init a \<and> arg_set_aws_cred a = None \<and> arg_set_mysql_cred a = None
        \<longrightarrow> cfg_file (fst (main_run a w)) = cfg_file w)"
proof (intro conjI impI)
  assume "arg_publish a = None"
  then have "store (fst (dispatch a w)) = store w"
    by (intro dispatch_preserves_cases [where Q = "\<lambda>w'. store w' = store w"])
      (simp_all add: config_frame listing_frame get_frame create_frame)
  with main_run_say [of a w] show "store (fst (main_run a w)) = store w" by auto
next
  assume "arg_publish a = None \<and> arg_create a = None"
  then have "ledger (fst (dispatch a w)) = ledger w"
    by (intro dispatch_preserves_cases [where Q = "\<lambda>w'. ledger w' = ledger w"])
      (simp_all add: config_frame listing_frame get_frame)
  with main_run_say [of a w] show "ledger (fst (main_run a w)) = ledger w" by auto
next
  assume "arg_get a = None"
  then have "local_fs (fst (dispatch a w)) = local_fs w"
    by (intro dispatch_preserves_cases [where Q = "\<lambda>w'. local_fs w' = local_fs w"])
      (simp_all add: local_fs_frame)
  with main_run_say [of a w] show "local_fs (fst (main_run a w)) = local_fs w" by auto
next
  assume "\<not> arg_init a \<and> arg_set_aws_cred a = None \<and> arg_set_mysql_cred a = None"
  then have "cfg_file (fst (dispatch a w)) = cfg_file w"
    by (intro dispatch_preserves_cases [where Q = "\<lambda>w'. cfg_file w' = cfg_file w"])
      (simp_all add: cfg_file_frame)
  with main_run_say [of a w] show "cfg_file (fst (main_run a w)) = cfg_file w" by auto
qed

theorem main_run_frame_witness:
  "store (fst (main_run no_args demo_world)) = store demo_world
   \<and> ledger (fst (main_run no_args demo_world)) = ledger demo_world
   \<and> local_fs (fst (main_run no_args demo_world)) = local_fs demo_world
   \<and> cfg_file (fst (main_run no_args demo_world)) = cfg_file demo_world"
  using main_run_frame [of no_args demo_world] by (simp add: no_args_def)

end
